(* ===== verification/Prelude.thy ===== *)
theory Prelude
  imports Main "HOL-Library.Word" "HOL-Library.Multiset"
begin

text \<open>
  Shared vocabulary of the development: machine words and byte strings, the
  result type of fallible Rust code, a state-passing form of it, the
  little-endian integer codecs of \<^verbatim>\<open>std\<close>, the slice and string operations the
  components use (\<^verbatim>\<open>chunks\<close>, \<^verbatim>\<open>chunks_exact\<close>, \<^verbatim>\<open>replace\<close>, \<^verbatim>\<open>split\<close>, \<^verbatim>\<open>div_ceil\<close>), and
  the interface locales that several components instantiate.
\<close>

section \<open>Named collections\<close>

named_theorems prog_simps \<open>rewriting of state-passing programs\<close>
named_theorems codec_simps \<open>length and inverse laws of encoders\<close>

section \<open>Types\<close>

type_synonym byte = "8 word"
type_synonym u32 = "32 word"
type_synonym u64 = "64 word"
type_synonym bytes = "8 word list"

text \<open>
  \<^verbatim>\<open>Bail\<close> is an \<^verbatim>\<open>anyhow\<close> error raised by the code, \<^verbatim>\<open>IoError\<close> an error of the operating
  system or of a library call that \<^verbatim>\<open>?\<close> propagates, \<^verbatim>\<open>Panicked\<close> a panic of the thread.
\<close>

datatype error = Bail string | IoError string | Panicked string

type_synonym 'a result = "error + 'a"

fun error_text :: "error \<Rightarrow> string" where
  "error_text (Bail m) = m"
| "error_text (IoError m) = m"
| "error_text (Panicked m) = m"

fun is_ok :: "'a result \<Rightarrow> bool" where
  "is_ok (Inl _) = False"
| "is_ok (Inr _) = True"

fun and_then_r :: "'a result \<Rightarrow> ('a \<Rightarrow> 'b result) \<Rightarrow> 'b result" where
  "and_then_r (Inl e) f = Inl e"
| "and_then_r (Inr x) f = f x"

text \<open>A program over a state: every step returns a result and the next state, also on error.\<close>

type_synonym ('s, 'a) prog = "'s \<Rightarrow> 'a result \<times> 's"

definition return :: "'a \<Rightarrow> ('s, 'a) prog" where
  "return x = (\<lambda>s. (Inr x, s))"

definition throw :: "error \<Rightarrow> ('s, 'a) prog" where
  "throw e = (\<lambda>s. (Inl e, s))"

definition lift_r :: "'a result \<Rightarrow> ('s, 'a) prog" where
  "lift_r r = (\<lambda>s. (r, s))"

definition and_then :: "('s, 'a) prog \<Rightarrow> ('a \<Rightarrow> ('s, 'b) prog) \<Rightarrow> ('s, 'b) prog" where
  "and_then m f = (\<lambda>s. case m s of (Inl e, s') \<Rightarrow> (Inl e, s') | (Inr x, s') \<Rightarrow> f x s')"

definition seq :: "('s, 'a) prog \<Rightarrow> ('s, 'b) prog \<Rightarrow> ('s, 'b) prog" where
  "seq m k = and_then m (\<lambda>_. k)"

lemma return_apply [simp, prog_simps]: "return x s = (Inr x, s)"
  by (simp add: return_def)

lemma throw_apply [simp, prog_simps]: "throw e s = (Inl e, s)"
  by (simp add: throw_def)

lemma lift_r_apply [simp, prog_simps]: "lift_r r s = (r, s)"
  by (simp add: lift_r_def)

lemma and_then_ok [prog_simps]: "m s = (Inr x, s') \<Longrightarrow> and_then m f s = f x s'"
  by (simp add: and_then_def)

lemma and_then_err [prog_simps]: "m s = (Inl e, s') \<Longrightarrow> and_then m f s = (Inl e, s')"
  by (simp add: and_then_def)

lemma seq_ok [prog_simps]: "m s = (Inr x, s') \<Longrightarrow> seq m k s = k s'"
  by (simp add: seq_def and_then_def)

lemma seq_err [prog_simps]: "m s = (Inl e, s') \<Longrightarrow> seq m k s = (Inl e, s')"
  by (simp add: seq_def and_then_def)

named_theorems ok_simps \<open>inversion of programs that return a value\<close>

lemma and_then_ok_iff [ok_simps]:
  "and_then m f s = (Inr y, s'') \<longleftrightarrow> (\<exists>x s'. m s = (Inr x, s') \<and> f x s' = (Inr y, s''))"
  by (auto simp: and_then_def split: prod.splits sum.splits)

lemma seq_ok_iff [ok_simps]:
  "seq m k s = (Inr y, s'') \<longleftrightarrow> (\<exists>x s'. m s = (Inr x, s') \<and> k s' = (Inr y, s''))"
  by (simp add: seq_def and_then_ok_iff)

lemma and_then_assoc: "and_then (and_then m f) g = and_then m (\<lambda>x. and_then (f x) g)"
  by (rule ext) (simp add: and_then_def split: prod.split sum.split)

lemma and_then_r_eq_Inr: "and_then_r r f = Inr y \<longleftrightarrow> (\<exists>x. r = Inr x \<and> f x = Inr y)"
  by (cases r) auto

lemma and_then_r_eq_Inl:
  "and_then_r r f = Inl e \<longleftrightarrow> r = Inl e \<or> (\<exists>x. r = Inr x \<and> f x = Inl e)"
  by (cases r) auto

text \<open>
  Partial correctness of state-passing programs: from a state with \<open>P\<close> the program ends, with a
  value, in a state with \<open>Q\<close>, or, with an error, in a state with \<open>E\<close>. \<^verbatim>\<open>keeps\<close> is the special case
  of an invariant.
\<close>

named_theorems triple_intros \<open>rules of the program logic\<close>

definition triple :: "('s \<Rightarrow> bool) \<Rightarrow> ('s, 'a) prog \<Rightarrow> ('s \<Rightarrow> bool) \<Rightarrow> ('s \<Rightarrow> bool) \<Rightarrow> bool" where
  "triple P m Q E \<longleftrightarrow>
    (\<forall>s x s'. P s \<and> m s = (Inr x, s') \<longrightarrow> Q s') \<and> (\<forall>s e s'. P s \<and> m s = (Inl e, s') \<longrightarrow> E s')"

abbreviation keeps :: "('s \<Rightarrow> bool) \<Rightarrow> ('s, 'a) prog \<Rightarrow> bool" where
  "keeps P m \<equiv> triple P m P P"

lemma triple_return [triple_intros]: "triple P (return x) P E"
  by (simp add: triple_def)

lemma triple_throw [triple_intros]: "(\<And>s. P s \<Longrightarrow> E s) \<Longrightarrow> triple P (throw e) Q E"
  by (simp add: triple_def)

lemma triple_lift_r [triple_intros]: "(\<And>s. P s \<Longrightarrow> E s) \<Longrightarrow> triple P (lift_r r) P E"
  by (simp add: triple_def)

lemma triple_and_then:
  assumes "triple P m R E" "\<And>x. triple R (f x) Q E"
  shows "triple P (and_then m f) Q E"
  using assms unfolding triple_def and_then_def
  by (auto split: prod.splits sum.splits) blast+

lemma triple_seq: "triple P m R E \<Longrightarrow> triple R k Q E \<Longrightarrow> triple P (seq m k) Q E"
  unfolding seq_def by (rule triple_and_then)

lemma triple_conseq:
  "triple P m Q E \<Longrightarrow> (\<And>s. P' s \<Longrightarrow> P s) \<Longrightarrow> (\<And>s. Q s \<Longrightarrow> Q' s) \<Longrightarrow> (\<And>s. E s \<Longrightarrow> E' s) \<Longrightarrow>
   triple P' m Q' E'"
  unfolding triple_def by blast

lemma tripleD: "triple P m Q E \<Longrightarrow> P s \<Longrightarrow> m s = (r, s') \<Longrightarrow> (\<forall>s. Q s \<longrightarrow> E s) \<Longrightarrow> E s'"
  unfolding triple_def by (cases r) blast+

lemma keeps_and_then [triple_intros]:
  "keeps P m \<Longrightarrow> (\<And>x. keeps P (f x)) \<Longrightarrow> keeps P (and_then m f)"
  by (rule triple_and_then)

lemma keeps_seq [triple_intros]: "keeps P m \<Longrightarrow> keeps P k \<Longrightarrow> keeps P (seq m k)"
  by (rule triple_seq)

section \<open>Little-endian integers\<close>

text \<open>\<^verbatim>\<open>to_le_bytes\<close> and \<^verbatim>\<open>from_le_bytes\<close> of an unsigned integer of \<open>n\<close> bytes, over its value.\<close>

fun le_encode :: "nat \<Rightarrow> nat \<Rightarrow> bytes" where
  "le_encode 0 x = []"
| "le_encode (Suc n) x = word_of_nat x # le_encode n (x div 256)"

fun le_decode :: "bytes \<Rightarrow> nat" where
  "le_decode [] = 0"
| "le_decode (b # bs) = unat b + 256 * le_decode bs"

definition u32_to_le_bytes :: "u32 \<Rightarrow> bytes" where
  "u32_to_le_bytes w = le_encode 4 (unat w)"

definition u32_from_le_bytes :: "bytes \<Rightarrow> u32" where
  "u32_from_le_bytes bs = word_of_nat (le_decode bs)"

definition u64_to_le_bytes :: "u64 \<Rightarrow> bytes" where
  "u64_to_le_bytes w = le_encode 8 (unat w)"

definition u64_from_le_bytes :: "bytes \<Rightarrow> u64" where
  "u64_from_le_bytes bs = word_of_nat (le_decode bs)"

lemma length_le_encode [simp, codec_simps]: "length (le_encode n x) = n"
  by (induction n arbitrary: x) auto

lemma unat_byte_of_nat: "unat (word_of_nat x :: byte) = x mod 256"
  by (simp add: unat_of_nat)

lemma le_decode_encode: "le_decode (le_encode n x) = x mod 256 ^ n"
proof (induction n arbitrary: x)
  case (Suc n)
  show ?case
    by (simp add: Suc unat_byte_of_nat mod_mult2_eq[of x 256 "256 ^ n"])
qed simp

lemma le_decode_bound: "le_decode bs < 256 ^ length bs"
proof (induction bs)
  case (Cons b bs)
  have "unat b < 256" using unsigned_less[of b] by simp
  with Cons show ?case by simp
qed simp

lemma le_encode_decode: "le_encode (length bs) (le_decode bs) = bs"
proof (induction bs)
  case (Cons b bs)
  have b: "unat b < 256" using unsigned_less[of b] by simp
  have "unat (word_of_nat (unat b + 256 * le_decode bs) :: byte) = unat b"
    unfolding unat_byte_of_nat using b by simp
  then have w: "(word_of_nat (unat b + 256 * le_decode bs) :: byte) = b"
    by (rule unsigned_word_eqI)
  show ?case using b by (simp add: w Cons del: of_nat_add of_nat_mult)
qed simp


lemma length_u32_to_le_bytes [simp, codec_simps]: "length (u32_to_le_bytes w) = 4"
  by (simp add: u32_to_le_bytes_def)

lemma length_u64_to_le_bytes [simp, codec_simps]: "length (u64_to_le_bytes w) = 8"
  by (simp add: u64_to_le_bytes_def)

lemma u32_from_to [simp, codec_simps]: "u32_from_le_bytes (u32_to_le_bytes w) = w"
proof -
  have "unat w < 256 ^ 4" using unsigned_less[of w] by simp
  then show ?thesis
    by (simp add: u32_from_le_bytes_def u32_to_le_bytes_def le_decode_encode)
qed

lemma u64_from_to [simp, codec_simps]: "u64_from_le_bytes (u64_to_le_bytes w) = w"
proof -
  have "unat w < 256 ^ 8" using unsigned_less[of w] by simp
  then show ?thesis
    by (simp add: u64_from_le_bytes_def u64_to_le_bytes_def le_decode_encode)
qed

lemma u32_to_from: "length bs = 4 \<Longrightarrow> u32_to_le_bytes (u32_from_le_bytes bs) = bs"
proof -
  assume l: "length bs = 4"
  then have "le_decode bs < 2 ^ 32" using le_decode_bound[of bs] by simp
  then show ?thesis
    using le_encode_decode[of bs] l
    by (simp add: u32_from_le_bytes_def u32_to_le_bytes_def unat_of_nat)
qed

section \<open>Slices\<close>

text \<open>\<^verbatim>\<open>slice::chunks\<close> and \<^verbatim>\<open>chunks_exact\<close>; a chunk size of zero panics in Rust and is excluded by the callers.\<close>

function chunks :: "nat \<Rightarrow> 'a list \<Rightarrow> 'a list list" where
  "chunks n xs = (if n = 0 \<or> xs = [] then [] else take n xs # chunks n (drop n xs))"
  by pat_completeness auto
termination
  by (relation "measure (\<lambda>(n, xs). length xs)") auto

declare chunks.simps [simp del]

definition chunks_exact :: "nat \<Rightarrow> 'a list \<Rightarrow> 'a list list" where
  "chunks_exact n xs = takeWhile (\<lambda>c. length c = n) (chunks n xs)"

lemma chunks_Nil [simp]: "chunks n [] = []"
  by (simp add: chunks.simps)

lemma chunks_step: "0 < n \<Longrightarrow> xs \<noteq> [] \<Longrightarrow> chunks n xs = take n xs # chunks n (drop n xs)"
  by (simp add: chunks.simps)

lemma concat_chunks [simp]: "0 < n \<Longrightarrow> concat (chunks n xs) = xs"
  by (induction n xs rule: chunks.induct) (subst chunks.simps, auto)

lemma chunks_nonempty: "c \<in> set (chunks n xs) \<Longrightarrow> c \<noteq> []"
  by (induction n xs rule: chunks.induct) (subst (asm) (2) chunks.simps, auto split: if_splits)

lemma chunks_length_le: "c \<in> set (chunks n xs) \<Longrightarrow> length c \<le> n"
  by (induction n xs rule: chunks.induct) (subst (asm) (2) chunks.simps, auto split: if_splits)

lemma chunks_append_block:
  assumes "0 < n" "length b = n"
  shows "chunks n (b @ xs) = b # chunks n xs"
  using assms by (subst chunks.simps) auto

lemma chunks_blocks: "0 < n \<Longrightarrow> (\<forall>b \<in> set bss. length b = n) \<Longrightarrow> chunks n (concat bss) = bss"
  by (induction bss) (simp_all add: chunks_append_block)

lemma take_drop_blocks:
  "(\<forall>b \<in> set bss. length b = n) \<Longrightarrow> take (k * n) (concat bss) = concat (take k bss)"
  "(\<forall>b \<in> set bss. length b = n) \<Longrightarrow> drop (k * n) (concat bss) = concat (drop k bss)"
proof (induction bss arbitrary: k)
  case (Cons b bss)
  { case 1 show ?case using Cons.IH(1) 1 by (cases k) auto }
  { case 2 show ?case using Cons.IH(2) 2 by (cases k) auto }
qed simp_all

text \<open>Cutting at a multiple of the block length is cutting the list of blocks.\<close>

lemma chunks_concat_blocks:
  assumes "0 < n" "0 < k" "\<forall>b \<in> set bss. length b = n"
  shows "chunks (k * n) (concat bss) = map concat (chunks k bss)"
  using assms(3)
proof (induction "length bss" arbitrary: bss rule: less_induct)
  case less
  show ?case
  proof (cases "bss = []")
    case False
    then obtain b bs where b: "bss = b # bs" by (cases bss) auto
    have "concat bss \<noteq> []" using less.prems b assms(1) by auto
    then have "chunks (k * n) (concat bss) = concat (take k bss) # chunks (k * n) (concat (drop k bss))"
      using assms(1,2) less.prems by (simp add: chunks_step take_drop_blocks)
    also have "chunks (k * n) (concat (drop k bss)) = map concat (chunks k (drop k bss))"
      using less.hyps[of "drop k bss"] less.prems assms(2) False by (simp add: in_set_dropD)
    finally show ?thesis using False assms(2) by (simp add: chunks_step)
  qed simp
qed

lemma chunks_exact_append_block:
  assumes "0 < n" "length b = n"
  shows "chunks_exact n (b @ xs) = b # chunks_exact n xs"
  using assms by (simp add: chunks_exact_def chunks_append_block)

lemma chunks_exact_short: "length xs < n \<Longrightarrow> chunks_exact n xs = []"
  by (cases "xs = []") (simp_all add: chunks_exact_def chunks_step)

lemma chunks_exact_blocks:
  assumes "0 < n" "\<And>b. b \<in> set bss \<Longrightarrow> length b = n" "length r < n"
  shows "chunks_exact n (concat bss @ r) = bss"
  using assms(2)
  by (induction bss) (simp_all add: assms(1,3) chunks_exact_short chunks_exact_append_block)

definition div_ceil :: "nat \<Rightarrow> nat \<Rightarrow> nat" where
  "div_ceil a b = (a + b - 1) div b"

lemma div_ceil_mult_ge: "0 < b \<Longrightarrow> a \<le> div_ceil a b * b"
proof -
  assume b: "0 < b"
  have "(a + b - 1) mod b < b" using b by simp
  with div_mult_mod_eq[of "a + b - 1" b] b show ?thesis
    unfolding div_ceil_def by linarith
qed

lemma div_ceil_le: "0 < b \<Longrightarrow> a \<le> k * b \<Longrightarrow> div_ceil a b \<le> k"
proof -
  assume b: "0 < b" and a: "a \<le> k * b"
  have "(a + b - 1) div b < Suc k"
    using a b by (subst div_less_iff_less_mult) auto
  then show ?thesis by (simp add: div_ceil_def)
qed

section \<open>Strings\<close>

text \<open>\<^verbatim>\<open>str::replace\<close> of a one-character pattern, \<^verbatim>\<open>str::split\<close> at a character, \<^verbatim>\<open>slice::join\<close>.\<close>

definition replace_char :: "char \<Rightarrow> string \<Rightarrow> string \<Rightarrow> string" where
  "replace_char c r s = concat (map (\<lambda>x. if x = c then r else [x]) s)"

fun split_char :: "char \<Rightarrow> string \<Rightarrow> string list" where
  "split_char c [] = [[]]"
| "split_char c (x # xs) =
    (if x = c then [] # split_char c xs
     else (case split_char c xs of [] \<Rightarrow> [[x]] | p # ps \<Rightarrow> (x # p) # ps))"

fun join :: "string \<Rightarrow> string list \<Rightarrow> string" where
  "join sep [] = []"
| "join sep [s] = s"
| "join sep (s # t # ss) = s @ sep @ join sep (t # ss)"

fun nat_digits :: "nat \<Rightarrow> string" where
  "nat_digits n = (if n < 10 then [char_of (48 + n)] else nat_digits (n div 10) @ [char_of (48 + n mod 10)])"

declare nat_digits.simps [simp del]

lemma replace_char_Nil [simp]: "replace_char c r [] = []"
  by (simp add: replace_char_def)

lemma replace_char_Cons [simp]:
  "replace_char c r (x # xs) = (if x = c then r else [x]) @ replace_char c r xs"
  by (simp add: replace_char_def)

lemma replace_char_append [simp]:
  "replace_char c r (xs @ ys) = replace_char c r xs @ replace_char c r ys"
  by (simp add: replace_char_def)

lemma split_char_nonempty [simp]: "split_char c s \<noteq> []"
  by (induction s) (auto split: list.splits)

lemma split_char_no_sep: "c \<notin> set s \<Longrightarrow> split_char c s = [s]"
  by (induction s) auto

lemma split_char_append_sep:
  "c \<notin> set s \<Longrightarrow> split_char c (s @ c # t) = s # split_char c t"
  by (induction s) auto

lemma join_split_char [simp]: "join [c] (split_char c s) = s"
proof (induction s)
  case (Cons x s)
  obtain p ps where "split_char c s = p # ps"
    by (cases "split_char c s") auto
  with Cons show ?case by (cases ps) auto
qed simp

lemma split_char_no_sep_in_parts: "p \<in> set (split_char c s) \<Longrightarrow> c \<notin> set p"
  by (induction s arbitrary: p) (auto split: list.splits if_splits)

text \<open>\<^verbatim>\<open>str::split\<close> at a pattern of two characters.\<close>

fun split2 :: "char \<Rightarrow> char \<Rightarrow> string \<Rightarrow> string list" where
  "split2 a b [] = [[]]"
| "split2 a b [x] = [[x]]"
| "split2 a b (x # y # s) =
    (if x = a \<and> y = b then [] # split2 a b s
     else (case split2 a b (y # s) of [] \<Rightarrow> [[x]] | p # ps \<Rightarrow> (x # p) # ps))"

lemma split2_nonempty [simp]: "split2 a b s \<noteq> []"
  by (induction a b s rule: split2.induct) (auto split: list.splits)

lemma split2_append:
  "a \<notin> set p \<Longrightarrow> split2 a b (p @ a # b # s) = p # split2 a b s"
proof (induction p)
  case (Cons x p)
  then obtain y r where "p @ a # b # s = y # r" by (cases p) auto
  with Cons show ?case by auto
qed simp

section \<open>Decimal numbers\<close>

definition int_digits :: "int \<Rightarrow> string" where
  "int_digits i = (if i < 0 then CHR ''-'' # nat_digits (nat (- i)) else nat_digits (nat i))"

text \<open>\<^verbatim>\<open>i32::from_str_radix(s, 10)\<close>: an optional sign, at least one digit, and a value in range.\<close>

fun digits_value :: "nat \<Rightarrow> string \<Rightarrow> nat option" where
  "digits_value acc [] = Some acc"
| "digits_value acc (c # cs) =
    (if 48 \<le> (of_char c :: nat) \<and> (of_char c :: nat) < 58 then digits_value (acc * 10 + (of_char c - 48)) cs else None)"

definition i32_from_str :: "string \<Rightarrow> int option" where
  "i32_from_str s =
    (let neg = (s \<noteq> [] \<and> hd s = CHR ''-''); pos = (s \<noteq> [] \<and> hd s = CHR ''+''); ds = (if neg \<or> pos then tl s else s)
     in if ds = [] then None
        else (case digits_value 0 ds of
                Some v \<Rightarrow> let i = (if neg then - int v else int v)
                          in if - (2 ^ 31) \<le> i \<and> i < 2 ^ 31 then Some i else None
              | None \<Rightarrow> None))"

lemma digits_value_snoc:
  "d < 10 \<Longrightarrow> digits_value acc (s @ [char_of (48 + d)]) = map_option (\<lambda>v. v * 10 + d) (digits_value acc s)"
  by (induction s arbitrary: acc) auto

lemma digits_value_nat_digits [simp]: "digits_value 0 (nat_digits n) = Some n"
proof (induction n rule: nat_digits.induct)
  case (1 n)
  show ?case
  proof (cases "n < 10")
    case True
    then show ?thesis using digits_value_snoc[of n 0 "[]"] by (simp add: nat_digits.simps[of n])
  next
    case False
    then show ?thesis using 1 digits_value_snoc[of "n mod 10" 0 "nat_digits (n div 10)"] by (simp add: nat_digits.simps[of n])
  qed
qed

lemma nat_digits_chars: "c \<in> set (nat_digits n) \<Longrightarrow> 48 \<le> (of_char c :: nat) \<and> (of_char c :: nat) < 58"
proof (induction n rule: nat_digits.induct)
  case (1 n)
  show ?case
  proof (cases "n < 10")
    case True
    then show ?thesis using 1 by (simp add: nat_digits.simps[of n])
  next
    case False
    have "n mod 10 < 10" by simp
    then show ?thesis using 1 False by (auto simp: nat_digits.simps[of n])
  qed
qed

lemma nat_digits_nonempty [simp]: "nat_digits n \<noteq> []"
  by (subst nat_digits.simps) simp

lemma nat_digits_head: "\<exists>c cs. nat_digits n = c # cs \<and> 48 \<le> (of_char c :: nat) \<and> (of_char c :: nat) < 58"
  using nat_digits_chars[of "hd (nat_digits n)" n] by (cases "nat_digits n") (simp, simp add: nat_digits.simps[of n])

lemma colon_not_in_int_digits [simp]: "CHR '':'' \<notin> set (int_digits i)"
  using nat_digits_chars[of "CHR '':''"] by (auto simp: int_digits_def)

lemma i32_from_str_digits:
  assumes "- (2 ^ 31) \<le> i" "i < 2 ^ 31"
  shows "i32_from_str (int_digits i) = Some i"
proof (cases "i < 0")
  case True
  obtain c cs where "nat_digits (nat (- i)) = c # cs" using nat_digits_head by blast
  then show ?thesis using True assms digits_value_nat_digits[of "nat (- i)"]
    by (simp add: int_digits_def i32_from_str_def)
next
  case False
  obtain c cs where n: "nat_digits (nat i) = c # cs" "48 \<le> (of_char c :: nat)" using nat_digits_head by blast
  have "c \<noteq> CHR ''-''" "c \<noteq> CHR ''+''" using n(2) by auto
  then show ?thesis using False assms digits_value_nat_digits[of "nat i"] n
    by (simp add: int_digits_def i32_from_str_def)
qed

end
