(* ===== verification/Interfaces.thy ===== *)
theory Interfaces
  imports Prelude
begin

text \<open>
  The contracts that several components share, as locales. \<^verbatim>\<open>codec\<close> is an encoder with a
  left inverse, \<^verbatim>\<open>block_codec\<close> one whose codes have a fixed length, so that a byte stream of
  codes can be cut into chunks and decoded; \<^verbatim>\<open>batcher\<close> is a routine that cuts a list of
  inputs into groups that each fit a limit, the contract every embedding runtime relies on
  when it maps a request over groups and concatenates the answers; \<^verbatim>\<open>range_plan\<close> is a division
  of an interval of row numbers into consecutive half-open ranges, one per task.
\<close>

locale codec =
  fixes enc :: "'a \<Rightarrow> 'b list" and dec :: "'b list \<Rightarrow> 'a"
  assumes dec_enc: "dec (enc x) = x"
begin

lemma enc_inject: "enc x = enc y \<longleftrightarrow> x = y"
  using dec_enc by metis

lemma map_dec_enc: "map dec (map enc xs) = xs"
  by (induction xs) (simp_all add: dec_enc)

end

locale block_codec = codec enc dec
  for enc :: "'a \<Rightarrow> 'b list" and dec :: "'b list \<Rightarrow> 'a" +
  fixes width :: nat
  assumes width_pos: "0 < width"
    and length_enc: "length (enc x) = width"
begin

lemma chunks_exact_codes:
  "length r < width \<Longrightarrow> chunks_exact width (concat (map enc xs) @ r) = map enc xs"
  by (rule chunks_exact_blocks) (auto simp: width_pos length_enc)

lemma decode_stream:
  "length r < width \<Longrightarrow> map dec (chunks_exact width (concat (map enc xs) @ r)) = xs"
  by (simp only: chunks_exact_codes map_dec_enc)

lemma length_stream: "length (concat (map enc xs)) = length xs * width"
  by (induction xs) (simp_all add: length_enc)

lemma nth_code:
  assumes "i < length xs"
  shows "take width (drop (width * i) (concat (map enc xs))) = enc (xs ! i)"
  using assms
proof (induction xs arbitrary: i)
  case (Cons x xs)
  show ?case
  proof (cases i)
    case 0
    then show ?thesis by (simp add: length_enc)
  next
    case (Suc j)
    with Cons show ?thesis by (simp add: length_enc)
  qed
qed simp

end

interpretation u32le: block_codec u32_to_le_bytes u32_from_le_bytes 4
  by unfold_locales (simp_all add: codec_simps)

interpretation u64le: block_codec u64_to_le_bytes u64_from_le_bytes 8
  by unfold_locales (simp_all add: codec_simps)

locale batcher =
  fixes group :: "'a list \<Rightarrow> 'a list list" and admits :: "'a list \<Rightarrow> bool" and fits :: "'a list \<Rightarrow> bool"
  assumes group_concat: "admits xs \<Longrightarrow> concat (group xs) = xs"
    and group_fits: "admits xs \<Longrightarrow> g \<in> set (group xs) \<Longrightarrow> fits g"
begin

text \<open>A request that answers every group pointwise answers the whole input pointwise.\<close>

lemma answers_in_order:
  assumes "admits xs" and "\<And>g. fits g \<Longrightarrow> req g = map f g"
  shows "concat (map req (group xs)) = map f xs"
proof -
  have "map req (group xs) = map (map f) (group xs)"
    using assms group_fits by (intro map_cong) auto
  then show ?thesis
    using group_concat[OF assms(1)] by (metis map_concat)
qed

lemma group_total: "admits xs \<Longrightarrow> sum_list (map length (group xs)) = length xs"
  using group_concat[of xs] by (metis length_concat)

end


locale range_plan =
  fixes range_of :: "nat \<Rightarrow> nat \<times> nat" and last_task lo hi :: nat
  assumes starts: "fst (range_of 0) = lo"
    and consecutive: "i < last_task \<Longrightarrow> snd (range_of i) = fst (range_of (Suc i))"
    and increasing: "i < last_task \<Longrightarrow> fst (range_of i) \<le> fst (range_of (Suc i))"
    and reaches: "hi \<le> snd (range_of last_task)"
begin

lemma starts_mono: "i \<le> j \<Longrightarrow> j \<le> last_task \<Longrightarrow> fst (range_of i) \<le> fst (range_of j)"
proof (induction j)
  case (Suc j)
  then show ?case
    using increasing[of j] by (cases "i = Suc j") auto
qed simp

lemma some_range:
  assumes "lo \<le> x" "x < hi"
  shows "\<exists>i \<le> last_task. fst (range_of i) \<le> x \<and> x < snd (range_of i)"
proof -
  define i where "i = (GREATEST i. i \<le> last_task \<and> fst (range_of i) \<le> x)"
  have ex: "0 \<le> last_task \<and> fst (range_of 0) \<le> x" using assms(1) starts by simp
  have i: "i \<le> last_task \<and> fst (range_of i) \<le> x"
    unfolding i_def
    by (rule GreatestI_nat[where P = "\<lambda>i. i \<le> last_task \<and> fst (range_of i) \<le> x", OF ex, of last_task]) simp
  have "x < snd (range_of i)"
  proof (cases "i = last_task")
    case True
    then show ?thesis using reaches assms(2) by simp
  next
    case False
    have "\<not> (Suc i \<le> last_task \<and> fst (range_of (Suc i)) \<le> x)"
      using Greatest_le_nat[of "\<lambda>i. i \<le> last_task \<and> fst (range_of i) \<le> x" "Suc i" last_task]
      unfolding i_def by auto
    with False i consecutive[of i] show ?thesis by auto
  qed
  with i show ?thesis by blast
qed

lemma ranges_disjoint:
  assumes "i \<le> last_task" "j \<le> last_task"
    and "fst (range_of i) \<le> x" "x < snd (range_of i)" "fst (range_of j) \<le> x" "x < snd (range_of j)"
  shows "i = j"
proof (rule ccontr)
  have no: False if "a < b" "b \<le> last_task" "x < snd (range_of a)" "fst (range_of b) \<le> x" for a b
    using that consecutive[of a] starts_mono[of "Suc a" b] by simp
  assume "i \<noteq> j"
  then show False using no[of i j] no[of j i] assms by (cases "i < j") auto
qed

lemma covered_once:
  "lo \<le> x \<Longrightarrow> x < hi \<Longrightarrow> \<exists>!i. i \<le> last_task \<and> fst (range_of i) \<le> x \<and> x < snd (range_of i)"
  using some_range ranges_disjoint by metis

end

section \<open>Transition systems that run down\<close>

text \<open>
  A step relation with a measure that every step lowers: no run is longer than the measure of its
  first state, and from every state a run leads to a state without a successor.
\<close>

locale decreasing =
  fixes R :: "'s \<Rightarrow> 's \<Rightarrow> bool" and effort :: "'s \<Rightarrow> nat"
  assumes decreases: "R s t \<Longrightarrow> effort t < effort s"
begin

lemma run_bounded: "(R ^^ k) s t \<Longrightarrow> k + effort t \<le> effort s"
proof (induction k arbitrary: t)
  case (Suc k)
  then obtain u where "(R ^^ k) s u" "R u t" by auto
  with Suc.IH[of u] decreases[of u t] show ?case by simp
qed simp

lemma run_ends: "\<exists>t. R\<^sup>*\<^sup>* s t \<and> \<not> (\<exists>u. R t u)"
proof (induction "effort s" arbitrary: s rule: less_induct)
  case less
  show ?case
  proof (cases "\<exists>u. R s u")
    case True
    then obtain u where "R s u" by blast
    with less[OF decreases] obtain t where "R\<^sup>*\<^sup>* u t" "\<not> (\<exists>u. R t u)" by blast
    with \<open>R s u\<close> show ?thesis by (blast intro: converse_rtranclp_into_rtranclp)
  qed blast
qed

end

end
