(* ===== verification/Utils.thy ===== *)
theory Utils
  imports Interfaces
begin

text \<open>
  \<^verbatim>\<open>lantern_cli/src/utils/mod.rs\<close>: SQL quoting and connection strings. The reading side of
  the quoting contract, \<^verbatim>\<open>scan_quoted\<close>, is what a SQL lexer does with a quoted token when a
  doubled quote stands for one quote character.
\<close>

section \<open>Definitions\<close>

abbreviation dquote :: char where "dquote \<equiv> CHR 0x22"
abbreviation squote :: char where "squote \<equiv> CHR 0x27"

definition quote_ident :: "string \<Rightarrow> string" where
  "quote_ident str = [dquote] @ replace_char dquote [dquote, dquote] str @ [dquote]"

definition quote_literal :: "string \<Rightarrow> string" where
  "quote_literal str =
    (let replaced = replace_char squote [squote, squote] str
     in [squote] @ replaced @ [squote])"

definition get_full_table_name :: "string \<Rightarrow> string \<Rightarrow> string" where
  "get_full_table_name schema table =
    (let schema = quote_ident schema; table = quote_ident table
     in schema @ ''.'' @ table)"

definition append_params_to_uri :: "string \<Rightarrow> string \<Rightarrow> string" where
  "append_params_to_uri db_uri params =
    (let parts = split_char (CHR ''/'') db_uri;
         has_params = CHR ''?'' \<in> set (last parts)
     in db_uri @ (if has_params then ''&'' @ params else ''?'' @ params))"

definition get_common_embedding_ignore_filters :: "string \<Rightarrow> string" where
  "get_common_embedding_ignore_filters src_column =
    src_column @ '' IS NOT NULL AND '' @ src_column @ '' != '' @ [squote, squote] @
    '' AND '' @ src_column @ '' != '' @ [squote] @ ''Error: Summary failed (llm)'' @ [squote]"

text \<open>\<^verbatim>\<open>types.rs\<close>: the message of a cancelled job.\<close>

definition JOB_CANCELLED_MESSAGE :: string where
  "JOB_CANCELLED_MESSAGE = ''Job cancelled''"

text \<open>Reading a quoted token: the characters up to the closing quote, and the rest of the input.\<close>

fun scan_body :: "char \<Rightarrow> string \<Rightarrow> (string \<times> string) option" where
  "scan_body q [] = None"
| "scan_body q (c # cs) =
    (if c = q
     then (case cs of
             d # ds \<Rightarrow>
               if d = q
               then (case scan_body q ds of None \<Rightarrow> None | Some (s, r) \<Rightarrow> Some (q # s, r))
               else Some ([], cs)
           | [] \<Rightarrow> Some ([], []))
     else (case scan_body q cs of None \<Rightarrow> None | Some (s, r) \<Rightarrow> Some (c # s, r)))"

fun scan_quoted :: "char \<Rightarrow> string \<Rightarrow> (string \<times> string) option" where
  "scan_quoted q [] = None"
| "scan_quoted q (c # cs) = (if c = q then scan_body q cs else None)"

definition unquote :: "char \<Rightarrow> string \<Rightarrow> string" where
  "unquote q t = (case scan_quoted q t of Some (s, _) \<Rightarrow> s | None \<Rightarrow> [])"

section \<open>Quoting\<close>

lemma scan_body_replace:
  assumes "r = [] \<or> hd r \<noteq> q"
  shows "scan_body q (replace_char q [q, q] s @ q # r) = Some (s, r)"
proof (induction s)
  case Nil
  show ?case using assms by (cases r) auto
next
  case (Cons x s)
  then show ?case by simp
qed

lemma scan_quote_ident:
  "r = [] \<or> hd r \<noteq> dquote \<Longrightarrow> scan_quoted dquote (quote_ident s @ r) = Some (s, r)"
  by (simp add: quote_ident_def scan_body_replace)

lemma scan_quote_literal:
  "r = [] \<or> hd r \<noteq> squote \<Longrightarrow> scan_quoted squote (quote_literal s @ r) = Some (s, r)"
  by (simp add: quote_literal_def scan_body_replace)

interpretation ident: codec quote_ident "unquote dquote"
  by unfold_locales (use scan_quote_ident[of "[]"] in \<open>simp add: unquote_def\<close>)

interpretation literal: codec quote_literal "unquote squote"
  by unfold_locales (use scan_quote_literal[of "[]"] in \<open>simp add: unquote_def\<close>)

lemma scan_full_table_name:
  "scan_quoted dquote (get_full_table_name s t @ r) = Some (s, CHR ''.'' # quote_ident t @ r)"
  by (simp add: get_full_table_name_def scan_quote_ident)

end
