(* ===== verification/Metric.thy ===== *)
theory Metric
  imports Prelude
begin

text \<open>
  \<^verbatim>\<open>lantern_cli/src/external_index/cli.rs\<close>: the distance metrics and their textual, numeric and
  SQL names. \<^verbatim>\<open>MetricKind\<close> is the enumeration of the usearch bindings that \<^verbatim>\<open>value\<close> maps into.
\<close>

datatype UMetricKind = L2sq | Cos | Hamming

datatype MetricKind = MK_L2sq | MK_Cos | MK_Hamming

definition from_ops :: "string \<Rightarrow> UMetricKind result" where
  "from_ops ops =
    (if ops = ''dist_l2sq_ops'' then Inr L2sq
     else if ops = ''dist_cos_ops'' then Inr Cos
     else if ops = ''dist_hamming_ops'' then Inr Hamming
     else Inl (Bail (''Invalid ops '' @ ops)))"

fun to_ops :: "UMetricKind \<Rightarrow> string" where
  "to_ops L2sq = ''dist_l2sq_ops''"
| "to_ops Cos = ''dist_cos_ops''"
| "to_ops Hamming = ''dist_hamming_ops''"

definition metric_from :: "string \<Rightarrow> UMetricKind result" where
  "metric_from metric_kind =
    (if metric_kind = ''l2sq'' then Inr L2sq
     else if metric_kind = ''cos'' then Inr Cos
     else if metric_kind = ''cosine'' then Inr Cos
     else if metric_kind = ''hamming'' then Inr Hamming
     else Inl (Bail (''Invalid metric '' @ metric_kind)))"

definition from_u32 :: "u32 \<Rightarrow> UMetricKind result" where
  "from_u32 metric_kind =
    (if metric_kind = 3 then Inr L2sq
     else if metric_kind = 1 then Inr Cos
     else if metric_kind = 8 then Inr Hamming
     else Inl (Bail (''Invalid metric '' @ nat_digits (unat metric_kind))))"

fun metric_to_string :: "UMetricKind \<Rightarrow> string" where
  "metric_to_string L2sq = ''l2sq''"
| "metric_to_string Cos = ''cos''"
| "metric_to_string Hamming = ''hamming''"

fun metric_value :: "UMetricKind \<Rightarrow> MetricKind" where
  "metric_value L2sq = MK_L2sq"
| "metric_value Cos = MK_Cos"
| "metric_value Hamming = MK_Hamming"

fun sql_function :: "UMetricKind \<Rightarrow> string" where
  "sql_function L2sq = ''l2sq_dist''"
| "sql_function Cos = ''cos_dist''"
| "sql_function Hamming = ''hamming_dist''"

fun sql_operator :: "UMetricKind \<Rightarrow> string" where
  "sql_operator L2sq = ''<->''"
| "sql_operator Cos = ''<=>''"
| "sql_operator Hamming = ''<+>''"

section \<open>Names and metrics\<close>

lemma from_ops_to_ops [simp]: "from_ops (to_ops m) = Inr m"
  by (cases m) (simp_all add: from_ops_def)

lemma from_ops_Inr_iff: "from_ops s = Inr m \<longleftrightarrow> s = to_ops m"
  by (cases m) (auto simp: from_ops_def)

lemma metric_from_to_string [simp]: "metric_from (metric_to_string m) = Inr m"
  by (cases m) (simp_all add: metric_from_def)

lemma from_u32_ok_iff: "is_ok (from_u32 k) \<longleftrightarrow> k \<in> {3, 1, 8}"
  by (simp add: from_u32_def)

end
