(* ===== verification/Index_Server.thy ===== *)
theory Index_Server
  imports Interfaces Metric
begin

text \<open>
  \<^verbatim>\<open>lantern_cli/src/external_index/server.rs\<close>: the TCP server that receives the rows of a table,
  builds a vector index and streams it back. The socket is a list of arrivals (segments of
  bytes as the transport delivers them, or read errors) and a list of send windows (how much
  each write accepts); reads and writes may be short, as \<^verbatim>\<open>Read::read\<close> and \<^verbatim>\<open>Write::write\<close> are.
  The usearch library is the record \<^verbatim>\<open>usearch\<close> of its operations, an argument of every
  definition that calls it. An \<^verbatim>\<open>f32\<close> received from the wire is kept as its bit pattern.
\<close>

section \<open>Constants and types\<close>

definition CHAR_BITS :: nat where "CHAR_BITS = 8"
definition LABEL_SIZE :: nat where "LABEL_SIZE = 8"
definition INTEGER_SIZE :: nat where "INTEGER_SIZE = 4"
definition PROTOCOL_HEADER_SIZE :: nat where "PROTOCOL_HEADER_SIZE = 4"
definition PROTOCOL_VERSION :: u32 where "PROTOCOL_VERSION = 1"
definition SERVER_TYPE :: u32 where "SERVER_TYPE = 0x1"
definition INIT_MSG :: u32 where "INIT_MSG = 0x13333337"
definition END_MSG :: u32 where "END_MSG = 0x31333337"
definition ERR_MSG :: u32 where "ERR_MSG = 0x37333337"
definition INDEX_HEADER_LENGTH :: nat where "INDEX_HEADER_LENGTH = INTEGER_SIZE * 12"

type_synonym row = "u64 \<times> bytes"

datatype ServerStatus = Idle | InProgress | Failed | Succeded

record ServerContext =
  status :: ServerStatus
  status_updated_at :: nat

datatype ScalarKind = F32 | F64 | F16 | I8 | B1

record IndexOptions =
  dimensions :: nat
  metric :: MetricKind
  quantization :: ScalarKind
  multi :: bool
  connectivity :: nat
  expansion_add :: nat
  expansion_search :: nat
  num_threads :: nat
  pq_construction :: bool
  pq_output :: bool
  num_centroids :: nat
  num_subvectors :: nat
  codebook :: "u32 list option"

datatype ProtocolMessage = Init bytes | Data bytes | Exit

datatype arrival = Segment bytes | ReadError string
datatype send_window = Accept nat | WriteError string

record connection =
  inbound :: "arrival list"
  windows :: "send_window list"
  outbound :: bytes

record 'ix usearch =
  us_new :: "IndexOptions \<Rightarrow> 'ix result"
  us_reserve :: "nat \<Rightarrow> 'ix \<Rightarrow> 'ix result"
  us_capacity :: "'ix \<Rightarrow> nat"
  us_dimensions :: "'ix \<Rightarrow> nat"
  us_add_raw :: "u64 \<Rightarrow> bytes \<Rightarrow> nat \<Rightarrow> 'ix \<Rightarrow> 'ix result"
  us_size :: "'ix \<Rightarrow> nat"
  us_save :: "'ix \<Rightarrow> bytes result"

section \<open>Server status\<close>

definition set_status :: "ServerStatus \<Rightarrow> nat \<Rightarrow> ServerContext \<Rightarrow> ServerContext" where
  "set_status st now ctx = ctx\<lparr>status := st, status_updated_at := now\<rparr>"

definition ServerContext_new :: "nat \<Rightarrow> ServerContext" where
  "ServerContext_new now = set_status Idle now \<lparr>status = Idle, status_updated_at = 0\<rparr>"

section \<open>The connection\<close>

text \<open>
  \<^verbatim>\<open>Read::read\<close> into a buffer of \<open>n\<close> bytes: one segment or the part of it that fits; nothing more to
  arrive is end of file, a read of zero bytes. \<^verbatim>\<open>read_exact\<close> repeats it and fails at end of file.
\<close>

definition read_data :: "nat \<Rightarrow> (connection, bytes) prog" where
  "read_data n c =
    (case inbound c of
       [] \<Rightarrow> (Inr [], c)
     | ReadError e # rest \<Rightarrow> (Inl (IoError e), c\<lparr>inbound := rest\<rparr>)
     | Segment bs # rest \<Rightarrow>
         (Inr (take n bs),
          c\<lparr>inbound := (if length bs \<le> n then rest else Segment (drop n bs) # rest)\<rparr>))"

fun read_exact_from :: "nat \<Rightarrow> arrival list \<Rightarrow> bytes result \<times> arrival list" where
  "read_exact_from n [] =
    (if n = 0 then (Inr [], []) else (Inl (IoError ''failed to fill whole buffer''), []))"
| "read_exact_from n (ReadError e # rest) =
    (if n = 0 then (Inr [], ReadError e # rest) else (Inl (IoError e), rest))"
| "read_exact_from n (Segment bs # rest) =
    (if n = 0 then (Inr [], Segment bs # rest)
     else if bs = [] then (Inl (IoError ''failed to fill whole buffer''), rest)
     else if n < length bs then (Inr (take n bs), Segment (drop n bs) # rest)
     else (case read_exact_from (n - length bs) rest of
             (Inl e, rest') \<Rightarrow> (Inl e, rest')
           | (Inr rem, rest') \<Rightarrow> (Inr (bs @ rem), rest')))"

definition read_data_exact :: "nat \<Rightarrow> (connection, bytes) prog" where
  "read_data_exact n c =
    (case read_exact_from n (inbound c) of (r, rest) \<Rightarrow> (r, c\<lparr>inbound := rest\<rparr>))"

definition write_data :: "bytes \<Rightarrow> (connection, nat) prog" where
  "write_data bs c =
    (case windows c of
       [] \<Rightarrow> (Inr (length bs), c\<lparr>outbound := outbound c @ bs\<rparr>)
     | WriteError e # ws \<Rightarrow> (Inl (IoError e), c\<lparr>windows := ws\<rparr>)
     | Accept n # ws \<Rightarrow>
         (Inr (min n (length bs)),
          c\<lparr>windows := ws, outbound := outbound c @ take n bs\<rparr>))"

fun write_all_to :: "bytes \<Rightarrow> send_window list \<Rightarrow> unit result \<times> bytes \<times> send_window list" where
  "write_all_to bs [] = (Inr (), bs, [])"
| "write_all_to bs (WriteError e # ws) =
    (if bs = [] then (Inr (), [], WriteError e # ws) else (Inl (IoError e), [], ws))"
| "write_all_to bs (Accept n # ws) =
    (if bs = [] then (Inr (), [], Accept n # ws)
     else if n = 0 then (Inl (IoError ''failed to write whole buffer''), [], ws)
     else (case write_all_to (drop n bs) ws of (r, out, ws') \<Rightarrow> (r, take n bs @ out, ws')))"

definition write_data_all :: "bytes \<Rightarrow> (connection, unit) prog" where
  "write_data_all bs c =
    (case write_all_to bs (windows c) of
       (r, out, ws) \<Rightarrow> (r, c\<lparr>windows := ws, outbound := outbound c @ out\<rparr>))"

section \<open>Frames\<close>

definition read_frame :: "bytes \<Rightarrow> nat \<Rightarrow> u32 option \<Rightarrow> (connection, ProtocolMessage) prog" where
  "read_frame buf expected_size match_header =
    and_then (read_data (length buf)) (\<lambda>got.
      let hdr_size = length got; buf = got @ drop hdr_size buf in
      if hdr_size < PROTOCOL_HEADER_SIZE then throw (Bail ''Invalid frame received'')
      else
        let msg = u32_from_le_bytes (take 4 buf) in
        if msg = END_MSG then return Exit
        else if (case match_header of None \<Rightarrow> False | Some wanted_hdr \<Rightarrow> msg \<noteq> wanted_hdr)
        then throw (Bail ''Invalid message header'')
        else
          and_then
            (if expected_size > hdr_size
             then and_then (read_data_exact (length buf - hdr_size))
                    (\<lambda>rem. return (take hdr_size buf @ rem))
             else return buf)
            (\<lambda>buf. return (if msg = INIT_MSG then Init buf else Data buf)))"

definition inbound_size :: "connection \<Rightarrow> nat" where
  "inbound_size c = sum_list (map (\<lambda>a. case a of Segment bs \<Rightarrow> length bs | ReadError _ \<Rightarrow> 0) (inbound c))"


lemma read_data_size:
  "read_data n c = (Inr bs, c') \<Longrightarrow> inbound_size c' + length bs = inbound_size c"
  by (auto simp: read_data_def inbound_size_def split: list.splits arrival.splits if_splits)

lemma read_exact_from_size:
  "read_exact_from n as = (r, as') \<Longrightarrow>
   sum_list (map (\<lambda>a. case a of Segment bs \<Rightarrow> length bs | ReadError _ \<Rightarrow> 0) as')
   \<le> sum_list (map (\<lambda>a. case a of Segment bs \<Rightarrow> length bs | ReadError _ \<Rightarrow> 0) as)"
  by (induction n as arbitrary: r as' rule: read_exact_from.induct)
    (fastforce split: if_splits prod.splits sum.splits)+

lemma read_data_exact_size: "read_data_exact n c = (r, c') \<Longrightarrow> inbound_size c' \<le> inbound_size c"
  using read_exact_from_size
  by (auto simp: read_data_exact_def inbound_size_def split: prod.splits)

lemma read_frame_size:
  assumes "read_frame buf n h c = (Inr m, c')"
  shows "inbound_size c' < inbound_size c"
proof -
  obtain got c1 where rd: "read_data (length buf) c = (Inr got, c1)"
    using assms by (auto simp: read_frame_def and_then_def split: prod.splits sum.splits)
  have four: "4 \<le> length got" and le: "inbound_size c' \<le> inbound_size c1"
    using assms rd
    by (auto simp: read_frame_def and_then_def Let_def PROTOCOL_HEADER_SIZE_def
        split: prod.splits sum.splits if_splits dest: read_data_exact_size)
  from read_data_size[OF rd] four le show ?thesis by simp
qed

text \<open>
  The receive loops of \<^verbatim>\<open>parse_index_options\<close> and \<^verbatim>\<open>receive_rows\<close>: read frames of \<open>n\<close> bytes, hand every
  data frame to the loop body, stop at the end message, refuse anything else.
\<close>

function frame_loop ::
  "nat \<Rightarrow> (bytes \<Rightarrow> 'st \<Rightarrow> 'st result) \<Rightarrow> 'st \<Rightarrow> connection \<Rightarrow> 'st result \<times> connection" where
  "frame_loop n body st c =
    (case read_frame (replicate n 0) n None c of
       (Inl e, c') \<Rightarrow> (Inl e, c')
     | (Inr Exit, c') \<Rightarrow> (Inr st, c')
     | (Inr (Data buf), c') \<Rightarrow>
         (case body buf st of
            Inl e \<Rightarrow> (Inl e, c')
          | Inr st' \<Rightarrow> frame_loop n body st' c')
     | (Inr (Init buf), c') \<Rightarrow> (Inl (Bail ''Invalid message received''), c'))"
  by pat_completeness auto
termination
  by (relation "measure (\<lambda>(n, body, st, c). inbound_size c)")
    (auto dest: read_frame_size[OF sym])

declare frame_loop.simps [simp del]

section \<open>Index creation request\<close>

definition bytes_to_f32_vec_le :: "bytes \<Rightarrow> u32 list" where
  "bytes_to_f32_vec_le bs = map u32_from_le_bytes (chunks_exact 4 bs)"

definition parse_tuple :: "bytes \<Rightarrow> row result" where
  "parse_tuple buf =
    (if length buf < LABEL_SIZE then Inl (Panicked ''range end index out of range'')
     else Inr (u64_from_le_bytes (take LABEL_SIZE buf), drop LABEL_SIZE buf))"

definition read_params :: "bytes \<Rightarrow> u32 list" where
  "read_params buf =
    map (\<lambda>i. u32_from_le_bytes (take INTEGER_SIZE (drop (INTEGER_SIZE * i) buf))) [0..<11]"

definition scalar_kind :: "u32 \<Rightarrow> ScalarKind result" where
  "scalar_kind q =
    (if q \<le> 1 then Inr F32 else if q = 2 then Inr F64 else if q = 3 then Inr F16
     else if q = 4 then Inr I8 else if q = 5 then Inr B1
     else Inl (Bail ''Invalid scalar quantization''))"

definition receive_codebook :: "u32 \<Rightarrow> (connection, u32 list) prog" where
  "receive_codebook dim =
    (let expected_payload_size = unat dim * INTEGER_SIZE
     in frame_loop expected_payload_size (\<lambda>buf cb. Inr (cb @ bytes_to_f32_vec_le buf)) [])"

definition parse_index_options :: "bytes \<Rightarrow> (connection, IndexOptions \<times> u32 \<times> u32) prog" where
  "parse_index_options buf =
    (if length buf < INTEGER_SIZE * 11 then throw (Panicked ''range end index out of range'')
     else
       let params = read_params buf;
           pq = (params ! 0 = 1); metric_kind = params ! 1; quant = params ! 2; dim = params ! 3;
           m = params ! 4; ef_construction = params ! 5; ef = params ! 6; centroids = params ! 7;
           subvectors = params ! 8; estimated_capacity = params ! 9; element_bits = params ! 10
       in and_then (lift_r (scalar_kind quant)) (\<lambda>quant.
          and_then (lift_r (from_u32 metric_kind)) (\<lambda>mk.
          and_then (if pq then and_then (receive_codebook dim) (\<lambda>cb. return (Some cb)) else return None)
            (\<lambda>pq_codebook.
              return
                (\<lparr>dimensions = unat dim, metric = metric_value mk, quantization = quant, multi = False,
                  connectivity = unat m, expansion_add = unat ef_construction,
                  expansion_search = unat ef, num_threads = 0, pq_construction = pq, pq_output = pq,
                  num_centroids = unat centroids, num_subvectors = unat subvectors,
                  codebook = pq_codebook\<rparr>,
                 element_bits, estimated_capacity)))))"

definition initialize_index :: "'ix usearch \<Rightarrow> (connection, nat \<times> 'ix) prog" where
  "initialize_index us =
    seq (write_data (u32_to_le_bytes PROTOCOL_VERSION))
    (seq (write_data (u32_to_le_bytes SERVER_TYPE))
    (and_then (read_frame (replicate INDEX_HEADER_LENGTH 0) INDEX_HEADER_LENGTH (Some INIT_MSG)) (\<lambda>msg.
       case msg of
         Init buf \<Rightarrow>
           and_then (parse_index_options (drop PROTOCOL_HEADER_SIZE (take INDEX_HEADER_LENGTH buf)))
             (\<lambda>(index_options, element_bits, estimated_capacity).
               and_then (lift_r (us_new us index_options)) (\<lambda>index.
               and_then (lift_r (us_reserve us (unat estimated_capacity) index)) (\<lambda>index.
               \<lambda>c. case write_data [0] c of
                     (Inl e, c') \<Rightarrow> (Inl (Panicked ''called unwrap on an Err value''), c')
                   | (Inr _, c') \<Rightarrow> (Inr (unat element_bits, index), c'))))
       | _ \<Rightarrow> throw (Bail ''send init message first''))))"

section \<open>Receiving rows\<close>

record 'ix receiver =
  received_rows :: nat
  current_capacity :: nat
  rindex :: 'ix
  accepted :: "row list"

definition expected_payload_size :: "nat \<Rightarrow> nat \<Rightarrow> nat" where
  "expected_payload_size dim element_bits =
    (if element_bits < CHAR_BITS then LABEL_SIZE + div_ceil dim CHAR_BITS
     else LABEL_SIZE + dim * (element_bits div CHAR_BITS))"

definition receive_row :: "'ix usearch \<Rightarrow> bytes \<Rightarrow> 'ix receiver \<Rightarrow> 'ix receiver result" where
  "receive_row us buf st =
    and_then_r (parse_tuple buf) (\<lambda>row.
    and_then_r
      (if received_rows st = current_capacity st
       then let cap = current_capacity st * 2
            in and_then_r (us_reserve us cap (rindex st))
                 (\<lambda>ix. Inr (st\<lparr>current_capacity := cap, rindex := ix\<rparr>))
       else Inr st)
      (\<lambda>st. Inr (st\<lparr>received_rows := received_rows st + 1, accepted := accepted st @ [row]\<rparr>)))"

definition start_receiver :: "'ix usearch \<Rightarrow> 'ix \<Rightarrow> 'ix receiver" where
  "start_receiver us ix =
    \<lparr>received_rows = 0, current_capacity = us_capacity us ix, rindex = ix, accepted = []\<rparr>"

definition receive_rows :: "'ix usearch \<Rightarrow> nat \<Rightarrow> 'ix \<Rightarrow> (connection, 'ix receiver) prog" where
  "receive_rows us element_bits ix =
    frame_loop (expected_payload_size (us_dimensions us ix) element_bits)
      (receive_row us) (start_receiver us ix)"


section \<open>The client side of the protocol\<close>

text \<open>
  What a client sends: a row is its label and its vector, the stream is the rows followed by the
  end message. \<^verbatim>\<open>headers_whole\<close> says of a segmentation of the stream that no segment boundary falls
  inside the first four bytes of a frame; \<open>ns\<close> are the frame lengths.
\<close>

fun encode_row :: "row \<Rightarrow> bytes" where
  "encode_row (label, v) = u64_to_le_bytes label @ v"

fun skip_bytes :: "nat \<Rightarrow> bytes list \<Rightarrow> bytes list" where
  "skip_bytes n [] = []"
| "skip_bytes n (s # ss) =
    (if n = 0 then s # ss else if n < length s then drop n s # ss else skip_bytes (n - length s) ss)"

fun headers_whole :: "nat list \<Rightarrow> bytes list \<Rightarrow> bool" where
  "headers_whole [] segs = True"
| "headers_whole (n # ns) segs =
    ((case segs of [] \<Rightarrow> False | s # _ \<Rightarrow> 4 \<le> length s) \<and> headers_whole ns (skip_bytes n segs))"

definition plain_label :: "u64 \<Rightarrow> bool" where
  "plain_label l = ((ucast l :: u32) \<noteq> END_MSG \<and> (ucast l :: u32) \<noteq> INIT_MSG)"

definition encode_params :: "u32 list \<Rightarrow> bytes" where
  "encode_params ps = concat (map u32_to_le_bytes ps)"

section \<open>Reading a segmented stream\<close>

lemma skip_bytes_0 [simp]: "skip_bytes 0 ss = ss"
  by (cases ss) auto

lemma skip_bytes_nonempty: "[] \<notin> set ss \<Longrightarrow> [] \<notin> set (skip_bytes n ss)"
  by (induction n ss rule: skip_bytes.induct) auto

lemma concat_skip_bytes: "concat (skip_bytes n ss) = drop n (concat ss)"
  by (induction n ss rule: skip_bytes.induct) auto

lemma skip_bytes_skip: "[] \<notin> set ss \<Longrightarrow> skip_bytes n (skip_bytes m ss) = skip_bytes (m + n) ss"
  by (induction m ss rule: skip_bytes.induct) (auto simp: add.commute)

lemma read_exact_segments:
  assumes "[] \<notin> set ss" "n \<le> length (concat ss)"
  shows "read_exact_from n (map Segment ss) = (Inr (take n (concat ss)), map Segment (skip_bytes n ss))"
  using assms by (induction n ss rule: skip_bytes.induct) auto

lemma read_data_segments:
  assumes "s \<noteq> []"
  shows "read_data n (c\<lparr>inbound := map Segment (s # ss)\<rparr>) =
    (Inr (take n s), c\<lparr>inbound := map Segment (if length s \<le> n then ss else drop n s # ss)\<rparr>)"
  by (simp add: read_data_def)

text \<open>A whole frame is read whatever the segmentation, once its first four bytes come together.\<close>

lemma read_frame_whole:
  assumes ne: "[] \<notin> set (s # ss)" and whole: "4 \<le> length s"
    and n: "4 \<le> n" "n \<le> length (concat (s # ss))"
    and f: "f = take n (concat (s # ss))"
    and notend: "u32_from_le_bytes (take 4 f) \<noteq> END_MSG"
    and hdr: "case h of None \<Rightarrow> True | Some w \<Rightarrow> u32_from_le_bytes (take 4 f) = w"
  shows "read_frame (replicate n 0) n h (c\<lparr>inbound := map Segment (s # ss)\<rparr>) =
    (Inr (if u32_from_le_bytes (take 4 f) = INIT_MSG then Init f else Data f),
     c\<lparr>inbound := map Segment (skip_bytes n (s # ss))\<rparr>)"
proof -
  have four: "take 4 (take n s) = take 4 f"
    using whole n by (simp add: f)
  have rest: "read_data_exact (n - length s) (c\<lparr>inbound := map Segment ss\<rparr>) =
      (Inr (take (n - length s) (concat ss)), c\<lparr>inbound := map Segment (skip_bytes (n - length s) ss)\<rparr>)"
    using ne n by (simp add: read_data_exact_def read_exact_segments)
  show ?thesis
  proof (cases "n \<le> length s")
    case True
    then show ?thesis
      using ne whole n notend hdr four
      by (cases "n = length s")
        (auto simp: read_frame_def and_then_def read_data_def Let_def PROTOCOL_HEADER_SIZE_def f
          split: option.splits)
  next
    case False
    then show ?thesis
      using ne whole n notend hdr four rest
      by (auto simp: read_frame_def and_then_def read_data_def Let_def PROTOCOL_HEADER_SIZE_def f
          split: option.splits)
  qed
qed

lemma read_frame_end:
  assumes "4 \<le> n" "4 \<le> length s" "take 4 s = u32_to_le_bytes END_MSG"
  shows "\<exists>c'. read_frame (replicate n 0) n h (c\<lparr>inbound := map Segment (s # ss)\<rparr>) = (Inr Exit, c')"
  using assms
  by (auto simp: read_frame_def and_then_def read_data_def Let_def PROTOCOL_HEADER_SIZE_def min_def)

text \<open>The general receive loop on a stream of frames, whatever the segmentation.\<close>

lemma fold_and_then_r_Inl: "fold (\<lambda>f r. and_then_r r (body f)) fs (Inl e) = Inl e"
  by (induction fs) auto

lemma frame_loop_frames:
  assumes "4 \<le> n" "[] \<notin> set segs"
    and "concat segs = concat fs @ u32_to_le_bytes END_MSG @ rest"
    and "\<forall>f \<in> set fs. length f = n \<and> u32_from_le_bytes (take 4 f) \<noteq> END_MSG
           \<and> u32_from_le_bytes (take 4 f) \<noteq> INIT_MSG"
    and "headers_whole (map length fs @ [4]) segs"
  shows "fst (frame_loop n body st (c\<lparr>inbound := map Segment segs\<rparr>)) =
    fold (\<lambda>f r. and_then_r r (body f)) fs (Inr st)"
  using assms(2-)
proof (induction fs arbitrary: segs st c)
  case Nil
  then obtain s ss where segs: "segs = s # ss" and l: "4 \<le> length s"
    by (cases segs) auto
  have "take 4 s = take 4 (concat segs)" using l segs by simp
  also have "\<dots> = u32_to_le_bytes END_MSG" using Nil by simp
  finally obtain c' where
    "read_frame (replicate n 0) n None (c\<lparr>inbound := map Segment segs\<rparr>) = (Inr Exit, c')"
    using read_frame_end[OF assms(1) l] segs by metis
  then show ?case by (subst frame_loop.simps) simp
next
  case (Cons f fs)
  then obtain s ss where segs: "segs = s # ss" and l: "4 \<le> length s"
    by (cases segs) auto
  have n: "length f = n" using Cons.prems(3) by simp
  have all: "concat (s # ss) = f @ concat fs @ u32_to_le_bytes END_MSG @ rest"
    using Cons.prems(2) segs by simp
  have f: "f = take n (concat (s # ss))" "n \<le> length (concat (s # ss))"
    unfolding all by (simp_all add: n)
  have rf: "read_frame (replicate n 0) n None (c\<lparr>inbound := map Segment segs\<rparr>) =
      (Inr (Data f), c\<lparr>inbound := map Segment (skip_bytes n segs)\<rparr>)"
    unfolding segs
    using read_frame_whole[OF _ l assms(1) f(2,1), of None c] Cons.prems(1,3) segs
    by (simp only: option.case if_False) auto
  have nxt: "concat (skip_bytes n segs) = concat fs @ u32_to_le_bytes END_MSG @ rest"
    unfolding concat_skip_bytes segs all by (simp add: n)
  show ?case
  proof (cases "body f st")
    case (Inl e)
    then show ?thesis
      by (subst frame_loop.simps) (simp add: rf fold_and_then_r_Inl)
  next
    case (Inr st')
    have "fst (frame_loop n body st' (c\<lparr>inbound := map Segment (skip_bytes n segs)\<rparr>)) =
        fold (\<lambda>f r. and_then_r r (body f)) fs (Inr st')"
      using Cons.prems(1,3,4) n nxt by (intro Cons.IH) (simp_all add: skip_bytes_nonempty)
    with Inr show ?thesis
      by (subst frame_loop.simps) (simp add: rf)
  qed
qed

section \<open>Rows\<close>

lemma word_of_nat_low32: "(word_of_nat (unat l mod 256 ^ 4) :: u32) = (ucast (l :: u64) :: u32)"
proof -
  have e: "(ucast l :: u32) = word_of_nat (unat l)" by (simp only: of_nat_unat)
  show ?thesis unfolding e word_of_nat_eq_iff take_bit_eq_mod by simp
qed

lemma take4_label: "u32_from_le_bytes (take 4 (encode_row (l, v))) = ucast l"
proof -
  have "take m (le_encode (m + k) x) = le_encode m x" for m k x
    by (induction m arbitrary: x) auto
  from this[of 4 4] have "take 4 (le_encode 8 x) = le_encode 4 x" for x
    by simp
  then have "take 4 (encode_row (l, v)) = le_encode 4 (unat l)"
    by (simp add: u64_to_le_bytes_def)
  then have "u32_from_le_bytes (take 4 (encode_row (l, v))) = word_of_nat (unat l mod 256 ^ 4)"
    by (simp only: u32_from_le_bytes_def le_decode_encode)
  also have "\<dots> = (ucast l :: u32)"
    by (rule word_of_nat_low32)
  finally show ?thesis .
qed

lemma parse_encode_row [simp, codec_simps]: "parse_tuple (encode_row r) = Inr r"
  by (cases r) (simp add: parse_tuple_def LABEL_SIZE_def)

text \<open>The loop body on a list of rows, when the index can always be grown.\<close>

lemma receive_row_ok:
  assumes "\<forall>n ix. is_ok (us_reserve us n ix)"
  obtains st' where "receive_row us (encode_row r) st = Inr st'"
    "accepted st' = accepted st @ [r]" "received_rows st' = received_rows st + 1"
    "current_capacity st' =
      (if received_rows st = current_capacity st then 2 * current_capacity st else current_capacity st)"
proof -
  obtain ix where ix: "us_reserve us (current_capacity st * 2) (rindex st) = Inr ix"
    using assms by (metis is_ok.simps(1) sum.exhaust)
  show thesis
  proof (cases "received_rows st = current_capacity st")
    case True
    then show thesis by (intro that) (simp add: receive_row_def Let_def ix)+
  next
    case False
    then show thesis by (intro that) (simp add: receive_row_def Let_def)+
  qed
qed

lemma receive_rows_fold:
  assumes "\<forall>n ix. is_ok (us_reserve us n ix)"
  shows "\<exists>st'. fold (\<lambda>f r. and_then_r r (receive_row us f)) (map encode_row rows) (Inr st) = Inr st'
    \<and> accepted st' = accepted st @ rows
    \<and> received_rows st' = received_rows st + length rows
    \<and> (0 < current_capacity st \<and> received_rows st \<le> current_capacity st \<longrightarrow>
        received_rows st' \<le> current_capacity st'
        \<and> (\<exists>k. current_capacity st' = current_capacity st * 2 ^ k))"
proof (induction rows arbitrary: st)
  case Nil
  show ?case by (auto intro: exI[of _ 0])
next
  case (Cons r rows)
  obtain st1 where st1: "receive_row us (encode_row r) st = Inr st1"
    "accepted st1 = accepted st @ [r]" "received_rows st1 = received_rows st + 1"
    "current_capacity st1 =
      (if received_rows st = current_capacity st then 2 * current_capacity st else current_capacity st)"
    by (rule receive_row_ok[OF assms])
  obtain st' where st': "fold (\<lambda>f r. and_then_r r (receive_row us f)) (map encode_row rows) (Inr st1) = Inr st'"
    "accepted st' = accepted st1 @ rows" "received_rows st' = received_rows st1 + length rows"
    "0 < current_capacity st1 \<and> received_rows st1 \<le> current_capacity st1 \<longrightarrow>
        received_rows st' \<le> current_capacity st'
        \<and> (\<exists>k. current_capacity st' = current_capacity st1 * 2 ^ k)"
    using Cons[of st1] by blast
  have cap: "\<exists>k. current_capacity st' = current_capacity st * 2 ^ k"
    if "current_capacity st' = current_capacity st1 * 2 ^ k" for k
  proof (cases "received_rows st = current_capacity st")
    case True
    then show ?thesis using that st1(4) by (intro exI[of _ "Suc k"]) simp
  next
    case False
    then show ?thesis using that st1(4) by (intro exI[of _ k]) simp
  qed
  have room: "0 < current_capacity st1 \<and> received_rows st1 \<le> current_capacity st1"
    if "0 < current_capacity st" "received_rows st \<le> current_capacity st"
    using that st1(3,4) by (cases "received_rows st = current_capacity st") auto
  show ?case
  proof (intro exI[of _ st'] conjI impI)
    assume "0 < current_capacity st \<and> received_rows st \<le> current_capacity st"
    then show "received_rows st' \<le> current_capacity st'"
      and "\<exists>k. current_capacity st' = current_capacity st * 2 ^ k"
      using room st'(4) cap by blast+
  qed (simp_all add: st1(1-3) st'(1-3))
qed


lemma frame_loop_rows:
  assumes n: "n = expected_payload_size dim bits"
    and "[] \<notin> set segs"
    and "concat segs = concat (map encode_row rows) @ u32_to_le_bytes END_MSG @ rest"
    and "\<forall>r \<in> set rows. 8 + length (snd r) = n \<and> plain_label (fst r)"
    and "headers_whole (map (\<lambda>r. 8 + length (snd r)) rows @ [4]) segs"
  shows "fst (frame_loop n body st (c\<lparr>inbound := map Segment segs\<rparr>)) =
    fold (\<lambda>f r. and_then_r r (body f)) (map encode_row rows) (Inr st)"
proof -
  have len: "length (encode_row r) = 8 + length (snd r)" for r by (cases r) simp
  have "4 \<le> n" by (simp add: n expected_payload_size_def LABEL_SIZE_def)
  moreover have "\<forall>f \<in> set (map encode_row rows). length f = n
      \<and> u32_from_le_bytes (take 4 f) \<noteq> END_MSG \<and> u32_from_le_bytes (take 4 f) \<noteq> INIT_MSG"
    using assms(4) by (auto simp: len plain_label_def take4_label simp del: encode_row.simps)
  moreover have "map length (map encode_row rows) = map (\<lambda>r. 8 + length (snd r)) rows"
    by (simp add: len)
  ultimately show ?thesis
    using frame_loop_frames[of n segs "map encode_row rows" rest body st c]
      assms(2,3,5) by (simp only: simp_thms)
qed

lemma receive_rows_frames:
  assumes "n = expected_payload_size (us_dimensions us ix) bits"
    and "[] \<notin> set segs"
    and "concat segs = concat (map encode_row rows) @ u32_to_le_bytes END_MSG @ rest"
    and "\<forall>r \<in> set rows. 8 + length (snd r) = n \<and> plain_label (fst r)"
    and "headers_whole (map (\<lambda>r. 8 + length (snd r)) rows @ [4]) segs"
  shows "fst (receive_rows us bits ix (c\<lparr>inbound := map Segment segs\<rparr>)) =
    fold (\<lambda>f r. and_then_r r (receive_row us f)) (map encode_row rows) (Inr (start_receiver us ix))"
  using frame_loop_rows[OF assms] by (simp only: receive_rows_def assms(1))

text \<open>
  C1. Whatever way the transport cuts the stream into segments, as long as no cut falls inside the
  four header bytes of a frame, \<^verbatim>\<open>receive_rows\<close> accepts exactly the rows the client sent, in order,
  and stops at the end message, whatever follows it. The rows have the size the index expects,
  no label has an end or init message as its low half, and the index can be grown. If the index
  starts with room for a row, the reserved capacity is always enough for the rows received, and
  it is the initial one doubled some number of times.
\<close>

theorem receive_rows_delivers:
  assumes "\<forall>n i. is_ok (us_reserve us n i)"
    and "[] \<notin> set segs"
    and "concat segs = concat (map encode_row rows) @ u32_to_le_bytes END_MSG @ rest"
    and "\<forall>r \<in> set rows. 8 + length (snd r) = expected_payload_size (us_dimensions us ix) bits
           \<and> plain_label (fst r)"
    and "headers_whole (map (\<lambda>r. 8 + length (snd r)) rows @ [4]) segs"
  shows "\<exists>st. fst (receive_rows us bits ix (c\<lparr>inbound := map Segment segs\<rparr>)) = Inr st
    \<and> accepted st = rows \<and> received_rows st = length rows
    \<and> (0 < us_capacity us ix \<longrightarrow>
        length rows \<le> current_capacity st \<and> (\<exists>k. current_capacity st = us_capacity us ix * 2 ^ k))"
  using receive_rows_frames[OF refl assms(2-5), of c]
    receive_rows_fold[OF assms(1), of rows "start_receiver us ix"]
  by (auto simp: start_receiver_def)

text \<open>A store of labels that behaves like the index library on the operations the server calls.\<close>

record demo_index =
  dm_dims :: nat
  dm_cap :: nat
  dm_rows :: "row list"

definition demo :: "demo_index usearch" where
  "demo = \<lparr>us_new = (\<lambda>opts. Inr \<lparr>dm_dims = dimensions opts, dm_cap = 0, dm_rows = []\<rparr>),
    us_reserve = (\<lambda>n i. Inr (i\<lparr>dm_cap := n\<rparr>)),
    us_capacity = dm_cap, us_dimensions = dm_dims,
    us_add_raw = (\<lambda>l v bits i. if length (dm_rows i) < dm_cap i
       then Inr (i\<lparr>dm_rows := dm_rows i @ [(l, v)]\<rparr>)
       else Inl (IoError ''reserve capacity ahead of insertions'')),
    us_size = (\<lambda>i. length (dm_rows i)),
    us_save = (\<lambda>i. Inr (concat (map encode_row (dm_rows i))))\<rparr>"

lemma demo_labels: "plain_label 1" "plain_label 2"
  by (simp_all add: plain_label_def END_MSG_def INIT_MSG_def)

lemma u32_to_le_bytes_nonempty: "u32_to_le_bytes l \<noteq> []" "[] \<noteq> u32_to_le_bytes l"
  using length_u32_to_le_bytes[of l] by (metis list.size(3) zero_neq_numeral)+

lemma u64_to_le_bytes_nonempty: "u64_to_le_bytes l \<noteq> []" "[] \<noteq> u64_to_le_bytes l"
  using length_u64_to_le_bytes[of l] by (metis list.size(3) zero_neq_numeral)+

theorem receive_rows_delivers_witness:
  "\<exists>st. fst (receive_rows demo 8 \<lparr>dm_dims = 2, dm_cap = 1, dm_rows = []\<rparr>
      \<lparr>inbound = map Segment
         [u64_to_le_bytes 1, [7, 9] @ u64_to_le_bytes 2 @ [0], [5] @ u32_to_le_bytes END_MSG @ [1]],
       windows = [], outbound = []\<rparr>) = Inr st
    \<and> accepted st = [(1, [7, 9]), (2, [0, 5])] \<and> received_rows st = 2"
  using receive_rows_delivers[of demo
      "[u64_to_le_bytes 1, [7, 9] @ u64_to_le_bytes 2 @ [0], [5] @ u32_to_le_bytes END_MSG @ [1]]"
      "[(1, [7, 9]), (2, [0, 5])]" "[1]" "\<lparr>dm_dims = 2, dm_cap = 1, dm_rows = []\<rparr>" 8
      "\<lparr>inbound = [], windows = [], outbound = []\<rparr>"]
  by (auto simp: demo_def demo_labels expected_payload_size_def CHAR_BITS_def LABEL_SIZE_def
      u64_to_le_bytes_nonempty)


text \<open>
  A row whose label has the end message as its low four bytes ends the stream: the rows before it
  are accepted, the row itself and every row after it are dropped, and the loop still returns
  success.
\<close>

theorem receive_rows_truncated_by_label:
  assumes "\<forall>n i. is_ok (us_reserve us n i)"
    and "[] \<notin> set segs"
    and "concat segs = concat (map encode_row (rows @ (l, v) # lost)) @ u32_to_le_bytes END_MSG"
    and "(ucast l :: u32) = END_MSG"
    and "\<forall>r \<in> set rows. 8 + length (snd r) = expected_payload_size (us_dimensions us ix) bits
           \<and> plain_label (fst r)"
    and "headers_whole (map (\<lambda>r. 8 + length (snd r)) rows @ [4]) segs"
  shows "\<exists>st. fst (receive_rows us bits ix (c\<lparr>inbound := map Segment segs\<rparr>)) = Inr st
    \<and> accepted st = rows"
proof -
  let ?rest = "drop 4 (encode_row (l, v)) @ concat (map encode_row lost) @ u32_to_le_bytes END_MSG"
  have "take 4 (encode_row (l, v)) = u32_to_le_bytes END_MSG"
    using assms(4) take4_label[of l v] u32_to_from[of "take 4 (encode_row (l, v))"] by simp
  then have split: "encode_row (l, v) = u32_to_le_bytes END_MSG @ drop 4 (encode_row (l, v))"
    by (metis append_take_drop_id)
  have "concat segs = concat (map encode_row rows) @ u32_to_le_bytes END_MSG @ ?rest"
    unfolding assms(3) by (subst map_append) (simp add: split[symmetric, simplified])
  from receive_rows_frames[OF refl assms(2) this assms(5,6), of c]
    receive_rows_fold[OF assms(1), of rows "start_receiver us ix"]
  show ?thesis by (auto simp: start_receiver_def)
qed

theorem receive_rows_truncated_by_label_witness:
  "\<exists>st. fst (receive_rows demo 8 \<lparr>dm_dims = 1, dm_cap = 4, dm_rows = []\<rparr>
      \<lparr>inbound = map Segment
         [encode_row (1, [7]), encode_row (0x31333337, [8]) @ encode_row (2, [9]) @ u32_to_le_bytes END_MSG],
       windows = [], outbound = []\<rparr>) = Inr st
    \<and> accepted st = [(1, [7])]"
  using receive_rows_truncated_by_label[of demo
      "[encode_row (1, [7]), encode_row (0x31333337, [8]) @ encode_row (2, [9]) @ u32_to_le_bytes END_MSG]"
      "[(1, [7])]" "0x31333337" "[8]" "[(2, [9])]" "\<lparr>dm_dims = 1, dm_cap = 4, dm_rows = []\<rparr>" 8
      "\<lparr>inbound = [], windows = [], outbound = []\<rparr>"]
  by (auto simp: demo_def demo_labels expected_payload_size_def CHAR_BITS_def LABEL_SIZE_def
      END_MSG_def)

section \<open>The handshake\<close>

lemma read_params_encode: "length ps = 11 \<Longrightarrow> read_params (encode_params ps) = ps"
  unfolding read_params_def encode_params_def INTEGER_SIZE_def
  by (rule nth_equalityI) (simp_all add: u32le.nth_code)

lemma read_init_frame:
  assumes "length ps = 11" "[] \<notin> set segs"
    and "concat segs = u32_to_le_bytes INIT_MSG @ encode_params ps @ rest"
    and "headers_whole [48] segs"
  shows "read_frame (replicate 48 0) 48 (Some INIT_MSG) (c\<lparr>inbound := map Segment segs\<rparr>) =
    (Inr (Init (u32_to_le_bytes INIT_MSG @ encode_params ps)),
     c\<lparr>inbound := map Segment (skip_bytes 48 segs)\<rparr>)"
proof -
  obtain s ss where segs: "segs = s # ss" and l: "4 \<le> length s"
    using assms(4) by (cases segs) auto
  let ?f = "u32_to_le_bytes INIT_MSG @ encode_params ps"
  have len: "length ?f = 48"
    using assms(1) by (simp add: encode_params_def u32le.length_stream)
  have all: "concat (s # ss) = ?f @ rest" using assms(3) segs by simp
  have f: "?f = take 48 (concat (s # ss))" "48 \<le> length (concat (s # ss))"
    unfolding all using len by simp_all
  have ne: "[] \<notin> set (s # ss)" using assms(2) segs by simp
  have "INIT_MSG \<noteq> END_MSG" by (simp add: INIT_MSG_def END_MSG_def)
  then show ?thesis
    unfolding segs using read_frame_whole[OF ne l _ f(2,1), of "Some INIT_MSG" c] by simp
qed

definition decoded_options :: "u32 list \<Rightarrow> ScalarKind \<Rightarrow> UMetricKind \<Rightarrow> u32 list option \<Rightarrow> IndexOptions" where
  "decoded_options ps q mk cb =
    \<lparr>dimensions = unat (ps ! 3), metric = metric_value mk, quantization = q, multi = False,
     connectivity = unat (ps ! 4), expansion_add = unat (ps ! 5), expansion_search = unat (ps ! 6),
     num_threads = 0, pq_construction = (ps ! 0 = 1), pq_output = (ps ! 0 = 1),
     num_centroids = unat (ps ! 7), num_subvectors = unat (ps ! 8), codebook = cb\<rparr>"

lemma parse_index_options_plain:
  assumes "length ps = 11" "ps ! 0 \<noteq> 1" "scalar_kind (ps ! 2) = Inr q" "from_u32 (ps ! 1) = Inr mk"
  shows "parse_index_options (encode_params ps) c =
    (Inr (decoded_options ps q mk None, ps ! 10, ps ! 9), c)"
proof -
  have "\<not> length (encode_params ps) < INTEGER_SIZE * 11"
    by (simp add: encode_params_def u32le.length_stream assms INTEGER_SIZE_def)
  then show ?thesis
    using assms
    by (simp add: parse_index_options_def read_params_encode Let_def and_then_def decoded_options_def)
qed

text \<open>
  C13. The handshake decodes what the client encoded: when the init frame carries eleven
  little-endian parameters with a known metric and scalar kind and no product quantization, the
  server answers with its version, its type and the success byte, creates the index with exactly
  those options, reserves the estimated capacity and leaves the bytes after the frame unread.
\<close>

theorem initialize_index_decodes:
  assumes "length ps = 11" "[] \<notin> set segs"
    and "concat segs = u32_to_le_bytes INIT_MSG @ encode_params ps @ rest"
    and "headers_whole [48] segs"
    and "ps ! 0 \<noteq> 1" "scalar_kind (ps ! 2) = Inr q" "from_u32 (ps ! 1) = Inr mk"
    and "us_new us (decoded_options ps q mk None) = Inr ix"
    and "us_reserve us (unat (ps ! 9)) ix = Inr ix'"
  shows "initialize_index us \<lparr>inbound = map Segment segs, windows = [], outbound = ob\<rparr> =
    (Inr (unat (ps ! 10), ix'),
     \<lparr>inbound = map Segment (skip_bytes 48 segs), windows = [],
      outbound = ob @ u32_to_le_bytes PROTOCOL_VERSION @ u32_to_le_bytes SERVER_TYPE @ [0]\<rparr>)"
proof -
  have "drop 4 (take 48 (u32_to_le_bytes INIT_MSG @ encode_params ps)) = encode_params ps"
    using assms(1) by (simp add: encode_params_def u32le.length_stream)
  moreover have "read_frame (replicate 48 0) 48 (Some INIT_MSG)
      \<lparr>inbound = map Segment segs, windows = [], outbound = o1\<rparr> =
    (Inr (Init (u32_to_le_bytes INIT_MSG @ encode_params ps)),
     \<lparr>inbound = map Segment (skip_bytes 48 segs), windows = [], outbound = o1\<rparr>)" for o1
    using read_init_frame[OF assms(1-4), of "\<lparr>inbound = [], windows = [], outbound = o1\<rparr>"] by simp
  ultimately show ?thesis
    using assms(5-9) parse_index_options_plain[OF assms(1,5,6,7)]
    by (simp add: initialize_index_def seq_def and_then_def write_data_def INDEX_HEADER_LENGTH_def
        INTEGER_SIZE_def PROTOCOL_HEADER_SIZE_def del: take_append drop_append)
qed

theorem initialize_index_decodes_witness:
  "initialize_index demo
      \<lparr>inbound = map Segment
         [u32_to_le_bytes INIT_MSG @ encode_params [0, 3, 1, 128, 16], encode_params [64, 32, 0, 0, 1000, 32, 5]],
       windows = [], outbound = []\<rparr> =
    (Inr (32, \<lparr>dm_dims = 128, dm_cap = 1000, dm_rows = []\<rparr>),
     \<lparr>inbound = [Segment (u32_to_le_bytes 5)], windows = [],
      outbound = u32_to_le_bytes 1 @ u32_to_le_bytes 1 @ [0]\<rparr>)"
  using initialize_index_decodes[of "[0, 3, 1, 128, 16, 64, 32, 0, 0, 1000, 32]"
      "[u32_to_le_bytes INIT_MSG @ encode_params [0, 3, 1, 128, 16], encode_params [64, 32, 0, 0, 1000, 32, 5]]"
      "u32_to_le_bytes 5" F32 L2sq demo "\<lparr>dm_dims = 128, dm_cap = 0, dm_rows = []\<rparr>"
      "\<lparr>dm_dims = 128, dm_cap = 1000, dm_rows = []\<rparr>" "[]"]
  by (simp add: encode_params_def demo_def decoded_options_def scalar_kind_def from_u32_def
      PROTOCOL_VERSION_def SERVER_TYPE_def u32_to_le_bytes_nonempty)

text \<open>
  C40. With product quantization the codebook is read from the same connection: the frames of
  \<open>dim\<close> floats each are concatenated in order until the end message, bit for bit, for every
  segmentation that keeps the frame headers whole. No vector may start with the bit pattern of a
  protocol message.
\<close>

theorem receive_codebook_frames:
  assumes "0 < unat dim" "[] \<notin> set segs"
    and "concat segs = concat (map encode_params vecs) @ u32_to_le_bytes END_MSG @ rest"
    and "\<forall>v \<in> set vecs. length v = unat dim \<and> hd v \<noteq> END_MSG \<and> hd v \<noteq> INIT_MSG"
    and "headers_whole (map (\<lambda>v. 4 * length v) vecs @ [4]) segs"
  shows "fst (receive_codebook dim (c\<lparr>inbound := map Segment segs\<rparr>)) = Inr (concat vecs)"
proof -
  let ?body = "\<lambda>buf cb. Inr (cb @ bytes_to_f32_vec_le buf) :: u32 list result"
  have dec: "bytes_to_f32_vec_le (encode_params v) = v" for v
    using u32le.decode_stream[of "[]" v] by (simp add: bytes_to_f32_vec_le_def encode_params_def)
  have len: "length (encode_params v) = 4 * length v" for v
    by (simp add: encode_params_def u32le.length_stream)
  have head: "u32_from_le_bytes (take 4 (encode_params v)) = hd v" if "0 < length v" for v
    using u32le.nth_code[of 0 v] that by (simp add: encode_params_def hd_conv_nth)
  have "\<forall>f \<in> set (map encode_params vecs). length f = unat dim * 4
      \<and> u32_from_le_bytes (take 4 f) \<noteq> END_MSG \<and> u32_from_le_bytes (take 4 f) \<noteq> INIT_MSG"
    using assms(1,4) by (auto simp: len head)
  then have "fst (frame_loop (unat dim * 4) ?body [] (c\<lparr>inbound := map Segment segs\<rparr>)) =
      fold (\<lambda>f r. and_then_r r (?body f)) (map encode_params vecs) (Inr [])"
    using assms by (intro frame_loop_frames[OF _ assms(2,3)]) (simp_all add: comp_def len)
  moreover have "fold (\<lambda>f r. and_then_r r (?body f)) (map encode_params vecs) (Inr acc) =
      Inr (acc @ concat vecs)" for acc
    by (induction vecs arbitrary: acc) (simp_all add: dec)
  ultimately show ?thesis
    by (simp add: receive_codebook_def INTEGER_SIZE_def)
qed

theorem receive_codebook_frames_witness:
  "fst (receive_codebook 2 \<lparr>inbound = map Segment
      [encode_params [1, 2, 3], encode_params [4] @ u32_to_le_bytes END_MSG], windows = [], outbound = []\<rparr>)
    = Inr [1, 2, 3, 4]"
  using receive_codebook_frames[of 2
      "[encode_params [1, 2, 3], encode_params [4] @ u32_to_le_bytes END_MSG]" "[[1, 2], [3, 4]]" "[]"
      "\<lparr>inbound = [], windows = [], outbound = []\<rparr>"]
  by (simp add: encode_params_def u32_to_le_bytes_nonempty END_MSG_def INIT_MSG_def)

end
