(* ===== verification/Index_Build.thy ===== *)
theory Index_Build
  imports Index_Server
begin

text \<open>
  The rest of \<^verbatim>\<open>lantern_cli/src/external_index/server.rs\<close>: the pipeline of
  \<^verbatim>\<open>create_streaming_usearch_index\<close>, in which the connection thread receives rows and a pool of
  worker threads takes them from a bounded channel and adds them to the index, the transfer of
  the finished index, and the accept loop with its status. The interleaving of the threads is
  a step relation on a \<^verbatim>\<open>session\<close>; every lock of the source protects one such step.
\<close>

section \<open>The pipeline\<close>

definition CHANNEL_BOUND :: nat where "CHANNEL_BOUND = 2000"

text \<open>A worker waits for a row, holds one it has taken, has left its loop with the channel closed,
  or has left it with the error of \<^verbatim>\<open>add_raw\<close> for a row.\<close>

datatype worker = Waiting | Holding row | Finished | Gave_Up row error

record 'ix session =
  conn :: connection
  recv :: "'ix receiver"
  pending :: "row option"
  channel :: "row list"
  tx_open :: bool
  aborted :: "error option"
  pool :: "worker list"
  added :: "row list"

definition spawn_session :: "'ix usearch \<Rightarrow> nat \<Rightarrow> 'ix \<Rightarrow> connection \<Rightarrow> 'ix session" where
  "spawn_session us num_cores ix c =
    \<lparr>conn = c, recv = start_receiver us ix, pending = None, channel = [], tx_open = True,
     aborted = None, pool = replicate num_cores Waiting, added = []\<rparr>"

inductive step :: "'ix usearch \<Rightarrow> nat \<Rightarrow> nat \<Rightarrow> 'ix session \<Rightarrow> 'ix session \<Rightarrow> bool"
  for us :: "'ix usearch" and bits :: nat and n :: nat where
  receive:
    "tx_open s \<Longrightarrow> pending s = None \<Longrightarrow>
     read_frame (replicate n 0) n None (conn s) = (Inr (Data buf), c') \<Longrightarrow>
     receive_row us buf (recv s) = Inr rv \<Longrightarrow>
     step us bits n s (s\<lparr>conn := c', recv := rv, pending := Some (last (accepted rv))\<rparr>)"
| send:
    "tx_open s \<Longrightarrow> pending s = Some r \<Longrightarrow> length (channel s) < CHANNEL_BOUND \<Longrightarrow>
     step us bits n s (s\<lparr>pending := None, channel := channel s @ [r]\<rparr>)"
| stop:
    "tx_open s \<Longrightarrow> pending s = None \<Longrightarrow>
     read_frame (replicate n 0) n None (conn s) = (Inr Exit, c') \<Longrightarrow>
     step us bits n s (s\<lparr>conn := c', tx_open := False\<rparr>)"
| abort_frame:
    "tx_open s \<Longrightarrow> pending s = None \<Longrightarrow>
     read_frame (replicate n 0) n None (conn s) = (Inl e, c') \<Longrightarrow>
     step us bits n s (s\<lparr>conn := c', tx_open := False, aborted := Some e\<rparr>)"
| abort_init:
    "tx_open s \<Longrightarrow> pending s = None \<Longrightarrow>
     read_frame (replicate n 0) n None (conn s) = (Inr (Init buf), c') \<Longrightarrow>
     step us bits n s (s\<lparr>conn := c', tx_open := False, aborted := Some (Bail ''Invalid message received'')\<rparr>)"
| abort_row:
    "tx_open s \<Longrightarrow> pending s = None \<Longrightarrow>
     read_frame (replicate n 0) n None (conn s) = (Inr (Data buf), c') \<Longrightarrow>
     receive_row us buf (recv s) = Inl e \<Longrightarrow>
     step us bits n s (s\<lparr>conn := c', tx_open := False, aborted := Some e\<rparr>)"
| take_row:
    "i < length (pool s) \<Longrightarrow> pool s ! i = Waiting \<Longrightarrow> channel s = r # rs \<Longrightarrow>
     step us bits n s (s\<lparr>channel := rs, pool := (pool s)[i := Holding r]\<rparr>)"
| add_ok:
    "i < length (pool s) \<Longrightarrow> pool s ! i = Holding (l, v) \<Longrightarrow>
     us_add_raw us l v bits (rindex (recv s)) = Inr ix \<Longrightarrow>
     step us bits n s
       (s\<lparr>recv := (recv s)\<lparr>rindex := ix\<rparr>, pool := (pool s)[i := Waiting], added := added s @ [(l, v)]\<rparr>)"
| add_err:
    "i < length (pool s) \<Longrightarrow> pool s ! i = Holding (l, v) \<Longrightarrow>
     us_add_raw us l v bits (rindex (recv s)) = Inl e \<Longrightarrow>
     step us bits n s (s\<lparr>pool := (pool s)[i := Gave_Up (l, v) e]\<rparr>)"
| leave:
    "i < length (pool s) \<Longrightarrow> pool s ! i = Waiting \<Longrightarrow> channel s = [] \<Longrightarrow> \<not> tx_open s \<Longrightarrow>
     step us bits n s (s\<lparr>pool := (pool s)[i := Finished]\<rparr>)"

definition runs :: "'ix usearch \<Rightarrow> nat \<Rightarrow> nat \<Rightarrow> 'ix session \<Rightarrow> 'ix session \<Rightarrow> bool" where
  "runs us bits n = (step us bits n)\<^sup>*\<^sup>*"

text \<open>
  The loop over the join handles waits for every worker to end; \<^verbatim>\<open>join\<close> reports a panic of the
  thread and not the \<^verbatim>\<open>Err\<close> its closure returned, so a worker that gave up counts as joined.
\<close>

fun joinable :: "worker \<Rightarrow> bool" where
  "joinable Waiting = False"
| "joinable (Holding r) = False"
| "joinable Finished = True"
| "joinable (Gave_Up r e) = True"

definition joined :: "'ix session \<Rightarrow> bool" where
  "joined s = (\<not> tx_open s \<and> aborted s = None \<and> list_all joinable (pool s))"

section \<open>Sending the index\<close>

definition send_index :: "'ix usearch \<Rightarrow> 'ix \<Rightarrow> (connection, unit) prog" where
  "send_index us ix =
    (let tuple_count = word_of_nat (us_size us ix) :: u64 in
     seq (write_data (u64_to_le_bytes tuple_count))
     (and_then (lift_r (us_save us ix)) (\<lambda>index_buffer.
      seq (write_data (u64_to_le_bytes (word_of_nat (length index_buffer))))
          (write_data_all index_buffer))))"

text \<open>What one call of \<^verbatim>\<open>create_streaming_usearch_index\<close> may return, over every interleaving.\<close>

inductive creates :: "'ix usearch \<Rightarrow> nat \<Rightarrow> connection \<Rightarrow> unit result \<Rightarrow> connection \<Rightarrow> bool"
  for us :: "'ix usearch" and num_cores :: nat where
  refused:
    "initialize_index us c = (Inl e, c') \<Longrightarrow> creates us num_cores c (Inl e) c'"
| aborts:
    "initialize_index us c = (Inr (bits, ix), c1) \<Longrightarrow>
     runs us bits (expected_payload_size (us_dimensions us ix) bits) (spawn_session us num_cores ix c1) s \<Longrightarrow>
     aborted s = Some e \<Longrightarrow> creates us num_cores c (Inl e) (conn s)"
| completes:
    "initialize_index us c = (Inr (bits, ix), c1) \<Longrightarrow>
     runs us bits (expected_payload_size (us_dimensions us ix) bits) (spawn_session us num_cores ix c1) s \<Longrightarrow>
     joined s \<Longrightarrow> send_index us (rindex (recv s)) (conn s) = (r, c') \<Longrightarrow>
     creates us num_cores c r c'"

section \<open>The accept loop\<close>

definition error_frame :: "string \<Rightarrow> bytes" where
  "error_frame msg =
    (let error_bytes = map (\<lambda>ch. word_of_nat (of_char ch)) msg :: bytes;
         error_header = u32_to_le_bytes ERR_MSG;
         error_msg_len = u32_to_le_bytes (word_of_nat (length error_bytes))
     in error_header @ error_msg_len @ error_bytes)"

text \<open>
  One accepted connection, with \<open>(r, c)\<close> what \<^verbatim>\<open>create_streaming_usearch_index\<close> returned on it and \<open>t1\<close>,
  \<open>t2\<close>, \<open>t3\<close> the clock when each status is set. The result lists the statuses in the order they
  were visible to the status server.
\<close>

definition handle_connection ::
  "nat \<Rightarrow> nat \<Rightarrow> nat \<Rightarrow> unit result \<Rightarrow> connection \<Rightarrow> ServerContext \<Rightarrow>
   ServerContext list \<times> ServerContext \<times> connection" where
  "handle_connection t1 t2 t3 r c ctx =
    (let ctx1 = set_status InProgress t1 ctx in
     case r of
       Inl e \<Rightarrow>
         (let ctx2 = set_status Failed t2 ctx1;
              c' = snd (write_data (error_frame (error_text e)) c);
              ctx3 = set_status Succeded t3 ctx2
          in ([ctx1, ctx2, ctx3], ctx3, c'))
     | Inr _ \<Rightarrow>
         (let ctx3 = set_status Succeded t3 ctx1 in ([ctx1, ctx3], ctx3, c)))"

fun status_code :: "ServerStatus \<Rightarrow> nat" where
  "status_code Idle = 0"
| "status_code InProgress = 1"
| "status_code Failed = 2"
| "status_code Succeded = 3"

definition get_status :: "ServerContext \<Rightarrow> string" where
  "get_status ctx =
    ''{'' @ [CHR 0x22] @ ''status'' @ [CHR 0x22] @ '':'' @ nat_digits (status_code (status ctx)) @
    '','' @ [CHR 0x22] @ ''status_updated_at'' @ [CHR 0x22] @ '':'' @
    nat_digits (status_updated_at ctx) @ ''}''"

section \<open>Rows are neither lost nor duplicated\<close>

fun held :: "worker \<Rightarrow> row multiset" where
  "held Waiting = {#}"
| "held (Holding r) = {#r#}"
| "held Finished = {#}"
| "held (Gave_Up r e) = {#r#}"

definition conserved :: "'ix session \<Rightarrow> bool" where
  "conserved s \<longleftrightarrow>
    mset (accepted (recv s)) =
      mset (added s) + mset (channel s) + (case pending s of None \<Rightarrow> {#} | Some r \<Rightarrow> {#r#})
      + (\<Sum>w \<leftarrow> pool s. held w)"

lemma held_update:
  "i < length p \<Longrightarrow> (\<Sum>w \<leftarrow> p[i := w']. held w) + held (p ! i) = (\<Sum>w \<leftarrow> p. held w) + held w'"
proof (induction p arbitrary: i)
  case (Cons a p)
  then show ?case by (cases i) (auto simp: ac_simps)
qed simp

lemma receive_row_accepted:
  "receive_row us buf st = Inr rv \<Longrightarrow> \<exists>r. accepted rv = accepted st @ [r]"
  by (auto simp: receive_row_def Let_def and_then_r_eq_Inr split: if_splits)

lemma step_conserved: "step us bits n s s' \<Longrightarrow> conserved s \<Longrightarrow> conserved s'"
proof (induction rule: step.induct)
  case (receive s buf c' rv)
  then show ?case
    using receive_row_accepted[OF receive(4)] by (auto simp: conserved_def ac_simps)
next
  case (take_row i s r rs)
  then show ?case
    using held_update[OF take_row(1), of "Holding r"] by (auto simp: conserved_def ac_simps)
next
  case (add_ok i s l v ix)
  then show ?case
    using held_update[OF add_ok(1), of Waiting] by (auto simp: conserved_def ac_simps)
next
  case (add_err i s l v e)
  then show ?case
    using held_update[OF add_err(1), of "Gave_Up (l, v) e"] by (auto simp: conserved_def ac_simps)
next
  case (leave i s)
  then show ?case
    using held_update[OF leave(1), of Finished] by (auto simp: conserved_def ac_simps)
qed (auto simp: conserved_def ac_simps)


lemma sum_list_held_empty: "(\<And>w. w \<in> set p \<Longrightarrow> held w = {#}) \<Longrightarrow> (\<Sum>w \<leftarrow> p. held w) = {#}"
  by (induction p) auto

lemma spawn_conserved: "conserved (spawn_session us k ix c)"
  unfolding conserved_def
  by (subst sum_list_held_empty) (auto simp: spawn_session_def start_receiver_def)

text \<open>Threads only ever see a closed channel with nothing pending, and leave it empty.\<close>

definition channel_wf :: "'ix session \<Rightarrow> bool" where
  "channel_wf s \<longleftrightarrow>
    (\<not> tx_open s \<longrightarrow> pending s = None) \<and>
    (Finished \<in> set (pool s) \<longrightarrow> \<not> tx_open s \<and> channel s = []) \<and>
    length (channel s) \<le> CHANNEL_BOUND"

lemma Finished_in_update:
  "Finished \<in> set (p[i := w]) \<Longrightarrow> w \<noteq> Finished \<Longrightarrow> Finished \<in> set p"
  using set_update_subset_insert[of p i w] by auto

lemma step_channel_wf: "step us bits n s s' \<Longrightarrow> channel_wf s \<Longrightarrow> channel_wf s'"
  by (induction rule: step.induct) (auto simp: channel_wf_def dest: Finished_in_update)

lemma spawn_channel_wf: "channel_wf (spawn_session us k ix c)"
  by (simp add: channel_wf_def spawn_session_def)

lemma step_pool_length: "step us bits n s s' \<Longrightarrow> length (pool s') = length (pool s)"
  by (induction rule: step.induct) auto

text \<open>The rows the connection thread accepts are those of the receive loop, whatever the workers do.\<close>

definition collect :: "bytes \<Rightarrow> row list \<Rightarrow> row list result" where
  "collect buf acc = and_then_r (parse_tuple buf) (\<lambda>r. Inr (acc @ [r]))"

definition remaining :: "nat \<Rightarrow> 'ix session \<Rightarrow> row list result" where
  "remaining n s =
    (if tx_open s then fst (frame_loop n collect (accepted (recv s)) (conn s))
     else Inr (accepted (recv s)))"

lemma receive_row_collect:
  "receive_row us buf st = Inr rv \<Longrightarrow> collect buf (accepted st) = Inr (accepted rv)"
  by (auto simp: receive_row_def collect_def Let_def and_then_r_eq_Inr split: if_splits)

lemma step_remaining:
  "step us bits n s s' \<Longrightarrow> aborted s' = None \<Longrightarrow> aborted s = None \<and> remaining n s' = remaining n s"
proof (induction rule: step.induct)
  case (receive s buf c' rv)
  have "frame_loop n collect (accepted (recv s)) (conn s) = frame_loop n collect (accepted rv) c'"
    using receive(3) receive_row_collect[OF receive(4)]
    by (subst frame_loop.simps) simp
  with receive show ?case by (simp add: remaining_def)
next
  case (stop s c')
  have "frame_loop n collect (accepted (recv s)) (conn s) = (Inr (accepted (recv s)), c')"
    using stop(3) by (subst frame_loop.simps) simp
  with stop show ?case by (simp add: remaining_def)
qed (auto simp: remaining_def)

lemma runs_invariant:
  assumes "runs us bits n s s'" "conserved s" "channel_wf s"
  shows "conserved s' \<and> channel_wf s' \<and> length (pool s') = length (pool s)
    \<and> (aborted s' = None \<longrightarrow> aborted s = None \<and> remaining n s' = remaining n s)"
  using assms(1) unfolding runs_def
proof (induction rule: rtranclp_induct)
  case (step t u)
  then show ?case
    using step_conserved step_channel_wf step_pool_length step_remaining by metis
qed (use assms(2,3) in simp)

lemma collect_received_rows:
  "fold (\<lambda>f r. and_then_r r (collect f)) (map encode_row rows) (Inr acc) = Inr (acc @ rows)"
  by (induction rows arbitrary: acc) (simp_all add: collect_def)

lemma joined_added:
  assumes "conserved s" "channel_wf s" "joined s" "pool s \<noteq> []"
    and "\<forall>w \<in> set (pool s). \<forall>r e. w \<noteq> Gave_Up r e"
  shows "mset (added s) = mset (accepted (recv s))"
proof -
  have all: "w = Finished" if "w \<in> set (pool s)" for w
    by (rule worker.exhaust[of w]) (use that assms(3,5) in \<open>auto simp: joined_def list_all_iff\<close>)
  then have "(\<Sum>w \<leftarrow> pool s. held w) = {#}"
    by (intro sum_list_held_empty) (metis held.simps(3))
  moreover have "Finished \<in> set (pool s)" using all assms(4) by (cases "pool s") auto
  ultimately show ?thesis
    using assms(1-3) by (auto simp: conserved_def channel_wf_def joined_def)
qed

text \<open>
  C2. Whatever way the connection thread and the workers are interleaved, and whatever way the
  stream is segmented (frame headers whole), a build that ends with all workers joined and none of
  them refused by the index has added every row the client sent exactly once.
\<close>

theorem build_adds_every_row:
  assumes "runs us bits n (spawn_session us num_cores ix (c\<lparr>inbound := map Segment segs\<rparr>)) s"
    and "n = expected_payload_size (us_dimensions us ix) bits" "0 < num_cores"
    and "[] \<notin> set segs"
    and "concat segs = concat (map encode_row rows) @ u32_to_le_bytes END_MSG @ rest"
    and "\<forall>r \<in> set rows. 8 + length (snd r) = n \<and> plain_label (fst r)"
    and "headers_whole (map (\<lambda>r. 8 + length (snd r)) rows @ [4]) segs"
    and "joined s" "\<forall>w \<in> set (pool s). \<forall>r e. w \<noteq> Gave_Up r e"
  shows "mset (added s) = mset rows \<and> accepted (recv s) = rows"
proof -
  let ?s0 = "spawn_session us num_cores ix (c\<lparr>inbound := map Segment segs\<rparr>)"
  have inv: "conserved s" "channel_wf s" "length (pool s) = length (pool ?s0)"
    "remaining n s = remaining n ?s0"
    using runs_invariant[OF assms(1) spawn_conserved spawn_channel_wf] assms(8)
    by (auto simp: joined_def)
  have "remaining n ?s0 = fst (frame_loop n collect [] (c\<lparr>inbound := map Segment segs\<rparr>))"
    by (simp add: remaining_def spawn_session_def start_receiver_def)
  also have "\<dots> = fold (\<lambda>f r. and_then_r r (collect f)) (map encode_row rows) (Inr [])"
    by (rule frame_loop_rows[OF assms(2,4-7)])
  also have "\<dots> = Inr rows" by (simp only: collect_received_rows append_Nil)
  finally have acc: "accepted (recv s) = rows"
    using inv(4) assms(8) by (simp add: remaining_def joined_def)
  have "pool s \<noteq> []" using inv(3) assms(3) by (auto simp: spawn_session_def)
  from joined_added[OF inv(1,2) assms(8) this assms(9)] acc show ?thesis by simp
qed


section \<open>Progress and termination\<close>

inductive_simps step_simps: "step us bits n s s'"

lemma worker_can_move:
  assumes "w \<in> set (pool s)" "w = Holding r \<or> w = Waiting \<and> (channel s \<noteq> [] \<or> \<not> tx_open s)"
  shows "\<exists>s'. step us bits n s s'"
proof -
  obtain i where i: "i < length (pool s)" "pool s ! i = w"
    using assms(1) by (auto simp: in_set_conv_nth)
  from assms(2) show ?thesis
  proof (elim disjE conjE)
    assume w: "w = Holding r"
    obtain l v where r: "r = (l, v)" by (cases r) auto
    show ?thesis
      using i w r step.add_ok[of i s l v us bits] step.add_err[of i s l v us bits]
      by (cases "us_add_raw us l v bits (rindex (recv s))") blast+
  next
    assume "w = Waiting" "channel s \<noteq> []"
    then show ?thesis using i step.take_row[of i s] by (cases "channel s") blast+
  next
    assume "w = Waiting" "\<not> tx_open s"
    then show ?thesis
      using i step.take_row[of i s] step.leave[of i s] by (cases "channel s") blast+
  qed
qed

lemma receiver_can_move:
  assumes "tx_open s" "pending s = None"
  shows "\<exists>s'. step us bits n s s'"
proof -
  obtain m c' where rf: "read_frame (replicate n 0) n None (conn s) = (m, c')" by fastforce
  show ?thesis
  proof (cases m)
    case (Inl e)
    then show ?thesis using step.abort_frame[OF assms] rf by blast
  next
    case (Inr msg)
    show ?thesis
    proof (cases msg)
      case (Init buf)
      then show ?thesis using step.abort_init[OF assms] rf Inr by blast
    next
      case (Data buf)
      then show ?thesis
        using step.receive[OF assms] step.abort_row[OF assms] rf Inr
        by (cases "receive_row us buf (recv s)") blast+
    next
      case Exit
      then show ?thesis using step.stop[OF assms] rf Inr by blast
    qed
  qed
qed

lemma stuck_shape:
  assumes "channel_wf s" "\<not> (\<exists>s'. step us bits n s s')"
  shows "(\<not> tx_open s \<and> list_all joinable (pool s)) \<or>
    (\<forall>w \<in> set (pool s). \<exists>r e. w = Gave_Up r e)"
proof (cases "tx_open s")
  case False
  have "joinable w" if "w \<in> set (pool s)" for w
    by (rule worker.exhaust[of w]) (use worker_can_move[OF that] assms(2) False in auto)
  with False show ?thesis by (simp add: list_all_iff)
next
  case True
  obtain r where r: "pending s = Some r"
    using receiver_can_move[OF True] assms(2) by (cases "pending s") blast+
  then have "\<not> length (channel s) < CHANNEL_BOUND"
    using step.send[OF True r] assms(2) by blast
  then have "channel s \<noteq> []" by (auto simp: CHANNEL_BOUND_def)
  have "\<exists>r e. w = Gave_Up r e" if "w \<in> set (pool s)" for w
    by (rule worker.exhaust[of w])
      (use worker_can_move[OF that] assms True \<open>channel s \<noteq> []\<close> that in \<open>auto simp: channel_wf_def\<close>)
  then show ?thesis by blast
qed

fun worker_work :: "worker \<Rightarrow> nat" where
  "worker_work Waiting = 1"
| "worker_work (Holding r) = 2"
| "worker_work Finished = 0"
| "worker_work (Gave_Up r e) = 0"

definition work :: "'ix session \<Rightarrow> nat" where
  "work s = 5 * inbound_size (conn s) + (if pending s = None then 0 else 4) + 3 * length (channel s)
    + (if tx_open s then 1 else 0) + (\<Sum>w \<leftarrow> pool s. worker_work w)"

lemma work_update:
  "i < length p \<Longrightarrow>
   (\<Sum>w \<leftarrow> p[i := w']. worker_work w) + worker_work (p ! i) = (\<Sum>w \<leftarrow> p. worker_work w) + worker_work w'"
proof (induction p arbitrary: i)
  case (Cons a p)
  then show ?case by (cases i) auto
qed simp

lemma read_data_size_any: "read_data n c = (r, c') \<Longrightarrow> inbound_size c' \<le> inbound_size c"
  by (auto simp: read_data_def inbound_size_def split: list.splits arrival.splits if_splits)

lemma read_frame_size_any: "read_frame buf n h c = (r, c') \<Longrightarrow> inbound_size c' \<le> inbound_size c"
  by (auto simp: read_frame_def and_then_def Let_def split: prod.splits sum.splits if_splits
      dest!: read_data_size_any read_data_exact_size)

lemma step_work: "step us bits n s s' \<Longrightarrow> work s' < work s"
proof (induction rule: step.induct)
  case (receive s buf c' rv)
  then show ?case using read_frame_size[OF receive(3)] by (simp add: work_def)
next
  case (stop s c')
  then show ?case using read_frame_size[OF stop(3)] by (simp add: work_def)
next
  case (abort_frame s e c')
  then show ?case using read_frame_size_any[OF abort_frame(3)] by (simp add: work_def)
next
  case (abort_init s buf c')
  then show ?case using read_frame_size[OF abort_init(3)] by (simp add: work_def)
next
  case (abort_row s buf c' e)
  then show ?case using read_frame_size[OF abort_row(3)] by (simp add: work_def)
next
  case (take_row i s r rs)
  then show ?case using work_update[OF take_row(1), of "Holding r"] by (simp add: work_def)
next
  case (add_ok i s l v ix)
  then show ?case using work_update[OF add_ok(1), of Waiting] by (simp add: work_def)
next
  case (add_err i s l v e)
  then show ?case using work_update[OF add_err(1), of "Gave_Up (l, v) e"] by (simp add: work_def)
next
  case (leave i s)
  then show ?case using work_update[OF leave(1), of Finished] by (simp add: work_def)
qed (simp add: work_def)


interpretation build: decreasing "step us bits n" work for us :: "'ix usearch" and bits n
  by unfold_locales (rule step_work)

lemma sum_worker_work_Waiting: "(\<Sum>w \<leftarrow> replicate k Waiting. worker_work w) = k"
  by (simp add: sum_list_replicate)

text \<open>
  C30. A build always ends: from the start of a session no run takes more than five steps per byte
  that arrives, one per worker and one more, whatever the interleaving and whatever the index does.
\<close>

theorem build_terminates:
  assumes "(step us bits n ^^ k) (spawn_session us num_cores ix c) s"
  shows "k \<le> 5 * inbound_size c + num_cores + 1"
  using build.run_bounded[OF assms] by (simp add: work_def spawn_session_def sum_list_replicate)

text \<open>
  C32. A build that can take no further step has either closed the channel with every worker joinable,
  or every worker of the pool has given up with an error of the index.
\<close>

theorem build_final_states:
  assumes "runs us bits n (spawn_session us num_cores ix c) s" "\<not> (\<exists>s'. step us bits n s s')"
  shows "(\<not> tx_open s \<and> list_all joinable (pool s)) \<or>
    (\<forall>w \<in> set (pool s). \<exists>r e. w = Gave_Up r e)"
  using runs_invariant[OF assms(1) spawn_conserved spawn_channel_wf] assms(2)
  by (intro stuck_shape) auto

text \<open>
  When every worker has given up, the channel is full and a received row waits to be sent, the
  connection thread is blocked for ever: the receiving end of the channel is still owned by the
  function, so \<^verbatim>\<open>send\<close> neither succeeds nor fails.
\<close>

theorem build_blocks_without_workers:
  assumes "tx_open s" "pending s = Some r" "length (channel s) = CHANNEL_BOUND"
    and "list_all (\<lambda>w. \<exists>r e. w = Gave_Up r e) (pool s)"
  shows "\<not> step us bits n s s'"
proof -
  have "\<exists>r e. pool s ! i = Gave_Up r e" if "i < length (pool s)" for i
    using assms(4) that by (auto simp: list_all_length)
  then show ?thesis
    using assms(1-3) by (auto simp: step_simps) (metis worker.distinct)+
qed

section \<open>Reporting\<close>

text \<open>Runs with one row and one worker, on an index that refuses to insert beyond its capacity.\<close>

abbreviation one_row_stream :: connection where
  "one_row_stream \<equiv> \<lparr>inbound = [Segment (encode_row (1, [7])), Segment (u32_to_le_bytes END_MSG)],
     windows = [], outbound = []\<rparr>"

abbreviation small_index :: "nat \<Rightarrow> row list \<Rightarrow> demo_index" where
  "small_index cap rows \<equiv> \<lparr>dm_dims = 1, dm_cap = cap, dm_rows = rows\<rparr>"

definition one_row_session :: "nat \<Rightarrow> arrival list \<Rightarrow> row list \<Rightarrow> bool \<Rightarrow> row list \<Rightarrow> worker \<Rightarrow> demo_index session" where
  "one_row_session cap as ch op ad w =
    \<lparr>conn = \<lparr>inbound = as, windows = [], outbound = []\<rparr>,
     recv = \<lparr>received_rows = 1, current_capacity = cap, rindex = small_index cap ad, accepted = [(1, [7])]\<rparr>,
     pending = None, channel = ch, tx_open = op, aborted = None, pool = [w], added = ad\<rparr>"

lemma one_row_frames:
  "read_frame (replicate 9 0) 9 None one_row_stream =
    (Inr (Data (encode_row (1, [7]))),
     \<lparr>inbound = [Segment (u32_to_le_bytes END_MSG)], windows = [], outbound = []\<rparr>)"
  "read_frame (replicate 9 0) 9 None
      \<lparr>inbound = [Segment (u32_to_le_bytes END_MSG)], windows = [], outbound = []\<rparr> =
    (Inr Exit, \<lparr>inbound = [], windows = [], outbound = []\<rparr>)"
proof -
  have "length (encode_row (1, [7])) = 9" by simp
  then show "read_frame (replicate 9 0) 9 None one_row_stream =
      (Inr (Data (encode_row (1, [7]))),
       \<lparr>inbound = [Segment (u32_to_le_bytes END_MSG)], windows = [], outbound = []\<rparr>)"
    by (simp add: read_frame_def and_then_def read_data_def PROTOCOL_HEADER_SIZE_def Let_def
        take4_label END_MSG_def INIT_MSG_def del: encode_row.simps)
qed (simp add: read_frame_def and_then_def read_data_def PROTOCOL_HEADER_SIZE_def Let_def)

lemma one_row_taken:
  "(step demo 8 9 ^^ 3) (spawn_session demo 1 (small_index cap []) one_row_stream)
    (one_row_session cap [Segment (u32_to_le_bytes END_MSG)] [] True [] (Holding (1, [7])))"
proof -
  let ?row = "(1, [7]) :: row"
  let ?s0 = "spawn_session demo 1 (small_index cap []) one_row_stream"
  let ?rv = "\<lparr>received_rows = 1, current_capacity = cap, rindex = small_index cap [], accepted = [?row]\<rparr>"
  let ?c1 = "\<lparr>inbound = [Segment (u32_to_le_bytes END_MSG)], windows = [], outbound = []\<rparr>"
  let ?s1 = "?s0\<lparr>conn := ?c1, recv := ?rv, pending := Some ?row\<rparr>"
  let ?s2 = "?s1\<lparr>pending := None, channel := [?row]\<rparr>"
  have "receive_row demo (encode_row ?row) (start_receiver demo (small_index cap [])) = Inr ?rv"
    by (cases cap) (simp_all add: receive_row_def start_receiver_def demo_def del: encode_row.simps)
  then have "step demo 8 9 ?s0 ?s1"
    using step.receive[of ?s0 9 "encode_row ?row" ?c1 demo ?rv 8] one_row_frames
    by (simp add: spawn_session_def del: encode_row.simps)
  moreover have "step demo 8 9 ?s1 ?s2"
    using step.send[of ?s1 ?row demo 8 9] by (simp add: spawn_session_def CHANNEL_BOUND_def)
  moreover have "step demo 8 9 ?s2 (one_row_session cap [Segment (u32_to_le_bytes END_MSG)] [] True [] (Holding ?row))"
    using step.take_row[of 0 ?s2 ?row "[]" demo 8 9]
    by (simp add: spawn_session_def one_row_session_def)
  ultimately show ?thesis
    unfolding numeral_3_eq_3 by (meson relpowp_0_I relpowp_Suc_I)
qed

lemma one_row_close:
  "step demo 8 9 (one_row_session cap [Segment (u32_to_le_bytes END_MSG)] [] True ad w)
    (one_row_session cap [] [] False ad w)"
  using step.stop[of "one_row_session cap [Segment (u32_to_le_bytes END_MSG)] [] True ad w" 9 _ demo 8]
    one_row_frames(2) by (simp add: one_row_session_def)

definition lost_row_session :: "demo_index session" where
  "lost_row_session =
    one_row_session 0 [] [] False [] (Gave_Up (1, [7]) (IoError ''reserve capacity ahead of insertions''))"

definition full_session :: "demo_index session" where
  "full_session = one_row_session 2 [] [] False [(1, [7])] Finished"

lemma lost_row_run: "runs demo 8 9 (spawn_session demo 1 (small_index 0 []) one_row_stream) lost_row_session"
proof -
  let ?s = "one_row_session 0 [Segment (u32_to_le_bytes END_MSG)] [] True []"
  let ?g = "Gave_Up (1, [7]) (IoError ''reserve capacity ahead of insertions'')"
  have "step demo 8 9 (?s (Holding (1, [7]))) (?s ?g)"
    using step.add_err[of 0 "?s (Holding (1, [7]))" 1 "[7]" demo 8 _ 9]
    by (simp add: one_row_session_def demo_def)
  moreover have "step demo 8 9 (?s ?g) lost_row_session"
    unfolding lost_row_session_def by (rule one_row_close)
  ultimately show ?thesis
    using relpowp_imp_rtranclp[OF one_row_taken[of 0]]
    unfolding runs_def by (meson rtranclp.rtrancl_into_rtrancl)
qed

lemma full_run: "runs demo 8 9 (spawn_session demo 1 (small_index 2 []) one_row_stream) full_session"
proof -
  let ?s = "one_row_session 2 [Segment (u32_to_le_bytes END_MSG)] [] True"
  let ?t = "one_row_session 2 [] [] False [(1, [7])]"
  have "step demo 8 9 (?s [] (Holding (1, [7]))) (?s [(1, [7])] Waiting)"
    using step.add_ok[of 0 "?s [] (Holding (1, [7]))" 1 "[7]" demo 8 _ 9]
    by (simp add: one_row_session_def demo_def)
  moreover have "step demo 8 9 (?s [(1, [7])] Waiting) (?t Waiting)"
    by (rule one_row_close)
  moreover have "step demo 8 9 (?t Waiting) full_session"
    using step.leave[of 0 "?t Waiting" demo 8 9] by (simp add: one_row_session_def full_session_def)
  ultimately show ?thesis
    using relpowp_imp_rtranclp[OF one_row_taken[of 2]]
    unfolding runs_def by (meson rtranclp.rtrancl_into_rtrancl)
qed

theorem build_adds_every_row_witness:
  "mset (added full_session) = mset [(1, [7])] \<and> accepted (recv full_session) = [(1, [7])]"
proof (rule build_adds_every_row[where segs = "[encode_row (1, [7]), u32_to_le_bytes END_MSG]"
      and c = one_row_stream and rest = "[]" and us = demo and ix = "small_index 2 []" and bits = 8])
  show "runs demo 8 9 (spawn_session demo 1 (small_index 2 [])
      (one_row_stream\<lparr>inbound := map Segment [encode_row (1, [7]), u32_to_le_bytes END_MSG]\<rparr>)) full_session"
    using full_run by simp
qed (simp_all add: demo_def demo_labels expected_payload_size_def CHAR_BITS_def LABEL_SIZE_def
    u64_to_le_bytes_nonempty u32_to_le_bytes_nonempty full_session_def one_row_session_def joined_def)

theorem build_terminates_witness:
  "(step demo 8 9 ^^ 3) (spawn_session demo 1 (small_index 2 []) one_row_stream)
      (one_row_session 2 [Segment (u32_to_le_bytes END_MSG)] [] True [] (Holding (1, [7])))
    \<and> 3 \<le> 5 * inbound_size one_row_stream + 1 + 1"
  using one_row_taken[of 2] build_terminates[OF one_row_taken[of 2]] by blast

theorem build_final_states_witness:
  "(\<not> tx_open lost_row_session \<and> list_all joinable (pool lost_row_session)) \<or>
    (\<forall>w \<in> set (pool lost_row_session). \<exists>r e. w = Gave_Up r e)"
proof (rule build_final_states[OF lost_row_run])
  show "\<not> (\<exists>s'. step demo 8 9 lost_row_session s')"
    by (auto simp: step_simps lost_row_session_def one_row_session_def)
qed

theorem build_blocks_without_workers_witness:
  "\<nexists>s'. step demo 8 9
      ((one_row_session 1 [] (replicate 2000 (0, [1])) True [] (Gave_Up (1, [7]) (IoError ''x'')))
         \<lparr>pending := Some (2, [3])\<rparr>) s'"
  using build_blocks_without_workers[of "(one_row_session 1 [] (replicate 2000 (0, [1])) True []
      (Gave_Up (1, [7]) (IoError ''x'')))\<lparr>pending := Some (2, [3])\<rparr>" "(2, [3])" demo 8 9]
  by (simp add: one_row_session_def CHANNEL_BOUND_def)

text \<open>
  A build may report success although a row is missing: with one worker and an index that
  refuses to insert beyond its reserved capacity, reserved capacity zero stays zero, the worker
  gives up on the only row, the join loop does not look at what the worker returned, and
  \<^verbatim>\<open>create_streaming_usearch_index\<close> still sends an (empty) index and returns \<^verbatim>\<open>Ok\<close>.
\<close>

theorem build_reports_success_without_row:
  "\<exists>s. runs demo 8 9 (spawn_session demo 1 (small_index 0 []) one_row_stream) s \<and> joined s
    \<and> accepted (recv s) = [(1, [7])] \<and> added s = []
    \<and> fst (send_index demo (rindex (recv s)) (conn s)) = Inr ()"
proof (intro exI conjI)
  show "runs demo 8 9 (spawn_session demo 1 (small_index 0 []) one_row_stream) lost_row_session"
    by (rule lost_row_run)
qed (simp_all add: lost_row_session_def one_row_session_def joined_def send_index_def demo_def seq_def
    and_then_def write_data_def write_data_all_def)

text \<open>What the client reads back: the number of tuples, the length of the file and the file.\<close>

definition read_reply :: "bytes \<Rightarrow> nat \<times> nat \<times> bytes" where
  "read_reply bs = (unat (u64_from_le_bytes (take 8 bs)), unat (u64_from_le_bytes (take 8 (drop 8 bs))), drop 16 bs)"

lemma write_all_to_complete:
  "(\<And>w. w \<in> set ws \<Longrightarrow> \<exists>k. w = Accept k \<and> 0 < k) \<Longrightarrow> \<exists>ws'. write_all_to bs ws = (Inr (), bs, ws')"
proof (induction bs ws rule: write_all_to.induct)
  case (3 bs n ws)
  then have "0 < n" by auto
  with 3 show ?case by (cases "bs = []") fastforce+
qed auto

text \<open>
  C39. The reply of a successful build is read back exactly: the number of indexed tuples, the
  length of the index file and its bytes, in whatever pieces the transport accepts the file, as
  long as the two integers are each accepted whole.
\<close>

theorem send_index_reply:
  assumes "us_save us ix = Inr file" "us_size us ix < 2 ^ 64" "length file < 2 ^ 64"
    and "8 \<le> k1" "8 \<le> k2" "\<forall>w \<in> set ws. \<exists>k. w = Accept k \<and> 0 < k"
  shows "\<exists>c'. send_index us ix \<lparr>inbound = i, windows = Accept k1 # Accept k2 # ws, outbound = []\<rparr> = (Inr (), c')
    \<and> read_reply (outbound c') = (us_size us ix, length file, file)"
proof -
  obtain ws' where "write_all_to file ws = (Inr (), file, ws')"
    using write_all_to_complete[of ws "file"] assms(6) by blast
  then show ?thesis
    using assms
    by (simp add: send_index_def Let_def seq_def and_then_def write_data_def write_data_all_def
        read_reply_def unat_of_nat)
qed

theorem send_index_reply_witness:
  "\<exists>c'. send_index demo (small_index 2 [(1, [7])])
      \<lparr>inbound = [], windows = [Accept 8, Accept 8, Accept 4, Accept 1], outbound = []\<rparr> = (Inr (), c')
    \<and> read_reply (outbound c') = (1, 9, encode_row (1, [7]))"
  using send_index_reply[of demo "small_index 2 [(1, [7])]" "encode_row (1, [7])" 8 8 "[Accept 4, Accept 1]" "[]"]
  by (simp add: demo_def)

text \<open>
  The two integers are written with a single \<^verbatim>\<open>write\<close> whose count is ignored: when the transport
  accepts fewer than eight bytes of the tuple count, the build still returns success although
  the reply is shorter than the client expects.
\<close>

theorem send_index_ignores_short_write:
  assumes "us_save us ix = Inr file" "k < 8"
  shows "\<exists>c'. send_index us ix \<lparr>inbound = i, windows = [Accept k], outbound = []\<rparr> = (Inr (), c')
    \<and> length (outbound c') = k + 8 + length file \<and> length (outbound c') < 16 + length file"
  using assms
  by (simp add: send_index_def Let_def seq_def and_then_def write_data_def write_data_all_def)

theorem send_index_ignores_short_write_witness:
  "\<exists>c'. send_index demo (small_index 2 []) \<lparr>inbound = [], windows = [Accept 3], outbound = []\<rparr> = (Inr (), c')
    \<and> length (outbound c') = 3 + 8 + length ([]::bytes) \<and> length (outbound c') < 16 + length ([]::bytes)"
  using send_index_ignores_short_write[of demo "small_index 2 []" "[]" 3 "[]"] by (simp add: demo_def)

text \<open>
  A failed build is reported to the status server as \<^verbatim>\<open>Failed\<close> only until the next statement: the
  status the connection ends with is \<^verbatim>\<open>Succeded\<close> for every outcome.
\<close>

lemma handle_connection_final_status:
  "status (fst (snd (handle_connection t1 t2 t3 r c ctx))) = Succeded"
  by (cases r) (simp_all add: handle_connection_def Let_def set_status_def)

end
