(* ===== verification/Postgres.thy ===== *)
theory Postgres
  imports Interfaces Utils
begin

text \<open>
  The database as the Rust clients see it. PostgreSQL is not part of the repository: it is an
  argument \<open>srv\<close> of every definition that talks to it, a function from the calls made so far and the
  current call to a response. A program extends the trace of calls; what it sends, in which order
  and what it does with each response is what the model fixes. SQL texts are those of the source
  up to white space; statement parameters are listed with the call.
\<close>

datatype 'f sql_value = SNull | SInt int | SText string | SFloats "'f list" | SBool bool | SDouble 'f | STexts "string list"

type_synonym 'f sql_row = "'f sql_value list"

datatype 'f db_call =
    Connect string
  | Begin
  | Commit
  | Execute string "'f sql_value list"
  | Query string "'f sql_value list"
  | QueryOne string "'f sql_value list"
  | BatchExecute string
  | CopyIn string
  | CopyData string
  | CopyFinish
  | Rollback

datatype 'f response = Done nat | Rows "'f sql_row list" | DbError string

type_synonym 'f server = "'f db_call list \<Rightarrow> 'f db_call \<Rightarrow> 'f response"

record 'f world =
  trace :: "'f db_call list"

definition call :: "'f server \<Rightarrow> 'f db_call \<Rightarrow> (('f, 'x) world_scheme, 'f response) prog" where
  "call srv c s =
    ((case srv (trace s) c of DbError e \<Rightarrow> Inl (IoError e) | r \<Rightarrow> Inr r), s\<lparr>trace := trace s @ [c]\<rparr>)"

definition do_call :: "'f server \<Rightarrow> 'f db_call \<Rightarrow> (('f, 'x) world_scheme, unit) prog" where
  "do_call srv c = seq (call srv c) (return ())"

definition query :: "'f server \<Rightarrow> string \<Rightarrow> 'f sql_value list \<Rightarrow> (('f, 'x) world_scheme, 'f sql_row list) prog" where
  "query srv q ps =
    and_then (call srv (Query q ps)) (\<lambda>r. case r of Rows rs \<Rightarrow> return rs | _ \<Rightarrow> return [])"

text \<open>\<^verbatim>\<open>query_one\<close> fails unless exactly one row comes back.\<close>

definition query_one :: "'f server \<Rightarrow> string \<Rightarrow> 'f sql_value list \<Rightarrow> (('f, 'x) world_scheme, 'f sql_row) prog" where
  "query_one srv q ps =
    and_then (call srv (QueryOne q ps)) (\<lambda>r. case r of
        Rows [row] \<Rightarrow> return row
      | _ \<Rightarrow> throw (IoError ''query returned an unexpected number of rows''))"

text \<open>Column access: \<^verbatim>\<open>row.get\<close> panics and \<^verbatim>\<open>row.try_get\<close> fails on a wrong type.\<close>

definition wrong_column :: error where
  "wrong_column = Panicked ''error retrieving column''"

fun value_int :: "'f sql_value \<Rightarrow> int result" where
  "value_int (SInt i) = Inr i"
| "value_int _ = Inl wrong_column"

fun value_text :: "'f sql_value \<Rightarrow> string result" where
  "value_text (SText t) = Inr t"
| "value_text _ = Inl wrong_column"

fun value_floats :: "'f sql_value \<Rightarrow> 'f list result" where
  "value_floats (SFloats v) = Inr v"
| "value_floats _ = Inl wrong_column"

fun value_opt_floats :: "'f sql_value \<Rightarrow> 'f list option result" where
  "value_opt_floats (SFloats v) = Inr (Some v)"
| "value_opt_floats SNull = Inr None"
| "value_opt_floats _ = Inl wrong_column"

fun value_bool :: "'f sql_value \<Rightarrow> bool result" where
  "value_bool (SBool b) = Inr b"
| "value_bool _ = Inl wrong_column"

fun value_double :: "'f sql_value \<Rightarrow> 'f result" where
  "value_double (SDouble x) = Inr x"
| "value_double _ = Inl wrong_column"

fun value_texts :: "'f sql_value \<Rightarrow> string list result" where
  "value_texts (STexts ts) = Inr ts"
| "value_texts _ = Inl wrong_column"

fun value_opt_text :: "'f sql_value \<Rightarrow> string option result" where
  "value_opt_text (SText t) = Inr (Some t)"
| "value_opt_text SNull = Inr None"
| "value_opt_text _ = Inl wrong_column"

definition column :: "nat \<Rightarrow> 'f sql_row \<Rightarrow> 'f sql_value result" where
  "column i row = (if i < length row then Inr (row ! i) else Inl wrong_column)"

definition get_int :: "nat \<Rightarrow> 'f sql_row \<Rightarrow> int result" where
  "get_int i row = and_then_r (column i row) value_int"

definition get_text :: "nat \<Rightarrow> 'f sql_row \<Rightarrow> string result" where
  "get_text i row = and_then_r (column i row) value_text"

definition get_floats :: "nat \<Rightarrow> 'f sql_row \<Rightarrow> 'f list result" where
  "get_floats i row = and_then_r (column i row) value_floats"

definition get_opt_floats :: "nat \<Rightarrow> 'f sql_row \<Rightarrow> 'f list option result" where
  "get_opt_floats i row = and_then_r (column i row) value_opt_floats"

definition get_bool :: "nat \<Rightarrow> 'f sql_row \<Rightarrow> bool result" where
  "get_bool i row = and_then_r (column i row) value_bool"

definition get_double :: "nat \<Rightarrow> 'f sql_row \<Rightarrow> 'f result" where
  "get_double i row = and_then_r (column i row) value_double"

definition get_texts :: "nat \<Rightarrow> 'f sql_row \<Rightarrow> string list result" where
  "get_texts i row = and_then_r (column i row) value_texts"

definition get_opt_text :: "nat \<Rightarrow> 'f sql_row \<Rightarrow> string option result" where
  "get_opt_text i row = and_then_r (column i row) value_opt_text"

text \<open>\<^verbatim>\<open>as usize\<close> of a signed integer, on a 64 bit target.\<close>

definition as_usize :: "int \<Rightarrow> nat" where
  "as_usize i = nat (i mod 2 ^ 64)"

text \<open>\<^verbatim>\<open>as i32\<close>, which keeps the low 32 bits.\<close>

definition as_i32 :: "int \<Rightarrow> int" where
  "as_i32 i = sint (word_of_int i :: 32 word)"

text \<open>A value whose subtraction would go below zero overflows and panics.\<close>

definition sub_usize :: "nat \<Rightarrow> nat \<Rightarrow> nat result" where
  "sub_usize a b =
    (if b \<le> a then Inr (a - b) else Inl (Panicked ''attempt to subtract with overflow''))"

definition div_usize :: "nat \<Rightarrow> nat \<Rightarrow> nat result" where
  "div_usize a b = (if b = 0 then Inl (Panicked ''attempt to divide by zero'') else Inr (a div b))"

section \<open>Composing programs\<close>

fun traverse_r :: "('a \<Rightarrow> 'b result) \<Rightarrow> 'a list \<Rightarrow> 'b list result" where
  "traverse_r f [] = Inr []"
| "traverse_r f (x # xs) =
    and_then_r (f x) (\<lambda>y. and_then_r (traverse_r f xs) (\<lambda>ys. Inr (y # ys)))"

fun for_each :: "('a \<Rightarrow> ('s, unit) prog) \<Rightarrow> 'a list \<Rightarrow> ('s, unit) prog" where
  "for_each f [] = return ()"
| "for_each f (x # xs) = seq (f x) (for_each f xs)"

text \<open>
  A rayon \<^verbatim>\<open>into_par_iter().map(..).collect()\<close>: every task runs, here in index order, and its result is
  kept; a panic of a task becomes a panic of the whole.
\<close>

fun run_tasks :: "('s, 'a) prog list \<Rightarrow> 's \<Rightarrow> 'a result list \<times> 's" where
  "run_tasks [] s = ([], s)"
| "run_tasks (p # ps) s =
    (case p s of (r, s1) \<Rightarrow> case run_tasks ps s1 of (rs, s2) \<Rightarrow> (r # rs, s2))"

fun is_panic :: "'a result \<Rightarrow> bool" where
  "is_panic (Inl (Panicked m)) = True"
| "is_panic _ = False"

definition par_tasks :: "('s, 'a) prog list \<Rightarrow> ('s, 'a list) prog" where
  "par_tasks ps s =
    (case run_tasks ps s of (rs, s') \<Rightarrow>
      (case filter is_panic rs of
         Inl e # _ \<Rightarrow> (Inl e, s')
       | _ \<Rightarrow> (traverse_r id rs, s')))"

text \<open>A program that depends on the calls made so far.\<close>

definition with_trace :: "('f db_call list \<Rightarrow> (('f, 'x) world_scheme, 'a) prog) \<Rightarrow> (('f, 'x) world_scheme, 'a) prog" where
  "with_trace f s = f (trace s) s"

section \<open>Lemmas\<close>

lemma with_trace_apply [simp, prog_simps]: "with_trace f s = f (trace s) s"
  by (simp add: with_trace_def)

lemma traverse_r_Inr_iff:
  "traverse_r f xs = Inr ys \<longleftrightarrow> length ys = length xs \<and> (\<forall>i < length xs. f (xs ! i) = Inr (ys ! i))"
proof (induction xs arbitrary: ys)
  case (Cons x xs)
  show ?case
    by (cases ys) (auto simp: and_then_r_eq_Inr Cons all_conj_distrib less_Suc_eq_0_disj nth_Cons')
qed auto

lemma traverse_r_all_ok:
  "(\<And>x. x \<in> set xs \<Longrightarrow> f x = Inr (g x)) \<Longrightarrow> traverse_r f xs = Inr (map g xs)"
  by (induction xs) auto

lemma traverse_r_length: "traverse_r f xs = Inr ys \<Longrightarrow> length ys = length xs"
  by (simp add: traverse_r_Inr_iff)

lemma traverse_r_Inl: "traverse_r f xs = Inl e \<Longrightarrow> \<exists>x \<in> set xs. f x = Inl e"
  by (induction xs) (auto simp: and_then_r_eq_Inl)

lemma as_usize_of_nat [simp]: "n < 2 ^ 64 \<Longrightarrow> as_usize (int n) = n"
  by (simp add: as_usize_def)

lemma as_i32_small: "0 \<le> i \<Longrightarrow> i < 2 ^ 31 \<Longrightarrow> as_i32 i = i"
  by (simp add: as_i32_def signed_of_int signed_take_bit_int_eq_self)

lemma do_call_trace: "\<exists>r. do_call srv c s = (r, s\<lparr>trace := trace s @ [c]\<rparr>)"
  by (simp add: do_call_def call_def seq_def and_then_def split: response.splits)

lemma do_call_ok_iff [ok_simps]:
  "do_call srv c s = (Inr u, s') \<longleftrightarrow>
    (\<forall>e. srv (trace s) c \<noteq> DbError e) \<and> s' = s\<lparr>trace := trace s @ [c]\<rparr>"
  by (cases "srv (trace s) c") (auto simp: do_call_def call_def prog_simps)

text \<open>Programs that change nothing but the trace, which they extend, whether they succeed or not.\<close>

named_theorems appends_intros \<open>programs that only extend the trace\<close>

definition appends :: "(('f, 'x) world_scheme, 'a) prog \<Rightarrow> bool" where
  "appends m \<longleftrightarrow> (\<forall>s. \<exists>t. snd (m s) = s\<lparr>trace := trace s @ t\<rparr>)"

lemma appendsD: "appends m \<Longrightarrow> m s = (r, s') \<Longrightarrow> \<exists>t. s' = s\<lparr>trace := trace s @ t\<rparr>"
  unfolding appends_def by (metis snd_conv)

lemma world_same: "\<exists>t. s = s\<lparr>trace := trace s @ t\<rparr>"
  by (rule exI[of _ "[]"]) simp

lemma appends_return [appends_intros]: "appends (return x)"
  using world_same by (auto simp: appends_def)

lemma appends_throw [appends_intros]: "appends (throw e)"
  using world_same by (auto simp: appends_def)

lemma appends_lift_r [appends_intros]: "appends (lift_r r)"
  using world_same by (auto simp: appends_def)

lemma appends_call [appends_intros]: "appends (call srv c)"
  by (auto simp: appends_def call_def)

lemma appends_and_then [appends_intros]:
  assumes "appends m" "\<And>x. appends (f x)"
  shows "appends (and_then m f)"
  unfolding appends_def
proof
  fix s
  obtain r s1 where m: "m s = (r, s1)" by fastforce
  from appendsD[OF assms(1) this] obtain t where t: "s1 = s\<lparr>trace := trace s @ t\<rparr>" by blast
  show "\<exists>t. snd (and_then m f s) = s\<lparr>trace := trace s @ t\<rparr>"
  proof (cases r)
    case (Inl e)
    then show ?thesis using m t by (auto simp: and_then_def)
  next
    case (Inr x)
    obtain r2 s2 where f: "f x s1 = (r2, s2)" by fastforce
    from appendsD[OF assms(2) this] t obtain t2 where "s2 = s\<lparr>trace := (trace s @ t) @ t2\<rparr>" by auto
    then show ?thesis using m f Inr by (auto simp: and_then_def)
  qed
qed

lemma appends_seq [appends_intros]: "appends m \<Longrightarrow> appends k \<Longrightarrow> appends (seq m k)"
  unfolding seq_def by (rule appends_and_then)

lemma appends_if [appends_intros]: "(b \<Longrightarrow> appends m) \<Longrightarrow> (\<not> b \<Longrightarrow> appends k) \<Longrightarrow> appends (if b then m else k)"
  by simp

lemma appends_with_trace [appends_intros]: "(\<And>t. appends (f t)) \<Longrightarrow> appends (with_trace f)"
  by (simp add: appends_def)

lemma appends_do_call [appends_intros]: "appends (do_call srv c)"
  unfolding do_call_def by (intro appends_intros)

lemma appends_query [appends_intros]: "appends (query srv q ps)"
  unfolding query_def by (intro appends_intros) (auto split: response.split intro: appends_intros)

lemma appends_query_one [appends_intros]: "appends (query_one srv q ps)"
  unfolding query_one_def by (intro appends_intros) (auto split: response.split list.split intro: appends_intros)

lemma appends_for_each [appends_intros]: "(\<And>x. x \<in> set xs \<Longrightarrow> appends (f x)) \<Longrightarrow> appends (for_each f xs)"
  by (induction xs) (auto intro: appends_intros)

end
