(* ===== verification/PQ_Quantization.thy ===== *)
theory PQ_Quantization
  imports Postgres "HOL-Library.AList"
begin

text \<open>
  \<^verbatim>\<open>lantern_cli/src/pq/quantization.rs\<close> and the progress counter of \<^verbatim>\<open>pq/mod.rs\<close>. The element type \<open>'f\<close>
  stands for \<^verbatim>\<open>f32\<close> without NaN: the code adds, subtracts, multiplies and compares, and the theorems
  rest only on the comparison being a linear order, not on exact arithmetic. \<^verbatim>\<open>f32::MAX\<close> is an
  argument, as is the textual form of an identifier the database generates.
\<close>

section \<open>Progress\<close>

record 'f pq_world = "'f world" +
  progress :: byte
  reported :: "byte list"

definition report_progress :: "bool \<Rightarrow> byte \<Rightarrow> (('f, 'x) pq_world_scheme, unit) prog" where
  "report_progress cb p s =
    (let new_progress = progress s + p
     in (Inr (), s\<lparr>progress := new_progress, reported := (if cb then reported s @ [new_progress] else reported s)\<rparr>))"

definition set_and_report_progress :: "bool \<Rightarrow> byte \<Rightarrow> (('f, 'x) pq_world_scheme, unit) prog" where
  "set_and_report_progress cb p s =
    (if progress s \<ge> p then (Inr (), s) else report_progress cb (p - progress s) s)"

section \<open>Quantization\<close>

record 'f DatasetItem =
  item_id :: string
  vec :: "'f list"

text \<open>The codebook \<^verbatim>\<open>HashMap\<close>, from subvector id to centroids.\<close>

type_synonym 'f codebooks = "(nat \<times> 'f list list) list"

definition l2sq_dist :: "('f::{zero,plus,minus,times}) list \<Rightarrow> 'f list \<Rightarrow> 'f" where
  "l2sq_dist a b = foldl (+) 0 (map (\<lambda>(x, y). (x - y) * (x - y)) (zip a b))"

fun closest_loop ::
  "('f::{zero,plus,minus,times,linorder}) list \<Rightarrow> 'f list list \<Rightarrow> nat \<Rightarrow> 'f \<Rightarrow> byte \<Rightarrow> byte" where
  "closest_loop subvector [] idx closest_distance closest_index = closest_index"
| "closest_loop subvector (centroid # cs) idx closest_distance closest_index =
    (let distance = l2sq_dist centroid subvector
     in if distance < closest_distance
        then closest_loop subvector cs (Suc idx) distance (word_of_nat idx)
        else closest_loop subvector cs (Suc idx) closest_distance closest_index)"

definition get_closest_centroid ::
  "('f::{zero,plus,minus,times,linorder}) \<Rightarrow> 'f list list \<Rightarrow> 'f list \<Rightarrow> byte" where
  "get_closest_centroid f32_max centroids subvector = closest_loop subvector centroids 0 f32_max 0"

definition slice_r :: "'a list \<Rightarrow> nat \<Rightarrow> nat \<Rightarrow> 'a list result" where
  "slice_r xs a b =
    (if a \<le> b \<and> b \<le> length xs then Inr (take (b - a) (drop a xs))
     else Inl (Panicked ''range end index out of range for slice''))"

definition quantize_subvector ::
  "('f::{zero,plus,minus,times,linorder}) \<Rightarrow> nat \<Rightarrow> nat \<Rightarrow> 'f codebooks \<Rightarrow> 'f list \<Rightarrow> nat \<Rightarrow> byte result" where
  "quantize_subvector f32_max vector_dim subvector_dim codebooks v i =
    (case map_of codebooks i of
       None \<Rightarrow> Inl (Panicked ''called Option::unwrap on a None value'')
     | Some split_centroids \<Rightarrow>
         (let start_index = i * subvector_dim;
              end_index = min (start_index + subvector_dim) vector_dim
          in and_then_r (slice_r v start_index end_index)
               (\<lambda>sub. Inr (get_closest_centroid f32_max split_centroids sub))))"

definition quantize_vector ::
  "('f::{zero,plus,minus,times,linorder}) \<Rightarrow> nat \<Rightarrow> nat \<Rightarrow> nat \<Rightarrow> 'f codebooks \<Rightarrow>
   'f DatasetItem \<Rightarrow> (string \<times> byte list) result" where
  "quantize_vector f32_max vector_dim subvector_dim splits codebooks x =
    and_then_r (traverse_r (quantize_subvector f32_max vector_dim subvector_dim codebooks (vec x)) [0..<splits])
      (\<lambda>codes. Inr (item_id x, codes))"

definition quantize_vectors ::
  "('f::{zero,plus,minus,times,linorder}) \<Rightarrow> 'f DatasetItem list \<Rightarrow> nat \<Rightarrow> nat \<Rightarrow> nat \<Rightarrow>
   'f codebooks \<Rightarrow> (string \<times> byte list) list result" where
  "quantize_vectors f32_max dataset vector_dim subvector_dim splits codebooks =
    traverse_r (quantize_vector f32_max vector_dim subvector_dim splits codebooks) dataset"

section \<open>Writing the codes\<close>

text \<open>The element list of a row: every number followed by a comma, then the last comma cut off.\<close>

definition cut_list :: "('a \<Rightarrow> string) \<Rightarrow> 'a list \<Rightarrow> string result" where
  "cut_list to_str xs =
    (let row_str = concat (map (\<lambda>x. to_str x @ '','') xs)
     in if row_str = [] then Inl (Panicked ''attempt to subtract with overflow'')
        else Inr (take (length row_str - 1) row_str))"

definition u8_to_string :: "byte \<Rightarrow> string" where
  "u8_to_string b = nat_digits (unat b)"

definition write_row :: "'f server \<Rightarrow> string \<times> byte list \<Rightarrow> (('f, 'x) pq_world_scheme, unit) prog" where
  "write_row srv row =
    seq (do_call srv (CopyData (fst row)))
    (seq (do_call srv (CopyData [CHR 0x09]))
    (seq (do_call srv (CopyData ''{''))
    (and_then (lift_r (cut_list u8_to_string (snd row))) (\<lambda>row_str.
     seq (do_call srv (CopyData row_str))
    (seq (do_call srv (CopyData ''}''))
         (do_call srv (CopyData [CHR 0x0A])))))))"

text \<open>\<^verbatim>\<open>(5.0 * (processed / total)) as u8\<close>, the truncation towards zero of the exact quotient.\<close>

definition write_progress :: "bool \<Rightarrow> nat \<Rightarrow> nat \<Rightarrow> (('f, 'x) pq_world_scheme, unit) prog" where
  "write_progress cb processed_row_cnt total_row_cnt s =
    (if processed_row_cnt mod 1000 = 0
     then (let p = word_of_nat (5 * processed_row_cnt div total_row_cnt)
           in if p > progress s then report_progress cb p s else (Inr (), s))
     else (Inr (), s))"

fun write_rows :: "'f server \<Rightarrow> bool \<Rightarrow> nat \<Rightarrow> nat \<Rightarrow> (string \<times> byte list) list \<Rightarrow> (('f, 'x) pq_world_scheme, nat) prog" where
  "write_rows srv cb processed total_row_cnt [] = return processed"
| "write_rows srv cb processed total_row_cnt (row # rows) =
    seq (write_row srv row)
    (seq (write_progress cb (Suc processed) total_row_cnt)
         (write_rows srv cb (Suc processed) total_row_cnt rows))"

definition write_quantized_rows ::
  "'f server \<Rightarrow> (nat \<Rightarrow> nat) \<Rightarrow> bool \<Rightarrow> (string \<times> byte list) list \<Rightarrow> string \<Rightarrow> string \<Rightarrow> string \<Rightarrow> string \<Rightarrow> string \<Rightarrow>
   (('f, 'x) pq_world_scheme, unit) prog" where
  "write_quantized_rows srv rng cb rows schema table pq_column pk tmp_table_suffix =
    (let full_table_name = get_full_table_name schema table;
         temp_table_name = ''_pq_tmp_'' @ tmp_table_suffix @ ''_'' @ nat_digits (rng 1000000);
         create_sql = ''CREATE TEMPORARY TABLE '' @ temp_table_name @ '' AS SELECT '' @ quote_ident pk @
           '' as id, '' @ quote_literal ''{1}'' @ ''::PQVEC AS '' @ quote_ident pq_column @
           '' FROM '' @ full_table_name @ '' LIMIT 0'';
         update_sql = ''UPDATE '' @ full_table_name @ '' dest SET '' @ quote_ident pq_column @ '' = src.'' @
           quote_ident pq_column @ '' FROM '' @ quote_ident temp_table_name @
           '' src WHERE src.id = dest.'' @ quote_ident pk
     in seq (do_call srv (Execute create_sql []))
       (seq (do_call srv (CopyIn (''COPY '' @ temp_table_name @ '' FROM stdin'')))
       (and_then (write_rows srv cb 0 (length rows) rows) (\<lambda>processed_row_cnt.
          if processed_row_cnt = 0 then return ()
          else seq (do_call srv CopyFinish) (do_call srv (Execute update_sql []))))))"

section \<open>Distributed quantization\<close>

record QuantizeAndWriteVectorArgs =
  qa_codebook_table_name :: string
  qa_full_table_name :: string
  qa_db_uri :: string
  qa_schema :: string
  qa_table :: string
  qa_column :: string
  qa_pq_column_name :: string
  qa_pk :: string
  qa_splits :: nat
  qa_total_row_count :: nat
  qa_total_task_count :: "nat option"
  qa_parallel_task_count :: "nat option"
  qa_quantization_task_id :: "nat option"
  qa_max_connections :: nat

definition task_range :: "nat \<Rightarrow> nat option \<Rightarrow> nat option \<Rightarrow> (nat \<times> nat) result" where
  "task_range total_row_count quantization_task_id total_task_count =
    (case quantization_task_id of
       None \<Rightarrow> Inr (0, total_row_count)
     | Some task_id \<Rightarrow>
         (case total_task_count of
            None \<Rightarrow> Inl (Bail ''Please provide --total-task-count when providing --quantization-task-id'')
          | Some task_count \<Rightarrow>
              and_then_r (div_usize total_row_count task_count) (\<lambda>chunk_per_task.
                let limit_start = chunk_per_task * task_id
                in Inr (limit_start,
                     if task_id = task_count - 1 then total_row_count + 1 else limit_start + chunk_per_task))))"

text \<open>\<^verbatim>\<open>Vec::insert\<close>: shifts the tail, panics beyond the end.\<close>

definition vec_insert :: "'a list \<Rightarrow> nat \<Rightarrow> 'a \<Rightarrow> 'a list result" where
  "vec_insert xs i x =
    (if i \<le> length xs then Inr (take i xs @ x # drop i xs)
     else Inl (Panicked ''insertion index should be <= len''))"

fun load_codebook :: "'f codebooks \<Rightarrow> 'f sql_row list \<Rightarrow> 'f codebooks result" where
  "load_codebook codebooks [] = Inr codebooks"
| "load_codebook codebooks (row # rows) =
    and_then_r (get_int 0 row) (\<lambda>subvector_id.
    and_then_r (get_int 1 row) (\<lambda>centroid_id.
    and_then_r (get_floats 2 row) (\<lambda>centroid.
      let sub = as_usize subvector_id;
          subvector_codebook = (case map_of codebooks sub of None \<Rightarrow> [] | Some cb \<Rightarrow> cb)
      in and_then_r (vec_insert subvector_codebook (as_usize centroid_id) centroid) (\<lambda>cb.
           load_codebook (AList.update sub cb codebooks) rows))))"

definition quantization_connections :: "nat \<Rightarrow> nat \<Rightarrow> nat \<Rightarrow> nat result" where
  "quantization_connections num_cores max_connections parallel_task_count =
    and_then_r (sub_usize max_connections 2) (\<lambda>m.
    and_then_r (div_usize m parallel_task_count) (\<lambda>q. Inr (min num_cores q)))"

text \<open>The range of row ids of connection \<open>i\<close>.\<close>

definition quantize_range :: "nat \<Rightarrow> nat \<Rightarrow> nat \<Rightarrow> nat \<Rightarrow> nat \<Rightarrow> nat \<times> nat" where
  "quantize_range num_cores limit_start limit_end chunk_size i =
    (let range_start = limit_start + i * chunk_size
     in (range_start, if i = num_cores - 1 then limit_end else range_start + chunk_size))"

definition quantize_ranges :: "nat \<Rightarrow> nat \<Rightarrow> nat \<Rightarrow> nat \<Rightarrow> (nat \<times> nat) list" where
  "quantize_ranges num_cores num_connections limit_start limit_end =
    (let chunk_size = (limit_end - limit_start) div num_connections
     in map (quantize_range num_cores limit_start limit_end chunk_size) [0..<num_connections])"

definition dataset_items :: "'f sql_row list \<Rightarrow> 'f DatasetItem list result" where
  "dataset_items rows =
    and_then_r (traverse_r (\<lambda>r.
        and_then_r (get_opt_floats 1 r) (\<lambda>v.
          case v of
            None \<Rightarrow> Inr None
          | Some v \<Rightarrow> and_then_r (get_text 0 r) (\<lambda>i. Inr (Some \<lparr>item_id = i, vec = v\<rparr>)))) rows)
      (\<lambda>items. Inr (List.map_filter id items))"


definition quantize_task ::
  "('f::{zero,plus,minus,times,linorder}) server \<Rightarrow> (nat \<Rightarrow> nat) \<Rightarrow> 'f \<Rightarrow> bool \<Rightarrow> QuantizeAndWriteVectorArgs \<Rightarrow>
   'f codebooks \<Rightarrow> nat \<Rightarrow> nat \<times> nat \<Rightarrow> (('f, 'x) pq_world_scheme, unit) prog" where
  "quantize_task srv rng f32_max cb args codebooks subvector_dim r =
    (let range_start = fst r; range_end = snd r in
     seq (do_call srv (Connect (qa_db_uri args)))
     (seq (do_call srv Begin)
     (and_then (query srv (''SELECT id::text, '' @ quote_ident (qa_column args) @ '' FROM '' @
          qa_full_table_name args @ '' WHERE id >= '' @ nat_digits range_start @ '' AND id < '' @
          nat_digits range_end @ '' ORDER BY id;'') []) (\<lambda>rows.
      and_then (lift_r (dataset_items rows)) (\<lambda>rows.
        case rows of
          [] \<Rightarrow> throw (Panicked ''index out of bounds: the len is 0 but the index is 0'')
        | first # _ \<Rightarrow>
            and_then (lift_r (quantize_vectors f32_max rows (length (vec first)) subvector_dim (qa_splits args) codebooks))
              (\<lambda>rows.
                seq (write_quantized_rows srv rng cb rows (qa_schema args) (qa_table args) (qa_pq_column_name args)
                      (qa_pk args) (nat_digits range_start))
                    (do_call srv Commit)))))))"

definition connections_for_quantization ::
  "'f server \<Rightarrow> nat \<Rightarrow> QuantizeAndWriteVectorArgs \<Rightarrow> (('f, 'x) pq_world_scheme, nat) prog" where
  "connections_for_quantization srv num_cores args =
    (case qa_quantization_task_id args of
       Some _ \<Rightarrow>
         lift_r (quantization_connections num_cores (qa_max_connections args)
           (case qa_parallel_task_count args of
              Some n \<Rightarrow> n
            | None \<Rightarrow> the (qa_total_task_count args)))
     | None \<Rightarrow>
         and_then (query_one srv ''SELECT COUNT(DISTINCT pid) FROM pg_stat_activity'' []) (\<lambda>row.
         and_then (lift_r (get_int 0 row)) (\<lambda>active_connections.
         and_then (lift_r (sub_usize (qa_max_connections args) (as_usize active_connections))) (\<lambda>n.
           return (min num_cores n)))))"

definition quantize_and_write_vectors ::
  "('f::{zero,plus,minus,times,linorder}) server \<Rightarrow> (nat \<Rightarrow> nat) \<Rightarrow> 'f \<Rightarrow> nat \<Rightarrow> bool \<Rightarrow>
   QuantizeAndWriteVectorArgs \<Rightarrow> (('f, 'x) pq_world_scheme, unit) prog" where
  "quantize_and_write_vectors srv rng f32_max num_cores cb args =
    seq (do_call srv Begin)
    (and_then (lift_r (task_range (qa_total_row_count args) (qa_quantization_task_id args) (qa_total_task_count args)))
      (\<lambda>(limit_start, limit_end).
     and_then (query srv (''SELECT subvector_id, centroid_id, c FROM '' @ qa_codebook_table_name args @
         '' ORDER BY centroid_id ASC;'') []) (\<lambda>codebook_rows.
     if codebook_rows = [] then throw (Bail ''Codebook does not contain any entries'')
     else
       seq (lift_r (div_usize (length codebook_rows) (qa_splits args)))
       (and_then (lift_r (get_floats 2 (hd codebook_rows))) (\<lambda>first_centroid.
        and_then (lift_r (load_codebook [] codebook_rows)) (\<lambda>codebooks.
        if length codebooks \<noteq> qa_splits args
        then throw (Bail (''Incomplete codebook: expected size equal to '' @ nat_digits (qa_splits args) @
               '', got: '' @ nat_digits (length codebooks)))
        else
          seq (set_and_report_progress cb 10)
          (seq (lift_r (sub_usize limit_end limit_start))
          (and_then (connections_for_quantization srv num_cores args) (\<lambda>num_connections.
             seq (par_tasks (map (quantize_task srv rng f32_max cb args codebooks (length first_centroid))
                    (quantize_ranges num_cores (max num_connections 1) limit_start limit_end)))
                 (do_call srv Commit))))))))))"

section \<open>Lemmas: nearest centroid\<close>

text \<open>The loop invariant: the index of the best centroid seen, unless the start value is better.\<close>

lemma closest_loop_correct:
  assumes "idx + length cs \<le> 256"
  shows "(\<forall>c \<in> set cs. \<not> l2sq_dist c x < best) \<and> closest_loop x cs idx best b = b \<or>
    (\<exists>k < length cs. closest_loop x cs idx best b = word_of_nat (idx + k)
       \<and> l2sq_dist (cs ! k) x < best
       \<and> (\<forall>j < length cs. l2sq_dist (cs ! k) x \<le> l2sq_dist (cs ! j) x)
       \<and> (\<forall>j < k. l2sq_dist (cs ! k) x < l2sq_dist (cs ! j) x))"
  using assms
proof (induction cs arbitrary: idx best b)
  case (Cons c cs)
  let ?d = "l2sq_dist c x"
  show ?case
  proof (cases "?d < best")
    case True
    from Cons.IH[of "Suc idx" ?d "word_of_nat idx"] Cons.prems consider
      (none) "\<forall>a \<in> set cs. \<not> l2sq_dist a x < ?d" "closest_loop x cs (Suc idx) ?d (word_of_nat idx) = word_of_nat idx"
    | (some) k where "k < length cs" "closest_loop x cs (Suc idx) ?d (word_of_nat idx) = word_of_nat (Suc idx + k)"
        "l2sq_dist (cs ! k) x < ?d" "\<forall>j < length cs. l2sq_dist (cs ! k) x \<le> l2sq_dist (cs ! j) x"
        "\<forall>j < k. l2sq_dist (cs ! k) x < l2sq_dist (cs ! j) x"
      by auto
    then show ?thesis
    proof cases
      case none
      then have "\<forall>j < length (c # cs). ?d \<le> l2sq_dist ((c # cs) ! j) x"
        by (auto simp: nth_Cons' not_less)
      with none True show ?thesis by (intro disjI2 exI[of _ 0]) simp
    next
      case (some k)
      have "l2sq_dist ((c # cs) ! Suc k) x \<le> l2sq_dist ((c # cs) ! j) x" if "j < length (c # cs)" for j
        using some(3,4) that by (cases j) auto
      moreover have "l2sq_dist ((c # cs) ! Suc k) x < l2sq_dist ((c # cs) ! j) x" if "j < Suc k" for j
        using some(3,5) that by (cases j) auto
      ultimately show ?thesis
        using some True by (intro disjI2 exI[of _ "Suc k"]) (auto simp: Let_def)
    qed
  next
    case False
    from Cons.IH[of "Suc idx" best b] Cons.prems consider
      (none) "\<forall>a \<in> set cs. \<not> l2sq_dist a x < best" "closest_loop x cs (Suc idx) best b = b"
    | (some) k where "k < length cs" "closest_loop x cs (Suc idx) best b = word_of_nat (Suc idx + k)"
        "l2sq_dist (cs ! k) x < best" "\<forall>j < length cs. l2sq_dist (cs ! k) x \<le> l2sq_dist (cs ! j) x"
        "\<forall>j < k. l2sq_dist (cs ! k) x < l2sq_dist (cs ! j) x"
      by auto
    then show ?thesis
    proof cases
      case none
      with False show ?thesis by (intro disjI1) simp
    next
      case (some k)
      have "l2sq_dist ((c # cs) ! Suc k) x < l2sq_dist ((c # cs) ! j) x" if "j < Suc k" for j
        using some(3,5) False that by (cases j) auto
      moreover have "l2sq_dist ((c # cs) ! Suc k) x \<le> l2sq_dist ((c # cs) ! j) x" if "j < length (c # cs)" for j
        using some(3,4) False that by (cases j) auto
      ultimately show ?thesis
        using some False by (intro disjI2 exI[of _ "Suc k"]) (auto simp: Let_def)
    qed
  qed
qed simp


text \<open>
  C6. \<^verbatim>\<open>get_closest_centroid\<close> returns the index of a nearest centroid, the first one among equals, when
  there are at most 256 centroids and one of them is closer than \<^verbatim>\<open>f32::MAX\<close>; no property of the
  arithmetic is used but that the comparison is a linear order.
\<close>

theorem get_closest_centroid_nearest:
  assumes "length centroids \<le> 256" "\<exists>c \<in> set centroids. l2sq_dist c x < f32_max"
  shows "unat (get_closest_centroid f32_max centroids x) < length centroids
    \<and> (\<forall>j < length centroids.
         l2sq_dist (centroids ! unat (get_closest_centroid f32_max centroids x)) x \<le> l2sq_dist (centroids ! j) x
         \<and> (j < unat (get_closest_centroid f32_max centroids x) \<longrightarrow>
             l2sq_dist (centroids ! unat (get_closest_centroid f32_max centroids x)) x < l2sq_dist (centroids ! j) x))"
proof -
  obtain k where k: "k < length centroids" "get_closest_centroid f32_max centroids x = word_of_nat k"
    "\<forall>j < length centroids. l2sq_dist (centroids ! k) x \<le> l2sq_dist (centroids ! j) x"
    "\<forall>j < k. l2sq_dist (centroids ! k) x < l2sq_dist (centroids ! j) x"
    using closest_loop_correct[of 0 centroids x f32_max 0] assms
    unfolding get_closest_centroid_def by auto
  have "unat (word_of_nat k :: byte) = k" using k(1) assms(1) by (simp add: unat_byte_of_nat)
  with k show ?thesis by simp
qed

theorem get_closest_centroid_nearest_witness:
  "get_closest_centroid 1000 [[0, 0], [5, 5], [9, 1 :: int]] [8, 2] = 2 \<and>
   unat (get_closest_centroid 1000 [[0, 0], [5, 5], [9, 1 :: int]] [8, 2]) < 3"
proof -
  have "get_closest_centroid 1000 [[0, 0], [5, 5], [9, 1 :: int]] [8, 2] = 2" by code_simp
  moreover have "unat (get_closest_centroid 1000 [[0, 0], [5, 5], [9, 1 :: int]] [8, 2]) < length [[0, 0], [5, 5], [9, 1 :: int]]"
    by (rule conjunct1[OF get_closest_centroid_nearest]) (simp_all add: l2sq_dist_def)
  ultimately show ?thesis by simp
qed

lemma closest_loop_skip:
  assumes "\<forall>c \<in> set cs. \<not> l2sq_dist c x < best"
  shows "closest_loop x (cs @ ds) idx best b = closest_loop x ds (idx + length cs) best b"
  using assms by (induction cs arbitrary: idx) (auto simp: Let_def)

text \<open>
  The index is truncated to eight bits: with 257 centroids, of which only the last one is
  nearest, the code written for the vector is that of the first centroid.
\<close>

theorem get_closest_centroid_wraps:
  assumes "length far = 256" "\<forall>c \<in> set far. \<not> l2sq_dist c x < f32_max" "l2sq_dist near x < f32_max"
  shows "get_closest_centroid f32_max (far @ [near]) x = 0"
  using closest_loop_skip[OF assms(2), of "[near]" 0 0] assms(1,3)
  by (simp add: get_closest_centroid_def Let_def)

theorem get_closest_centroid_wraps_witness:
  "get_closest_centroid 50 (replicate 256 [100] @ [[1 :: int]]) [1] = 0"
  using get_closest_centroid_wraps[of "replicate 256 [100 :: int]" "[1]" 50 "[1]"]
  by (simp add: l2sq_dist_def)

section \<open>Lemmas: row ranges\<close>

interpretation task_plan: range_plan
  "\<lambda>i. (total_rows div Suc k * i, if i = k then total_rows + 1 else total_rows div Suc k * i + total_rows div Suc k)"
  k 0 "total_rows + 1" for total_rows k
  by unfold_locales auto

interpretation connection_plan: range_plan
  "quantize_range (Suc k) limit_start limit_end ((limit_end - limit_start) div Suc k)" k limit_start limit_end
  for k limit_start limit_end
  by unfold_locales (auto simp: quantize_range_def Let_def)


text \<open>
  The tasks of a distributed quantization divide the rows among them: with \<open>n\<close> tasks every row
  number up to and including the row count lies in the range of exactly one task.
\<close>

theorem task_ranges_cover:
  assumes "0 < n" "x \<le> total_rows"
  shows "\<exists>!t. t < n \<and> (\<exists>a b. task_range total_rows (Some t) (Some n) = Inr (a, b) \<and> a \<le> x \<and> x < b)"
proof -
  obtain k where k: "n = Suc k" using assms(1) by (cases n) auto
  have "t < n \<and> (\<exists>a b. task_range total_rows (Some t) (Some n) = Inr (a, b) \<and> a \<le> x \<and> x < b) \<longleftrightarrow>
      t \<le> k \<and> total_rows div Suc k * t \<le> x
      \<and> x < (if t = k then total_rows + 1 else total_rows div Suc k * t + total_rows div Suc k)" for t
    by (auto simp: k task_range_def div_usize_def Let_def)
  then show ?thesis
    using task_plan.covered_once[of x total_rows k] assms(2) by simp
qed

theorem task_ranges_cover_witness:
  "\<exists>!t. t < 3 \<and> (\<exists>a b. task_range 10 (Some t) (Some 3) = Inr (a, b) \<and> a \<le> 10 \<and> 10 < b)"
  using task_ranges_cover[of 3 10 10] by simp

lemma nth_quantize_ranges:
  "i < n \<Longrightarrow> quantize_ranges cores n a b ! i = quantize_range cores a b ((b - a) div n) i"
  by (simp add: quantize_ranges_def Let_def)

lemma length_quantize_ranges [simp]: "length (quantize_ranges cores n a b) = n"
  by (simp add: quantize_ranges_def Let_def)

text \<open>
  With as many connections as cores the connections of a task divide its rows: every row of the
  task is fetched, quantized and written by exactly one connection.
\<close>

theorem quantize_ranges_cover:
  assumes "0 < n" "a \<le> x" "x < b"
  shows "\<exists>!i. i < n \<and> fst (quantize_ranges n n a b ! i) \<le> x \<and> x < snd (quantize_ranges n n a b ! i)"
proof -
  obtain k where k: "n = Suc k" using assms(1) by (cases n) auto
  have "i < n \<and> fst (quantize_ranges n n a b ! i) \<le> x \<and> x < snd (quantize_ranges n n a b ! i) \<longleftrightarrow>
      i \<le> k \<and> fst (quantize_range (Suc k) a b ((b - a) div Suc k) i) \<le> x
      \<and> x < snd (quantize_range (Suc k) a b ((b - a) div Suc k) i)" for i
    by (auto simp: k nth_quantize_ranges)
  then show ?thesis
    using connection_plan.covered_once[of a x b k] assms(2,3) by simp
qed

theorem quantize_ranges_cover_witness:
  "\<exists>!i. i < 4 \<and> fst (quantize_ranges 4 4 0 11 ! i) \<le> 10 \<and> 10 < snd (quantize_ranges 4 4 0 11 ! i)"
  using quantize_ranges_cover[of 4 0 10 11] by simp

text \<open>
  With fewer connections than cores no connection takes the remainder: the rows from
  \<open>a + n * ((b - a) div n)\<close> on, up to \<open>n - 1\<close> of them, are in no range and keep an empty code.
\<close>

theorem quantize_ranges_lose_rows:
  assumes "0 < n" "n < num_cores" "a + n * ((b - a) div n) \<le> x" "i < n"
  shows "\<not> (fst (quantize_ranges num_cores n a b ! i) \<le> x \<and> x < snd (quantize_ranges num_cores n a b ! i))"
proof -
  have "i \<noteq> num_cores - 1" using assms(2,4) by simp
  then have "snd (quantize_ranges num_cores n a b ! i) = a + Suc i * ((b - a) div n)"
    using assms(4) by (simp add: nth_quantize_ranges quantize_range_def Let_def)
  moreover have "a + Suc i * ((b - a) div n) \<le> a + n * ((b - a) div n)"
    using assms(4) by (intro add_left_mono mult_le_mono1) simp
  ultimately show ?thesis using assms(3) by simp
qed

theorem quantize_ranges_lose_rows_witness:
  "\<not> (fst (quantize_ranges 8 4 0 11 ! 3) \<le> 10 \<and> 10 < snd (quantize_ranges 8 4 0 11 ! 3))"
  using quantize_ranges_lose_rows[of 4 8 0 11 10 3] by simp

section \<open>Lemmas: the codebook table\<close>

text \<open>The rows of the codebook table for codebooks \<open>cbs\<close>, one per subvector.\<close>

definition codebook_row :: "nat \<Rightarrow> nat \<Rightarrow> 'f list \<Rightarrow> 'f sql_row" where
  "codebook_row s c v = [SInt (int s), SInt (int c), SFloats v]"

fun row_sub :: "'f sql_row \<Rightarrow> nat" where "row_sub (SInt s # r) = nat s" | "row_sub _ = 0"
fun row_cid :: "'f sql_row \<Rightarrow> nat" where "row_cid (a # SInt c # r) = nat c" | "row_cid _ = 0"

definition table_rows :: "'f list list list \<Rightarrow> 'f sql_row list" where
  "table_rows cbs = concat (map (\<lambda>s. map (\<lambda>c. codebook_row s c (cbs ! s ! c)) [0..<length (cbs ! s)]) [0..<length cbs])"

lemma load_codebook_step:
  assumes "s < 2 ^ 64" "c < 2 ^ 64" "c = length (case map_of m s of None \<Rightarrow> [] | Some cb \<Rightarrow> cb)"
  shows "load_codebook m (codebook_row s c v # rows) =
    load_codebook (AList.update s ((case map_of m s of None \<Rightarrow> [] | Some cb \<Rightarrow> cb) @ [v]) m) rows"
  using assms(1,2)
  by (simp add: codebook_row_def get_int_def get_floats_def column_def vec_insert_def assms(3) Let_def)


fun row_vec :: "'f sql_row \<Rightarrow> 'f list" where "row_vec [a, b, SFloats v] = v" | "row_vec _ = []"

lemma codebook_row_sel [simp]:
  "row_sub (codebook_row s c v) = s" "row_cid (codebook_row s c v) = c" "row_vec (codebook_row s c v) = v"
  by (simp_all add: codebook_row_def)

abbreviation sub_rows :: "nat \<Rightarrow> 'f sql_row list \<Rightarrow> 'f sql_row list" where
  "sub_rows s \<equiv> filter (\<lambda>r. row_sub r = s)"

definition loaded :: "'f codebooks \<Rightarrow> 'f sql_row list \<Rightarrow> bool" where
  "loaded m p \<longleftrightarrow> distinct (map fst m) \<and>
    (\<forall>s. map_of m s = (if sub_rows s p = [] then None else Some (map row_vec (sub_rows s p))))"

lemma load_codebook_prefix:
  assumes "\<forall>r \<in> set rows. \<exists>s c v. r = codebook_row s c v \<and> s < 2 ^ 64 \<and> c < 2 ^ 64"
    and "\<forall>s. map row_cid (sub_rows s (p @ rows)) = [0..<length (sub_rows s (p @ rows))]"
    and "loaded m p"
  shows "\<exists>m'. load_codebook m rows = Inr m' \<and> loaded m' (p @ rows)"
  using assms
proof (induction rows arbitrary: p m)
  case (Cons r rows)
  then obtain s c v where r: "r = codebook_row s c v" "s < 2 ^ 64" "c < 2 ^ 64" by auto
  let ?F = "sub_rows s p" and ?G = "sub_rows s rows"
  have "map row_cid (?F @ r # ?G) = [0..<length (?F @ r # ?G)]"
    using Cons.prems(2) r(1) by (metis (mono_tags) codebook_row_sel(1) filter.simps(2) filter_append)
  then have "(map row_cid (?F @ r # ?G)) ! length ?F = length ?F"
    by (simp add: nth_upt del: upt_Suc map_append)
  then have c: "c = length ?F" by (simp add: nth_append r(1))
  have old: "(case map_of m s of None \<Rightarrow> [] | Some cb \<Rightarrow> cb) = map row_vec ?F"
    using Cons.prems(3) by (simp add: loaded_def)
  have "loaded (AList.update s (map row_vec ?F @ [v]) m) (p @ [r])"
    using Cons.prems(3) r(1) by (auto simp: loaded_def update_conv' distinct_update)
  from Cons.IH[OF _ _ this] Cons.prems(1,2)
  obtain m' where "load_codebook (AList.update s (map row_vec ?F @ [v]) m) rows = Inr m'"
    "loaded m' (p @ r # rows)" by auto
  with load_codebook_step[OF r(2,3), of m v rows] c old show ?case by (simp add: r(1))
qed auto

lemma sub_rows_table:
  "sub_rows s (table_rows cbs) =
    (if s < length cbs then map (\<lambda>c. codebook_row s c (cbs ! s ! c)) [0..<length (cbs ! s)] else [])"
proof -
  have "sub_rows s (table_rows cbs) =
    concat (map (\<lambda>t. if t = s then map (\<lambda>c. codebook_row t c (cbs ! t ! c)) [0..<length (cbs ! t)] else []) [0..<n])"
    if "n = length cbs" for n
    unfolding table_rows_def filter_concat map_map comp_def that
    by (intro arg_cong[of _ _ concat] map_cong) auto
  moreover have "concat (map (\<lambda>t. if t = s then f t else []) [0..<n]) = (if s < n then f s else [])"
    for f :: "nat \<Rightarrow> 'a sql_row list" and n
    by (induction n) auto
  ultimately show ?thesis by (simp only: refl)
qed

lemma sorted_sub_rows:
  assumes "mset rows = mset (table_rows cbs)" "sorted (map row_cid rows)" "s < length cbs"
  shows "sub_rows s rows = map (\<lambda>c. codebook_row s c (cbs ! s ! c)) [0..<length (cbs ! s)]"
proof -
  let ?T = "map (\<lambda>c. codebook_row s c (cbs ! s ! c)) [0..<length (cbs ! s)]"
  have ms: "mset (sub_rows s rows) = mset ?T"
    using assms(1,3) sub_rows_table[of s cbs] by (metis mset_filter)
  have "mset (map row_cid (sub_rows s rows)) = mset [0..<length (cbs ! s)]"
    using arg_cong[OF ms, of "image_mset row_cid"] by (simp add: image_mset.compositionality comp_def)
  moreover have "sorted (map row_cid (sub_rows s rows))"
    using assms(2) by (rule sorted_filter)
  ultimately have cid: "map row_cid (sub_rows s rows) = [0..<length (cbs ! s)]"
    using properties_for_sort sorted_upt by metis
  show ?thesis
  proof (rule nth_equalityI)
    show len: "length (sub_rows s rows) = length ?T" using mset_eq_length[OF ms] by simp
    fix i assume i: "i < length (sub_rows s rows)"
    then have "sub_rows s rows ! i \<in> set ?T" using ms by (metis mset_eq_setD nth_mem)
    then obtain c where c: "c < length (cbs ! s)" "sub_rows s rows ! i = codebook_row s c (cbs ! s ! c)" by auto
    have "row_cid (sub_rows s rows ! i) = i"
      using arg_cong[OF cid, of "\<lambda>l. l ! i"] i len by simp
    with c i len show "sub_rows s rows ! i = ?T ! i" by simp
  qed
qed

lemma table_rows_elem:
  "r \<in> set (table_rows cbs) \<Longrightarrow> \<exists>s c v. r = codebook_row s c v \<and> s < length cbs \<and> c < length (cbs ! s)"
  by (auto simp: table_rows_def) blast

text \<open>
  Reading the codebook table back gives the codebooks that were written: in whatever order the
  database returns the rows, as long as they come by ascending centroid id, the reader rebuilds for
  every subvector its centroids in order, and has exactly one entry per subvector.
\<close>

theorem load_codebook_roundtrip:
  assumes "mset rows = mset (table_rows cbs)" "sorted (map row_cid rows)"
    and "length cbs < 2 ^ 64" "\<forall>cb \<in> set cbs. cb \<noteq> [] \<and> length cb < 2 ^ 64"
  shows "\<exists>m. load_codebook [] rows = Inr m \<and> length m = length cbs \<and> (\<forall>s < length cbs. map_of m s = Some (cbs ! s))"
proof -
  have elem: "\<exists>s c v. r = codebook_row s c v \<and> s < length cbs \<and> c < length (cbs ! s)" if "r \<in> set rows" for r
    using table_rows_elem that assms(1) by (metis mset_eq_setD)
  have none: "sub_rows s rows = []" if "\<not> s < length cbs" for s
  proof -
    have "row_sub r < length cbs" if "r \<in> set rows" for r
      using elem[OF that] by (metis codebook_row_sel(1))
    with that show ?thesis by (auto simp: filter_empty_conv)
  qed
  have each: "\<exists>s c v. r = codebook_row s c v \<and> s < 2 ^ 64 \<and> c < 2 ^ 64" if r: "r \<in> set rows" for r
  proof -
    obtain s c v where "r = codebook_row s c v" "s < length cbs" "c < length (cbs ! s)"
      using elem[OF r] by blast
    moreover from this have "length (cbs ! s) < 2 ^ 64" using assms(4) by simp
    ultimately show ?thesis using assms(3) by (intro exI[of _ s] exI[of _ c] exI[of _ v]) simp
  qed
  have cids: "map row_cid (sub_rows s ([] @ rows)) = [0..<length (sub_rows s ([] @ rows))]" for s
    using sorted_sub_rows[OF assms(1,2), of s] none[of s] by (cases "s < length cbs") (simp_all add: comp_def)
  obtain m where m: "load_codebook [] rows = Inr m" "loaded m rows"
    using load_codebook_prefix[of rows "[]" "[]"] each cids by (auto simp: loaded_def)
  have lookup: "map_of m s = Some (cbs ! s)" if "s < length cbs" for s
  proof -
    have ne: "cbs ! s \<noteq> []" using assms(4) that by simp
    have "map row_vec (sub_rows s rows) = cbs ! s"
      using sorted_sub_rows[OF assms(1,2) that] by (simp add: comp_def map_nth)
    with m(2) ne sorted_sub_rows[OF assms(1,2) that] show ?thesis by (auto simp: loaded_def)
  qed
  have "dom (map_of m) = {..<length cbs}"
  proof (intro equalityI subsetI)
    fix s assume "s \<in> dom (map_of m)"
    then show "s \<in> {..<length cbs}" using m(2) none[of s] by (cases "s < length cbs") (auto simp: loaded_def)
  qed (use lookup in auto)
  moreover have "card (dom (map_of m)) = length m"
    using m(2) unfolding loaded_def dom_map_of_conv_image_fst
    by (metis distinct_card length_map set_map)
  ultimately show ?thesis using m(1) lookup by (intro exI[of _ m]) auto
qed


theorem load_codebook_roundtrip_witness:
  "\<exists>m. load_codebook [] [codebook_row 1 0 [7], codebook_row 0 0 [5], codebook_row 0 1 [6 :: int], codebook_row 1 1 [8]] = Inr m
    \<and> length m = 2 \<and> map_of m 0 = Some [[5], [6]] \<and> map_of m 1 = Some [[7], [8]]"
proof -
  have "\<exists>m. load_codebook [] [codebook_row 1 0 [7], codebook_row 0 0 [5], codebook_row 0 1 [6 :: int], codebook_row 1 1 [8]] = Inr m
      \<and> length m = length [[[5], [6]], [[7], [8 :: int]]]
      \<and> (\<forall>s < length [[[5], [6]], [[7], [8 :: int]]]. map_of m s = Some ([[[5], [6]], [[7], [8]]] ! s))"
    by (rule load_codebook_roundtrip) (simp_all add: table_rows_def)
  then show ?thesis by (auto simp: less_Suc_eq)
qed

section \<open>Lemmas: shape and text of the codes\<close>

lemma quantize_vector_ok:
  assumes "splits * subvector_dim \<le> vector_dim" "vector_dim \<le> length (vec x)"
    and "\<forall>i < splits. map_of codebooks i = Some (cbs ! i)"
  shows "quantize_vector f32_max vector_dim subvector_dim splits codebooks x =
    Inr (item_id x, map (\<lambda>i. get_closest_centroid f32_max (cbs ! i)
           (take subvector_dim (drop (i * subvector_dim) (vec x)))) [0..<splits])"
proof -
  have "i * subvector_dim + subvector_dim \<le> vector_dim \<and> i * subvector_dim \<le> vector_dim
      \<and> i * subvector_dim + subvector_dim \<le> length (vec x)" if "i < splits" for i
    using that assms(1,2) mult_le_mono1[of "Suc i" splits subvector_dim] by simp
  then have "quantize_subvector f32_max vector_dim subvector_dim codebooks (vec x) i =
      Inr (get_closest_centroid f32_max (cbs ! i) (take subvector_dim (drop (i * subvector_dim) (vec x))))"
    if "i < splits" for i
    using that assms(2,3) by (simp add: quantize_subvector_def slice_r_def Let_def min_absorb1)
  then have "traverse_r (quantize_subvector f32_max vector_dim subvector_dim codebooks (vec x)) [0..<splits] =
      Inr (map (\<lambda>i. get_closest_centroid f32_max (cbs ! i)
           (take subvector_dim (drop (i * subvector_dim) (vec x)))) [0..<splits])"
    by (intro traverse_r_all_ok) simp
  then show ?thesis by (simp add: quantize_vector_def)
qed

text \<open>
  C7. Quantizing a dataset whose vectors have at least \<open>splits * subvector_dim\<close> components, with a
  codebook per subvector, never fails and keeps the rows in order: row \<open>j\<close> becomes its id with one
  code per subvector, code \<open>i\<close> being that of the centroid chosen for the \<open>i\<close>-th slice.
\<close>

theorem quantize_vectors_codes:
  assumes "splits * subvector_dim \<le> vector_dim" "\<forall>x \<in> set dataset. vector_dim \<le> length (vec x)"
    and "\<forall>i < splits. map_of codebooks i = Some (cbs ! i)"
  shows "quantize_vectors f32_max dataset vector_dim subvector_dim splits codebooks =
    Inr (map (\<lambda>x. (item_id x, map (\<lambda>i. get_closest_centroid f32_max (cbs ! i)
           (take subvector_dim (drop (i * subvector_dim) (vec x)))) [0..<splits])) dataset)"
  unfolding quantize_vectors_def
  by (rule traverse_r_all_ok) (use assms in \<open>simp add: quantize_vector_ok\<close>)

theorem quantize_vectors_codes_witness:
  "quantize_vectors 1000 [\<lparr>item_id = ''1'', vec = [1, 2, 3, 4 :: int]\<rparr>] 4 2 2 [(0, [[0, 0], [1, 2]]), (1, [[3, 4]])] =
    Inr [(''1'', [1, 0])]"
proof -
  have "quantize_vectors 1000 [\<lparr>item_id = ''1'', vec = [1, 2, 3, 4 :: int]\<rparr>] 4 2 2 [(0, [[0, 0], [1, 2]]), (1, [[3, 4]])] =
    Inr (map (\<lambda>x. (item_id x, map (\<lambda>i. get_closest_centroid 1000 ([[[0, 0], [1, 2]], [[3, 4]]] ! i)
           (take 2 (drop (i * 2) (vec x)))) [0..<2])) [\<lparr>item_id = ''1'', vec = [1, 2, 3, 4 :: int]\<rparr>])"
    by (rule quantize_vectors_codes) (auto simp: less_Suc_eq numeral_2_eq_2)
  then show ?thesis
    by (simp add: numeral_2_eq_2 get_closest_centroid_def l2sq_dist_def Let_def)
qed

lemma concat_commas: "xs \<noteq> [] \<Longrightarrow> concat (map (\<lambda>x. f x @ '','') xs) = join '','' (map f xs) @ '',''"
proof (induction xs)
  case (Cons x xs)
  then show ?case by (cases xs) auto
qed simp

lemma cut_list_join: "xs \<noteq> [] \<Longrightarrow> cut_list f xs = Inr (join '','' (map f xs))"
  by (simp add: cut_list_def concat_commas Let_def)

lemma cut_list_empty: "cut_list f [] = Inl (Panicked ''attempt to subtract with overflow'')"
  by (simp add: cut_list_def)

section \<open>Lemmas: connections without rows\<close>

lemma do_call_ok: "(\<And>e. srv (trace s) c \<noteq> DbError e) \<Longrightarrow> do_call srv c s = (Inr (), s\<lparr>trace := trace s @ [c]\<rparr>)"
  by (cases "srv (trace s) c") (auto simp: do_call_def seq_def and_then_def call_def)

text \<open>
  A task that fetches no rows panics on \<^verbatim>\<open>rows[0]\<close>, and with fewer rows than connections the first
  connection has an empty range: quantizing a small table over several connections fails.
\<close>

theorem quantize_small_table_panics:
  assumes "b - a < n" "1 < n" "n \<le> num_cores"
    and "\<And>tr c e. srv tr c \<noteq> DbError e"
    and "\<And>tr q. srv tr (Query q []) = Rows []"
  shows "fst (quantize_ranges num_cores n a b ! 0) = snd (quantize_ranges num_cores n a b ! 0)
    \<and> fst (par_tasks (map (quantize_task srv rng f32_max cb args codebooks d) (quantize_ranges num_cores n a b)) s) =
      Inl (Panicked ''index out of bounds: the len is 0 but the index is 0'')"
proof
  show "fst (quantize_ranges num_cores n a b ! 0) = snd (quantize_ranges num_cores n a b ! 0)"
    using assms(1-3) by (simp add: nth_quantize_ranges quantize_range_def Let_def)
  have task: "fst (quantize_task srv rng f32_max cb args codebooks d r s) =
      Inl (Panicked ''index out of bounds: the len is 0 but the index is 0'')" for r s
    using assms(4,5)
    by (simp add: quantize_task_def Let_def seq_def and_then_def do_call_ok query_def call_def dataset_items_def
        List.map_filter_def)
  obtain r rs where rs: "quantize_ranges num_cores n a b = r # rs"
    using assms(2) length_quantize_ranges[of num_cores n a b] by (cases "quantize_ranges num_cores n a b") auto
  show "fst (par_tasks (map (quantize_task srv rng f32_max cb args codebooks d) (quantize_ranges num_cores n a b)) s) =
      Inl (Panicked ''index out of bounds: the len is 0 but the index is 0'')"
    using task[of r s] by (auto simp: rs par_tasks_def split: prod.split)
qed


theorem quantize_small_table_panics_witness:
  "fst (par_tasks (map (quantize_task (\<lambda>tr c. Rows []) (\<lambda>n. 0) (100 :: int) True
      \<lparr>qa_codebook_table_name = ''c'', qa_full_table_name = ''t'', qa_db_uri = ''u'', qa_schema = ''s'', qa_table = ''t'',
       qa_column = ''v'', qa_pq_column_name = ''v_pq'', qa_pk = ''id'', qa_splits = 2, qa_total_row_count = 3,
       qa_total_task_count = None, qa_parallel_task_count = None, qa_quantization_task_id = None, qa_max_connections = 100\<rparr>
      [] 1) (quantize_ranges 8 8 0 3)) \<lparr>trace = [], progress = 0, reported = []\<rparr>) =
    Inl (Panicked ''index out of bounds: the len is 0 but the index is 0'')"
  by (rule conjunct2[OF quantize_small_table_panics]) simp_all

end
