(* ===== verification/PQ_Codebook.thy ===== *)
theory PQ_Codebook
  imports PQ_Quantization
begin

text \<open>
  \<^verbatim>\<open>lantern_cli/src/pq/codebook.rs\<close>: fetching the dataset over several connections, training one
  codebook per subvector and writing the codebook table. The k-means of the linfa crate is an
  argument (from the matrix of observations and the cluster count to the matrix of centroids),
  as is the decimal form of an \<^verbatim>\<open>f32\<close>.
\<close>

section \<open>Definitions\<close>

definition create_codebook_for_subset ::
  "('f list list \<Rightarrow> nat \<Rightarrow> 'f list list result) \<Rightarrow> 'f list list \<Rightarrow> nat \<Rightarrow> 'f list list result" where
  "create_codebook_for_subset kmeans dataset cluster_count =
    (case dataset of
       [] \<Rightarrow> Inl (Panicked ''index out of bounds: the len is 0 but the index is 0'')
     | first # _ \<Rightarrow>
         (let dim = length first; flat = concat dataset in
          if length flat \<noteq> length dataset * dim then Inl (IoError ''ShapeError: incompatible shapes'')
          else if dim = 0 then Inl (Panicked ''chunk size must be non-zero'')
          else and_then_r (kmeans (chunks dim flat) cluster_count) (\<lambda>centroids.
                 Inr (chunks dim (concat centroids)))))"

record CreateCodebookArgs =
  cc_db_uri :: string
  cc_pk :: string
  cc_column :: string
  cc_full_table_name :: string
  cc_codebook_table_name :: string
  cc_total_row_count :: nat
  cc_max_connections :: nat
  cc_splits :: nat
  cc_vector_dim :: nat
  cc_subvector_dim :: nat
  cc_cluster_count :: nat
  cc_start_offset_id :: nat
  cc_subvector_id :: "nat option"
  cc_parallel_task_count :: "nat option"

definition subvector_indices :: "CreateCodebookArgs \<Rightarrow> (nat \<times> nat) result" where
  "subvector_indices args =
    (case cc_subvector_id args of
       None \<Rightarrow> Inr (0, cc_vector_dim args)
     | Some subvector_id \<Rightarrow>
         if subvector_id \<ge> cc_splits args
         then Inl (Bail (''--subvector-id '' @ nat_digits subvector_id @ '' should be smaller than --splits '' @
                nat_digits (cc_splits args)))
         else
           (let start_idx = subvector_id * cc_subvector_dim args
            in Inr (start_idx,
                 if subvector_id = cc_splits args - 1 then cc_vector_dim args
                 else start_idx + cc_subvector_dim args)))"

definition connections_for_codebook ::
  "'f server \<Rightarrow> nat \<Rightarrow> CreateCodebookArgs \<Rightarrow> (('f, 'x) pq_world_scheme, nat) prog" where
  "connections_for_codebook srv num_cores args =
    (case cc_subvector_id args of
       Some _ \<Rightarrow>
         lift_r (quantization_connections num_cores (cc_max_connections args)
           (case cc_parallel_task_count args of Some n \<Rightarrow> n | None \<Rightarrow> cc_splits args))
     | None \<Rightarrow>
         and_then (query_one srv ''SELECT COUNT(DISTINCT pid) FROM pg_stat_activity'' []) (\<lambda>row.
         and_then (lift_r (get_int 0 row)) (\<lambda>active_connections.
           let active = (if cc_max_connections args < as_usize active_connections then cc_max_connections args
                         else as_usize active_connections)
           in return (min num_cores (cc_max_connections args - active)))))"

definition fetch_range :: "nat \<Rightarrow> nat \<Rightarrow> nat \<Rightarrow> nat \<Rightarrow> nat \<Rightarrow> nat \<times> nat" where
  "fetch_range num_cores total_row_count start_offset_id chunk_size i =
    (let range_start = i * chunk_size + start_offset_id
     in (range_start,
         if i = num_cores - 1 then start_offset_id + total_row_count + 1 else range_start + chunk_size))"

definition fetch_ranges :: "nat \<Rightarrow> nat \<Rightarrow> nat \<Rightarrow> nat \<Rightarrow> (nat \<times> nat) list" where
  "fetch_ranges num_cores num_connections total_row_count start_offset_id =
    (let chunk_size = div_ceil total_row_count num_connections
     in map (fetch_range num_cores total_row_count start_offset_id chunk_size) [0..<num_connections])"

definition fetch_task ::
  "'f server \<Rightarrow> CreateCodebookArgs \<Rightarrow> nat \<Rightarrow> nat \<Rightarrow> nat \<times> nat \<Rightarrow> (('f, 'x) pq_world_scheme, 'f DatasetItem list) prog" where
  "fetch_task srv args start_idx end_idx r =
    seq (do_call srv (Connect (cc_db_uri args)))
    (seq (do_call srv Begin)
    (and_then (query srv (''SELECT '' @ quote_ident (cc_pk args) @ ''::text, '' @ quote_ident (cc_column args) @
        ''['' @ nat_digits (start_idx + 1) @ '':'' @ nat_digits (end_idx + 1) @ ''] FROM '' @ cc_full_table_name args @
        '' WHERE '' @ quote_ident (cc_pk args) @ '' >= '' @ nat_digits (fst r) @ '' AND '' @ quote_ident (cc_pk args) @
        '' < '' @ nat_digits (snd r) @ '' ORDER BY id;'') [])
      (\<lambda>rows. lift_r (dataset_items rows))))"

text \<open>Training of the \<open>i\<close>-th subvector of the range; an error of k-means is unwrapped, a panic.\<close>

definition train_task ::
  "('f list list \<Rightarrow> nat \<Rightarrow> 'f list list result) \<Rightarrow> bool \<Rightarrow> CreateCodebookArgs \<Rightarrow> 'f DatasetItem list \<Rightarrow> byte \<Rightarrow>
   nat \<times> nat \<Rightarrow> (('f, 'x) pq_world_scheme, nat \<times> 'f list list) prog" where
  "train_task kmeans cb args dataset progress_per_chunk iid =
    (let i = fst iid; subvector_id = snd iid;
         start_index = i * cc_subvector_dim args; end_index = start_index + cc_subvector_dim args in
     and_then (lift_r (traverse_r (\<lambda>r. slice_r (vec r) start_index end_index) dataset)) (\<lambda>subset_dataset.
     and_then (case create_codebook_for_subset kmeans subset_dataset (cc_cluster_count args) of
                 Inl e \<Rightarrow> throw (Panicked ''called Result::unwrap on an Err value'')
               | Inr centroids \<Rightarrow> return centroids) (\<lambda>centroids.
       seq (report_progress cb progress_per_chunk) (return (subvector_id, centroids)))))"

definition write_centroid ::
  "'f server \<Rightarrow> ('f \<Rightarrow> string) \<Rightarrow> nat \<Rightarrow> nat \<times> 'f list \<Rightarrow> (('f, 'x) pq_world_scheme, unit) prog" where
  "write_centroid srv f32_to_string subvector_id ic =
    seq (do_call srv (CopyData (nat_digits subvector_id)))
    (seq (do_call srv (CopyData [CHR 0x09]))
    (seq (do_call srv (CopyData (nat_digits (fst ic))))
    (seq (do_call srv (CopyData [CHR 0x09]))
    (seq (do_call srv (CopyData ''{''))
    (and_then (lift_r (cut_list f32_to_string (snd ic))) (\<lambda>row_str.
     seq (do_call srv (CopyData row_str))
    (seq (do_call srv (CopyData ''}''))
         (do_call srv (CopyData [CHR 0x0A])))))))))"

definition write_codebook ::
  "'f server \<Rightarrow> ('f \<Rightarrow> string) \<Rightarrow> (nat \<times> 'f list list) list \<Rightarrow> (('f, 'x) pq_world_scheme, unit) prog" where
  "write_codebook srv f32_to_string all_centroids =
    for_each (\<lambda>(subvector_id, centroids).
        for_each (write_centroid srv f32_to_string subvector_id) (zip [0..<length centroids] centroids))
      all_centroids"

text \<open>The map is filled inside the loop over centroids, so a subvector without centroids has no entry.\<close>

definition codebooks_of :: "(nat \<times> 'f list list) list \<Rightarrow> 'f codebooks" where
  "codebooks_of all_centroids =
    fold (\<lambda>(subvector_id, centroids) m. if centroids = [] then m else AList.update subvector_id centroids m)
      all_centroids []"

definition subvector_range :: "nat \<Rightarrow> nat \<Rightarrow> nat \<Rightarrow> (nat \<times> nat) result" where
  "subvector_range start_idx end_idx subvector_dim =
    and_then_r (div_usize start_idx subvector_dim) (\<lambda>a.
    and_then_r (div_usize end_idx subvector_dim) (\<lambda>b.
    and_then_r (sub_usize b a) (\<lambda>_. Inr (a, b))))"

definition create_codebook ::
  "'f server \<Rightarrow> ('f list list \<Rightarrow> nat \<Rightarrow> 'f list list result) \<Rightarrow> ('f \<Rightarrow> string) \<Rightarrow> nat \<Rightarrow> bool \<Rightarrow> CreateCodebookArgs \<Rightarrow>
   (('f, 'x) pq_world_scheme, 'f codebooks \<times> 'f DatasetItem list) prog" where
  "create_codebook srv kmeans f32_to_string num_cores cb args =
    and_then (lift_r (subvector_indices args)) (\<lambda>(start_idx, end_idx).
    and_then (connections_for_codebook srv num_cores args) (\<lambda>num_connections.
    and_then (par_tasks (map (fetch_task srv args start_idx end_idx)
        (fetch_ranges num_cores (max num_connections 1) (cc_total_row_count args) (cc_start_offset_id args)))) (\<lambda>rows.
    let dataset = concat rows in
    seq (report_progress cb 5)
    (and_then (lift_r (subvector_range start_idx end_idx (cc_subvector_dim args))) (\<lambda>(range_start, range_end).
     let progress_per_chunk = word_of_nat (70 div (range_end - range_start)) in
     and_then (par_tasks (map (train_task kmeans cb args dataset progress_per_chunk)
         (zip [0..<range_end - range_start] [range_start..<range_end]))) (\<lambda>all_centroids.
     seq (set_and_report_progress cb 75)
     (seq (do_call srv (CopyIn (''COPY '' @ cc_codebook_table_name args @ '' FROM stdin'')))
     (seq (write_codebook srv f32_to_string all_centroids)
     (seq (do_call srv CopyFinish)
          (return (codebooks_of all_centroids, dataset)))))))))))"

section \<open>Fetching\<close>

interpretation fetch_plan: range_plan
  "fetch_range (Suc (k + d)) total_rows offset (div_ceil total_rows (Suc k))" k offset "offset + total_rows"
  for k d total_rows offset
proof unfold_locales
  show "offset + total_rows \<le> snd (fetch_range (Suc (k + d)) total_rows offset (div_ceil total_rows (Suc k)) k)"
    using div_ceil_mult_ge[of "Suc k" total_rows] by (simp add: fetch_range_def Let_def algebra_simps)
qed (auto simp: fetch_range_def Let_def algebra_simps)

lemma length_fetch_ranges [simp]: "length (fetch_ranges cores n t off) = n"
  by (simp add: fetch_ranges_def Let_def)

lemma nth_fetch_ranges:
  "i < n \<Longrightarrow> fetch_ranges cores n t off ! i = fetch_range cores t off (div_ceil t n) i"
  by (simp add: fetch_ranges_def Let_def)

text \<open>
  However many connections up to the number of cores fetch the dataset, every row id from the
  start offset up to the offset plus the row count (exclusive) is fetched by exactly one of them.
\<close>

theorem fetch_ranges_cover:
  assumes "0 < n" "n \<le> num_cores" "offset \<le> x" "x < offset + total_rows"
  shows "\<exists>!i. i < n \<and> fst (fetch_ranges num_cores n total_rows offset ! i) \<le> x
    \<and> x < snd (fetch_ranges num_cores n total_rows offset ! i)"
proof -
  obtain k where k: "n = Suc k" using assms(1) by (cases n) auto
  obtain d where d: "num_cores = Suc (k + d)" using assms(2) k by (metis Suc_le_eq less_iff_Suc_add)
  have "i < n \<and> fst (fetch_ranges num_cores n total_rows offset ! i) \<le> x
      \<and> x < snd (fetch_ranges num_cores n total_rows offset ! i) \<longleftrightarrow>
    i \<le> k \<and> fst (fetch_range (Suc (k + d)) total_rows offset (div_ceil total_rows (Suc k)) i) \<le> x
      \<and> x < snd (fetch_range (Suc (k + d)) total_rows offset (div_ceil total_rows (Suc k)) i)" for i
    by (auto simp: k d nth_fetch_ranges)
  then show ?thesis using fetch_plan.covered_once[of offset x total_rows k d] assms(3,4) by simp
qed

theorem fetch_ranges_cover_witness:
  "\<exists>!i. i < 3 \<and> fst (fetch_ranges 8 3 10 100 ! i) \<le> 109 \<and> 109 < snd (fetch_ranges 8 3 10 100 ! i)"
  using fetch_ranges_cover[of 3 8 100 109 10] by simp

section \<open>Number of codebooks\<close>

lemma subvector_range_whole:
  "0 < d \<Longrightarrow> subvector_range 0 dim d = Inr (0, dim div d)"
  by (simp add: subvector_range_def div_usize_def sub_usize_def)

text \<open>
  Training the whole vector produces at least one codebook per split, and exactly one per split
  only when the part of the dimension that the splits leave over is smaller than a subvector;
  otherwise more codebooks than splits are trained and written (dimension 10 in 4 splits: 5), and
  the reader of the codebook table, which wants exactly one per split, refuses them.
\<close>

theorem codebooks_per_split:
  assumes "0 < splits" "splits \<le> dim"
  shows "\<exists>count \<ge> splits. subvector_range 0 dim (dim div splits) = Inr (0, count)
    \<and> (count = splits \<longleftrightarrow> dim - splits * (dim div splits) < dim div splits)"
proof -
  let ?d = "dim div splits"
  have d: "0 < ?d" using assms by (simp add: div_greater_zero_iff)
  have le: "splits * ?d \<le> dim" by simp
  then have ge: "splits \<le> dim div ?d" using d by (simp add: less_eq_div_iff_mult_less_eq)
  have "dim div ?d = splits \<longleftrightarrow> dim div ?d < Suc splits" using ge by linarith
  also have "\<dots> \<longleftrightarrow> dim < Suc splits * ?d" using d by (rule div_less_iff_less_mult)
  also have "\<dots> \<longleftrightarrow> dim - splits * ?d < ?d" using le d by (auto simp del: times_div_less_eq_dividend)
  finally show ?thesis using ge d by (auto simp: subvector_range_whole)
qed

theorem codebooks_per_split_witness:
  "\<exists>count \<ge> 4. subvector_range 0 10 (10 div 4) = Inr (0, count)
    \<and> (count = 4 \<longleftrightarrow> (10 :: nat) - 4 * (10 div 4) < 10 div 4)"
  using codebooks_per_split[of 4 10] by simp

section \<open>Trained codebooks\<close>

text \<open>
  A codebook is what k-means returned for the slices of the dataset: with equally long,
  non-empty slices the matrix handed to k-means has the slices as its rows, and the centroids it
  returns are cut back into the same rows.
\<close>

theorem create_codebook_for_subset_rows:
  assumes "dataset \<noteq> []" "0 < d" "\<forall>r \<in> set dataset. length r = d"
    and "kmeans dataset k = Inr cs" "\<forall>c \<in> set cs. length c = d"
  shows "create_codebook_for_subset kmeans dataset k = Inr cs"
proof -
  have "length (concat dataset) = length dataset * d"
    using assms(3) by (induction dataset) auto
  moreover obtain f r where "dataset = f # r" "length f = d"
    using assms(1,3) by (cases dataset) auto
  ultimately show ?thesis
    using chunks_blocks[OF assms(2,3)] chunks_blocks[OF assms(2,5)] assms(2,4)
    by (simp add: create_codebook_for_subset_def Let_def)
qed

theorem create_codebook_for_subset_rows_witness:
  "create_codebook_for_subset (\<lambda>m k. Inr (take k m)) [[1, 2], [3, 4], [5, 6 :: int]] 2 = Inr [[1, 2], [3, 4]]"
  using create_codebook_for_subset_rows[of "[[1, 2], [3, 4], [5, 6 :: int]]" 2 "\<lambda>m k. Inr (take k m)" 2 "[[1, 2], [3, 4]]"]
  by simp

end
