(* ===== verification/PQ.thy ===== *)
theory PQ
  imports PQ_Codebook
begin

text \<open>
  \<^verbatim>\<open>lantern_cli/src/pq/mod.rs\<close>, \<^verbatim>\<open>setup.rs\<close>, \<^verbatim>\<open>cli.rs\<close> and \<^verbatim>\<open>gcp_batch.rs\<close>: the product quantization job, run
  locally or as two cloud batch jobs. \<^verbatim>\<open>md5\<close>, the random generator and the cloud batch service are
  arguments; a random draw below \<open>n\<close> is \<open>rng n\<close>. A transaction that is dropped without commit is
  rolled back by the database, which is not part of the trace unless the source drops it
  explicitly. SQL texts are given up to white space.
\<close>

section \<open>Table setup\<close>

definition LANTERN_INTERNAL_SCHEMA_NAME :: string where
  "LANTERN_INTERNAL_SCHEMA_NAME = ''_lantern_internal''"

definition setup_tables ::
  "'f server \<Rightarrow> string \<Rightarrow> string \<Rightarrow> string \<Rightarrow> bool \<Rightarrow> (('f, 'x) pq_world_scheme, unit) prog" where
  "setup_tables srv full_table_name full_codebook_table_name pq_column_name overwrite =
    seq (if overwrite
         then do_call srv (BatchExecute
           (''DROP TABLE IF EXISTS '' @ full_codebook_table_name @ '' CASCADE; ALTER TABLE '' @ full_table_name @
            '' DROP COLUMN IF EXISTS '' @ quote_ident pq_column_name @ '';''))
         else return ())
    (do_call srv (BatchExecute
      (''CREATE UNLOGGED TABLE '' @ full_codebook_table_name @ '' (subvector_id INT, centroid_id INT, c REAL[]); '' @
       ''ALTER TABLE '' @ full_table_name @ '' ADD COLUMN '' @ quote_ident pq_column_name @ '' PQVEC; '' @
       ''CREATE INDEX ON '' @ full_codebook_table_name @ '' USING BTREE(subvector_id, centroid_id); '' @
       ''CREATE INDEX ON '' @ full_codebook_table_name @ '' USING BTREE(centroid_id);'')))"

definition setup_triggers ::
  "'f server \<Rightarrow> (string \<Rightarrow> string) \<Rightarrow> string \<Rightarrow> string \<Rightarrow> string \<Rightarrow> string \<Rightarrow> string \<Rightarrow> nat \<Rightarrow>
   (('f, 'x) pq_world_scheme, unit) prog" where
  "setup_triggers srv md5 full_table_name full_codebook_table_name pq_column column_name distance_metric splits =
    (let name_hash = md5 (full_table_name @ pq_column);
         insert_trigger_name = ''_pq_trigger_in_'' @ name_hash;
         update_trigger_name = ''_pq_trigger_up_'' @ name_hash;
         trigger_fn_name = LANTERN_INTERNAL_SCHEMA_NAME @ ''._set_pq_col_'' @ name_hash;
         pq_column = quote_ident pq_column; column_name = quote_ident column_name
     in do_call srv (BatchExecute
       (''DROP TRIGGER IF EXISTS '' @ insert_trigger_name @ '' ON '' @ full_table_name @ ''; '' @
        ''DROP TRIGGER IF EXISTS '' @ update_trigger_name @ '' ON '' @ full_table_name @ ''; '' @
        ''CREATE OR REPLACE FUNCTION '' @ trigger_fn_name @ ''() RETURNS trigger LANGUAGE plpgsql AS $body$ BEGIN '' @
        ''IF NEW.'' @ column_name @ '' IS NULL THEN NEW.'' @ pq_column @ '' := NULL; ELSE NEW.'' @ pq_column @ '' := '' @
        LANTERN_INTERNAL_SCHEMA_NAME @ ''.quantize_vector(NEW.'' @ column_name @ '', '' @ nat_digits splits @ '', '' @
        [squote] @ full_codebook_table_name @ [squote] @ ''::regclass, '' @ [squote] @ distance_metric @ [squote] @
        ''); END IF; RETURN NEW; END $body$; '' @
        ''CREATE TRIGGER '' @ insert_trigger_name @ '' BEFORE INSERT ON '' @ full_table_name @
        '' FOR EACH ROW EXECUTE FUNCTION '' @ trigger_fn_name @ ''(); '' @
        ''CREATE TRIGGER '' @ update_trigger_name @ '' BEFORE UPDATE OF '' @ column_name @ '' ON '' @ full_table_name @
        '' FOR EACH ROW EXECUTE FUNCTION '' @ trigger_fn_name @ ''();'')))"

definition make_codebook_logged_and_readonly :: "'f server \<Rightarrow> string \<Rightarrow> (('f, 'x) pq_world_scheme, unit) prog" where
  "make_codebook_logged_and_readonly srv full_codebook_table_name =
    do_call srv (BatchExecute
      (''ALTER TABLE '' @ full_codebook_table_name @ '' SET LOGGED; '' @
       ''CREATE TRIGGER readonly_guard BEFORE INSERT OR UPDATE OR DELETE ON '' @ full_codebook_table_name @
       '' EXECUTE PROCEDURE '' @ LANTERN_INTERNAL_SCHEMA_NAME @ ''.forbid_table_change();''))"

section \<open>Arguments\<close>

record PQArgs =
  pa_uri :: string
  pa_table :: string
  pa_schema :: string
  pa_column :: string
  pa_codebook_table_name :: "string option"
  pa_dataset_limit :: "nat option"
  pa_start_offset_id :: "nat option"
  pa_dataset_size :: "nat option"
  pa_clusters :: nat
  pa_splits :: nat
  pa_subvector_id :: "nat option"
  pa_skip_table_setup :: bool
  pa_skip_vector_quantization :: bool
  pa_skip_codebook_creation :: bool
  pa_pk :: string
  pa_overwrite :: bool
  pa_total_task_count :: "nat option"
  pa_parallel_task_count :: "nat option"
  pa_quantization_task_id :: "nat option"
  pa_run_on_gcp :: bool
  pa_gcp_cli_image_tag :: "string option"
  pa_gcp_project :: "string option"
  pa_gcp_region :: "string option"
  pa_gcp_image :: "string option"
  pa_gcp_quantization_task_count :: "nat option"
  pa_gcp_quantization_task_parallelism :: "nat option"
  pa_gcp_clustering_task_parallelism :: "nat option"
  pa_gcp_enable_image_streaming :: bool
  pa_gcp_clustering_cpu :: "nat option"
  pa_gcp_clustering_memory_gb :: "nat option"
  pa_gcp_quantization_cpu :: "nat option"
  pa_gcp_quantization_memory_gb :: "nat option"

section \<open>The local job\<close>

definition gen_range :: "(nat \<Rightarrow> nat) \<Rightarrow> nat \<Rightarrow> nat result" where
  "gen_range rng n = (if n = 0 then Inl (Panicked ''cannot sample empty range'') else Inr (rng n))"

definition dataset_limit_of :: "PQArgs \<Rightarrow> nat" where
  "dataset_limit_of args = (case pa_dataset_limit args of Some limit \<Rightarrow> limit | None \<Rightarrow> 0)"

definition start_offset :: "(nat \<Rightarrow> nat) \<Rightarrow> nat option \<Rightarrow> nat \<Rightarrow> nat \<Rightarrow> nat result" where
  "start_offset rng given limit total_row_count =
    (case given of
       Some i \<Rightarrow> Inr i
     | None \<Rightarrow>
         if limit > 0
         then gen_range rng (if limit > total_row_count then 0 else total_row_count - limit)
         else Inr 0)"

definition row_count :: "'f server \<Rightarrow> PQArgs \<Rightarrow> string \<Rightarrow> (('f, 'x) pq_world_scheme, nat) prog" where
  "row_count srv args full_table_name =
    (case pa_dataset_size args of
       Some row_cnt \<Rightarrow> return row_cnt
     | None \<Rightarrow>
         and_then (query_one srv (''SELECT COUNT('' @ quote_ident (pa_pk args) @ '') FROM '' @ full_table_name @ '';'') [])
           (\<lambda>row. and_then (lift_r (get_int 0 row)) (\<lambda>n. return (as_usize n))))"

definition max_connections_query :: "'f server \<Rightarrow> (('f, 'x) pq_world_scheme, nat) prog" where
  "max_connections_query srv =
    and_then (query_one srv (''SELECT setting::int FROM pg_settings WHERE name = '' @ quote_literal ''max_connections'') [])
      (\<lambda>row. and_then (lift_r (get_int 0 row)) (\<lambda>n. return (as_usize n)))"

definition vector_dimension :: "'f server \<Rightarrow> PQArgs \<Rightarrow> string \<Rightarrow> (('f, 'x) pq_world_scheme, nat) prog" where
  "vector_dimension srv args full_table_name =
    (let c = quote_ident (pa_column args) in
     and_then (query_one srv (''SELECT ARRAY_LENGTH('' @ c @ '', 1) FROM '' @ full_table_name @ '' WHERE '' @ c @
         '' IS NOT NULL LIMIT 1;'') [])
       (\<lambda>row. and_then (lift_r (get_int 0 row)) (\<lambda>n. return (as_usize n))))"

definition setup_phase ::
  "'f server \<Rightarrow> (string \<Rightarrow> string) \<Rightarrow> PQArgs \<Rightarrow> string \<Rightarrow> string \<Rightarrow> string \<Rightarrow> (('f, 'x) pq_world_scheme, unit) prog" where
  "setup_phase srv md5 args full_table_name full_codebook_table_name pq_column_name =
    seq (setup_tables srv full_table_name full_codebook_table_name pq_column_name (pa_overwrite args))
    (seq (setup_triggers srv md5 full_table_name full_codebook_table_name pq_column_name (pa_column args) ''l2sq''
           (pa_splits args))
    (seq (do_call srv Commit) (do_call srv Begin)))"

text \<open>The part after the codebook: \<^verbatim>\<open>quantize_vectors\<close>, the cancellation check and the export.\<close>

definition quantize_phase ::
  "('f::{zero,plus,minus,times,linorder}) server \<Rightarrow> (nat \<Rightarrow> nat) \<Rightarrow> 'f \<Rightarrow> bool \<Rightarrow> bool \<Rightarrow> PQArgs \<Rightarrow> string \<Rightarrow> nat \<Rightarrow> nat \<Rightarrow>
   'f codebooks \<Rightarrow> 'f DatasetItem list \<Rightarrow> (('f, 'x) pq_world_scheme, unit) prog" where
  "quantize_phase srv rng f32_max cb is_canceled args pq_column_name vector_dim subvector_dim codebooks dataset =
    and_then (lift_r (quantize_vectors f32_max dataset vector_dim subvector_dim (pa_splits args) codebooks)) (\<lambda>rows.
    seq (set_and_report_progress cb 90)
    (if is_canceled then throw (Bail ''Job cancelled'')
     else write_quantized_rows srv rng cb rows (pa_schema args) (pa_table args) pq_column_name (pa_pk args) ''quantize''))"

definition quantize_table_local ::
  "('f::{zero,plus,minus,times,linorder}) server \<Rightarrow> ('f list list \<Rightarrow> nat \<Rightarrow> 'f list list result) \<Rightarrow> ('f \<Rightarrow> string) \<Rightarrow>
   (string \<Rightarrow> string) \<Rightarrow> (nat \<Rightarrow> nat) \<Rightarrow> 'f \<Rightarrow> nat \<Rightarrow> bool \<Rightarrow> bool \<Rightarrow> PQArgs \<Rightarrow> string \<Rightarrow> string \<Rightarrow> string \<Rightarrow> string \<Rightarrow>
   (('f, 'x) pq_world_scheme, unit) prog" where
  "quantize_table_local srv kmeans f32_to_string md5 rng f32_max num_cores cb is_canceled args db_uri
      full_table_name full_codebook_table_name pq_column_name =
    seq (do_call srv (Connect db_uri))
    (seq (do_call srv Begin)
    (seq (if pa_skip_table_setup args then return ()
          else setup_phase srv md5 args full_table_name full_codebook_table_name pq_column_name)
    (if \<not> pa_skip_table_setup args \<and> pa_skip_codebook_creation args \<and> pa_skip_vector_quantization args
     then set_and_report_progress cb 100
     else
       let limit = dataset_limit_of args in
       if limit > 0 \<and> limit < pa_clusters args
       then throw (Bail ''--dataset-limit should be greater than or equal to cluster count'')
       else
         and_then (row_count srv args full_table_name) (\<lambda>total_row_count.
         if total_row_count < pa_clusters args
         then throw (Bail (''--clusters ('' @ nat_digits (pa_clusters args) @
                '') should be smaller than dataset size ('' @ nat_digits total_row_count @ '')''))
         else
           and_then (lift_r (start_offset rng (pa_start_offset_id args) limit total_row_count)) (\<lambda>start_offset_id.
           let total_row_count = (if limit > 0 \<and> limit \<le> total_row_count then limit else total_row_count) in
           and_then (max_connections_query srv) (\<lambda>max_connections.
           if pa_skip_codebook_creation args \<and> \<not> pa_skip_vector_quantization args
           then
             seq (do_call srv Rollback)
             (seq (quantize_and_write_vectors srv rng f32_max num_cores cb
                    \<lparr>qa_codebook_table_name = full_codebook_table_name, qa_full_table_name = full_table_name,
                     qa_db_uri = db_uri, qa_schema = pa_schema args, qa_table = pa_table args,
                     qa_column = pa_column args, qa_pq_column_name = pq_column_name, qa_pk = pa_pk args,
                     qa_splits = pa_splits args, qa_total_row_count = total_row_count,
                     qa_total_task_count = pa_total_task_count args,
                     qa_parallel_task_count = pa_parallel_task_count args,
                     qa_quantization_task_id = pa_quantization_task_id args,
                     qa_max_connections = max_connections\<rparr>)
                  (set_and_report_progress cb 100))
           else
             and_then (vector_dimension srv args full_table_name) (\<lambda>vector_dim.
             if vector_dim < pa_splits args
             then throw (Bail (''--splits ('' @ nat_digits (pa_splits args) @
                    '') should be less than or equal to vector dimensions ('' @ nat_digits vector_dim @ '')''))
             else
               and_then (lift_r (div_usize vector_dim (pa_splits args))) (\<lambda>subvector_dim.
               and_then (create_codebook srv kmeans f32_to_string num_cores cb
                   \<lparr>cc_db_uri = db_uri, cc_pk = pa_pk args, cc_column = pa_column args,
                    cc_full_table_name = full_table_name, cc_codebook_table_name = full_codebook_table_name,
                    cc_total_row_count = total_row_count, cc_max_connections = max_connections,
                    cc_splits = pa_splits args, cc_vector_dim = vector_dim, cc_subvector_dim = subvector_dim,
                    cc_cluster_count = pa_clusters args, cc_start_offset_id = start_offset_id,
                    cc_subvector_id = pa_subvector_id args,
                    cc_parallel_task_count = pa_parallel_task_count args\<rparr>) (\<lambda>(codebooks, dataset).
               seq (if pa_subvector_id args = None
                    then make_codebook_logged_and_readonly srv full_codebook_table_name else return ())
               (seq (if pa_skip_vector_quantization args then return ()
                     else quantize_phase srv rng f32_max cb is_canceled args pq_column_name vector_dim subvector_dim
                            codebooks dataset)
               (seq (do_call srv Commit) (set_and_report_progress cb 100))))))))))))"


section \<open>The cloud job\<close>

record JobStatus =
  state :: string
  status_events :: "string list option"

record BatchJobResponse =
  job_name :: "string option"
  job_status :: JobStatus

definition last_event :: "JobStatus \<Rightarrow> string" where
  "last_event st =
    (case status_events st of
       None \<Rightarrow> ''None''
     | Some evs \<Rightarrow> if length evs > 0 then last evs else ''None'')"

text \<open>The polling loop; \<open>poll i\<close> is what the service answers to the \<open>i\<close>-th request, an error if it cannot be read.\<close>

partial_function (option) wait_for_job :: "(nat \<Rightarrow> BatchJobResponse result) \<Rightarrow> string \<Rightarrow> nat \<Rightarrow> unit result option" where
  "wait_for_job poll name i =
    (case poll i of
       Inl e \<Rightarrow> Some (Inl e)
     | Inr job \<Rightarrow>
         if state (job_status job) = ''FAILED''
         then Some (Inl (Bail (''Job: '' @ name @ '' failed. Last event description: '' @ last_event (job_status job))))
         else if state (job_status job) = ''SUCCEEDED'' then Some (Inr ())
         else wait_for_job poll name (Suc i))"

definition run_batch_job :: "BatchJobResponse result \<Rightarrow> (nat \<Rightarrow> BatchJobResponse result) \<Rightarrow> unit result option" where
  "run_batch_job created poll =
    (case created of
       Inl e \<Rightarrow> Some (Inl e)
     | Inr result \<Rightarrow>
         (case job_name result of
            None \<Rightarrow> Some (Inl (Bail ''Invalid job response''))
          | Some name \<Rightarrow> wait_for_job poll name 0))"

text \<open>The request body of a batch job: the template with its variables filled in.\<close>

record batch_job =
  bj_image :: string
  bj_image_streaming :: bool
  bj_db_uri :: string
  bj_table :: string
  bj_column :: string
  bj_clusters :: nat
  bj_splits :: nat
  bj_start_offset_id :: "nat option"
  bj_dataset_size :: nat
  bj_dataset_limit :: "nat option"
  bj_quantization_task_count :: "nat option"
  bj_parallel_task_count :: nat
  bj_cpu_milli :: nat
  bj_memory_mib :: nat
  bj_task_count :: nat
  bj_parallelism :: nat
  bj_machine_type :: string
  bj_parent :: string

record 'f gcp_world = "'f pq_world" +
  submitted :: "batch_job list"

definition submit :: "(batch_job \<Rightarrow> unit result) \<Rightarrow> batch_job \<Rightarrow> (('f, 'x) gcp_world_scheme, unit) prog" where
  "submit cloud job s = (cloud job, s\<lparr>submitted := submitted s @ [job]\<rparr>)"

definition or_default :: "'a option \<Rightarrow> 'a \<Rightarrow> 'a" where
  "or_default x d = (case x of Some v \<Rightarrow> v | None \<Rightarrow> d)"

definition clustering_cpu_default :: "nat \<Rightarrow> nat" where
  "clustering_cpu_default total_row_count =
    (if total_row_count < 100000 then 8
     else if total_row_count < 1000000 then 16
     else if total_row_count < 5000000 then 32
     else if total_row_count < 10000000 then 64
     else 96)"

text \<open>\<^verbatim>\<open>(cpu as f64 * 3.75) as usize\<close>\<close>

definition memory_for :: "nat \<Rightarrow> nat" where
  "memory_for cpu = cpu * 15 div 4"

record sizing =
  quantization_cpu_count :: nat
  quantization_memory_gb :: nat
  clustering_cpu_count :: nat
  clustering_memory_gb :: nat
  quantization_task_count :: nat
  quantization_task_parallelism :: nat
  clustering_task_parallelism :: nat

definition gcp_sizing :: "PQArgs \<Rightarrow> nat \<Rightarrow> nat \<Rightarrow> sizing result" where
  "gcp_sizing args max_connections total_row_count =
    (let q_cpu = or_default (pa_gcp_quantization_cpu args) 4;
         q_mem = or_default (pa_gcp_quantization_memory_gb args) (memory_for q_cpu);
         c_cpu = or_default (pa_gcp_quantization_cpu args) (clustering_cpu_default total_row_count);
         c_mem = or_default (pa_gcp_clustering_memory_gb args) (memory_for c_cpu);
         q_tasks = or_default (pa_gcp_quantization_task_count args) (max (total_row_count div 100000) 1)
     in and_then_r (div_usize max_connections q_cpu) (\<lambda>per_task.
        and_then_r (div_usize max_connections (pa_splits args)) (\<lambda>per_split.
          let q_par = min (or_default (pa_gcp_quantization_task_parallelism args) (max 1 per_task)) q_tasks;
              c_par = or_default (pa_gcp_clustering_task_parallelism args) (min (pa_splits args) (max 1 per_split))
          in Inr \<lparr>quantization_cpu_count = q_cpu, quantization_memory_gb = q_mem, clustering_cpu_count = c_cpu,
                  clustering_memory_gb = c_mem, quantization_task_count = q_tasks,
                  quantization_task_parallelism = q_par, clustering_task_parallelism = c_par\<rparr>)))"

definition clustering_job :: "PQArgs \<Rightarrow> string \<Rightarrow> string \<Rightarrow> sizing \<Rightarrow> nat \<Rightarrow> nat \<Rightarrow> batch_job" where
  "clustering_job args gcp_image parent sz total_row_count start_offset_id =
    \<lparr>bj_image = gcp_image, bj_image_streaming = pa_gcp_enable_image_streaming args, bj_db_uri = pa_uri args,
     bj_table = pa_table args, bj_column = pa_column args, bj_clusters = pa_clusters args, bj_splits = pa_splits args,
     bj_start_offset_id = Some start_offset_id, bj_dataset_size = total_row_count,
     bj_dataset_limit = Some (or_default (pa_dataset_limit args) total_row_count),
     bj_quantization_task_count = None, bj_parallel_task_count = clustering_task_parallelism sz,
     bj_cpu_milli = clustering_cpu_count sz * 1000, bj_memory_mib = clustering_memory_gb sz * 1000,
     bj_task_count = pa_splits args, bj_parallelism = clustering_task_parallelism sz,
     bj_machine_type = ''n1-standard-'' @ nat_digits (clustering_cpu_count sz), bj_parent = parent\<rparr>"

definition quantization_job :: "PQArgs \<Rightarrow> string \<Rightarrow> string \<Rightarrow> sizing \<Rightarrow> nat \<Rightarrow> batch_job" where
  "quantization_job args gcp_image parent sz total_row_count =
    \<lparr>bj_image = gcp_image, bj_image_streaming = pa_gcp_enable_image_streaming args, bj_db_uri = pa_uri args,
     bj_table = pa_table args, bj_column = pa_column args, bj_clusters = pa_clusters args, bj_splits = pa_splits args,
     bj_start_offset_id = None, bj_dataset_size = total_row_count, bj_dataset_limit = None,
     bj_quantization_task_count = Some (quantization_task_count sz),
     bj_parallel_task_count = quantization_task_parallelism sz,
     bj_cpu_milli = quantization_cpu_count sz * 1000, bj_memory_mib = quantization_memory_gb sz * 1000,
     bj_task_count = quantization_task_count sz, bj_parallelism = quantization_task_parallelism sz,
     bj_machine_type = ''n1-standard-'' @ nat_digits (quantization_cpu_count sz), bj_parent = parent\<rparr>"

definition codebook_stage ::
  "'f server \<Rightarrow> (batch_job \<Rightarrow> unit result) \<Rightarrow> (nat \<Rightarrow> nat) \<Rightarrow> bool \<Rightarrow> PQArgs \<Rightarrow> string \<Rightarrow> string \<Rightarrow> string \<Rightarrow> sizing \<Rightarrow> nat \<Rightarrow>
   (('f, 'x) gcp_world_scheme, unit) prog" where
  "codebook_stage srv cloud rng cb args full_codebook_table_name gcp_image parent sz total_row_count =
    (let limit = dataset_limit_of args in
     if limit > 0 \<and> limit < pa_clusters args
     then throw (Bail ''--dataset-limit should be greater than or equal to cluster count'')
     else
       and_then (lift_r (start_offset rng None limit total_row_count)) (\<lambda>start_offset_id.
       seq (submit cloud (clustering_job args gcp_image parent sz total_row_count start_offset_id))
       (seq (make_codebook_logged_and_readonly srv full_codebook_table_name)
       (seq (do_call srv Commit) (set_and_report_progress cb 90)))))"

definition quantize_table_on_gcp ::
  "'f server \<Rightarrow> (batch_job \<Rightarrow> unit result) \<Rightarrow> (string \<Rightarrow> string) \<Rightarrow> (nat \<Rightarrow> nat) \<Rightarrow> bool \<Rightarrow> PQArgs \<Rightarrow>
   string \<Rightarrow> string \<Rightarrow> string \<Rightarrow> string \<Rightarrow> (('f, 'x) gcp_world_scheme, unit) prog" where
  "quantize_table_on_gcp srv cloud md5 rng cb args db_uri full_table_name full_codebook_table_name pq_column_name =
    (case pa_gcp_project args of
       None \<Rightarrow> throw (Bail ''Argument --gcp-project is required'')
     | Some gcp_project_id \<Rightarrow>
         (let gcp_region = or_default (pa_gcp_region args) ''us-central1'';
              gcp_cli_image_tag = or_default (pa_gcp_cli_image_tag args) ''0.0.39-cpu'';
              gcp_image = or_default (pa_gcp_image args)
                (gcp_region @ ''-docker.pkg.dev/'' @ gcp_project_id @ ''/lanterndata/lantern-cli:'' @ gcp_cli_image_tag);
              parent = ''projects/'' @ gcp_project_id @ ''/locations/'' @ gcp_region
          in seq (do_call srv (Connect db_uri))
            (seq (do_call srv Begin)
            (and_then (max_connections_query srv) (\<lambda>max_connections.
             and_then (row_count srv args full_table_name) (\<lambda>total_row_count.
             and_then (lift_r (gcp_sizing args max_connections total_row_count)) (\<lambda>sz.
             seq (if pa_skip_table_setup args then return ()
                  else seq (setup_phase srv md5 args full_table_name full_codebook_table_name pq_column_name)
                           (set_and_report_progress cb 5))
             (seq (if pa_skip_codebook_creation args then return ()
                   else codebook_stage srv cloud rng cb args full_codebook_table_name gcp_image parent sz total_row_count)
             (seq (if pa_skip_vector_quantization args then return ()
                   else submit cloud (quantization_job args gcp_image parent sz total_row_count))
                  (set_and_report_progress cb 100))))))))))"

section \<open>Entry point\<close>

definition quantize_table ::
  "('f::{zero,plus,minus,times,linorder}) server \<Rightarrow> (batch_job \<Rightarrow> unit result) \<Rightarrow> ('f list list \<Rightarrow> nat \<Rightarrow> 'f list list result) \<Rightarrow>
   ('f \<Rightarrow> string) \<Rightarrow> (string \<Rightarrow> string) \<Rightarrow> (nat \<Rightarrow> nat) \<Rightarrow> 'f \<Rightarrow> nat \<Rightarrow> bool \<Rightarrow> bool \<Rightarrow> PQArgs \<Rightarrow>
   (('f, 'x) gcp_world_scheme, unit) prog" where
  "quantize_table srv cloud kmeans f32_to_string md5 rng f32_max num_cores cb is_canceled args =
    (let full_table_name = get_full_table_name (pa_schema args) (pa_table args);
         codebook_table_name = or_default (pa_codebook_table_name args)
           (''pq_'' @ pa_table args @ ''_'' @ pa_column args)
     in if length codebook_table_name > 63
        then throw (Bail (''Codebook table name '' @ [dquote] @ codebook_table_name @ [dquote] @ '' exceeds 63 char limit''))
        else
          let full_codebook_table_name = get_full_table_name LANTERN_INTERNAL_SCHEMA_NAME codebook_table_name;
              pq_column_name = pa_column args @ ''_pq'';
              db_uri = append_params_to_uri (pa_uri args) ''connect_timeout=10''
          in if pa_run_on_gcp args
             then quantize_table_on_gcp srv cloud md5 rng cb args db_uri full_table_name full_codebook_table_name
                    pq_column_name
             else quantize_table_local srv kmeans f32_to_string md5 rng f32_max num_cores cb is_canceled args db_uri
                    full_table_name full_codebook_table_name pq_column_name)"

end
