(* ===== verification/PQ_Progress.thy ===== *)
theory PQ_Progress
  imports PQ
begin

text \<open>
  Progress reporting of the product quantization job, over every server, k-means and random
  generator: an invariant of the progress counter carried through all the phases of
  \<^verbatim>\<open>quantize_table_local\<close> with the program logic of the prelude, and the sizing of the cloud jobs.
\<close>

section \<open>The invariant\<close>

definition progress_ok :: "nat \<Rightarrow> nat \<Rightarrow> ('f, 'x) pq_world_scheme \<Rightarrow> bool" where
  "progress_ok lo hi s \<longleftrightarrow>
    lo \<le> unat (progress s) \<and> unat (progress s) \<le> hi \<and>
    sorted (reported s) \<and> (\<forall>r \<in> set (reported s). r \<le> progress s)"

abbreviation stays :: "nat \<Rightarrow> nat \<Rightarrow> (('f, 'x) pq_world_scheme, 'a) prog \<Rightarrow> bool" where
  "stays lo hi m \<equiv> keeps (progress_ok lo hi) m"

named_theorems stays_intros \<open>programs that leave the progress alone\<close>

lemma progress_ok_trace [simp]: "progress_ok lo hi (s\<lparr>trace := t\<rparr>) = progress_ok lo hi s"
  by (simp add: progress_ok_def)

lemma progress_ok_weaken: "progress_ok lo hi s \<Longrightarrow> lo' \<le> lo \<Longrightarrow> hi \<le> hi' \<Longrightarrow> progress_ok lo' hi' s"
  by (simp add: progress_ok_def)

lemma stays_call [stays_intros]: "stays lo hi (call srv c)"
  by (auto simp: triple_def call_def)

lemma stays_do_call [stays_intros]: "stays lo hi (do_call srv c)"
  unfolding do_call_def by (intro keeps_seq stays_call triple_return)

lemma stays_lift [stays_intros]: "stays lo hi (lift_r r)"
  by (rule triple_lift_r)

lemma stays_return [stays_intros]: "stays lo hi (return x)"
  by (rule triple_return)

lemma stays_throw [stays_intros]: "stays lo hi (throw e)"
  by (rule triple_throw)

lemma triple_if:
  "(b \<Longrightarrow> triple P m Q E) \<Longrightarrow> (\<not> b \<Longrightarrow> triple P k Q E) \<Longrightarrow> triple P (if b then m else k) Q E"
  by simp

lemma triple_case_prod: "(\<And>a b. triple P (f a b) Q E) \<Longrightarrow> triple P (case x of (a, b) \<Rightarrow> f a b) Q E"
  by (cases x) simp

lemma stays_if [stays_intros]:
  "(b \<Longrightarrow> stays lo hi m) \<Longrightarrow> (\<not> b \<Longrightarrow> stays lo hi k) \<Longrightarrow> stays lo hi (if b then m else k)"
  by simp

lemma stays_query [stays_intros]: "stays lo hi (query srv q ps)"
  unfolding query_def
  by (intro keeps_and_then stays_call) (auto split: response.split intro: stays_intros)

lemma stays_query_one [stays_intros]: "stays lo hi (query_one srv q ps)"
  unfolding query_one_def
  by (intro keeps_and_then stays_call) (auto split: response.split list.split intro: stays_intros)

lemma stays_for_each [stays_intros]:
  "(\<And>x. x \<in> set xs \<Longrightarrow> stays lo hi (f x)) \<Longrightarrow> stays lo hi (for_each f xs)"
  by (induction xs) (auto intro: stays_intros keeps_seq)

declare keeps_seq [stays_intros] keeps_and_then [stays_intros]

lemma report_progress_step:
  "hi + unat p < 256 \<Longrightarrow>
   triple (progress_ok lo hi) (report_progress cb p) (progress_ok (lo + unat p) (hi + unat p)) E"
proof -
  assume bound: "hi + unat p < 256"
  have "progress_ok (lo + unat p) (hi + unat p)
      (s\<lparr>progress := progress s + p, reported := if cb then reported s @ [progress s + p] else reported s\<rparr>)"
    if "progress_ok lo hi s" for s :: "('f, 'x) pq_world_scheme"
  proof -
    have nowrap: "unat (progress s + p) = unat (progress s) + unat p"
      using that bound by (intro unat_plus_simple[THEN iffD1] ) (auto simp: progress_ok_def word_le_nat_alt unat_word_ariths)
    then have "progress s \<le> progress s + p" by (simp add: word_le_nat_alt)
    with that nowrap show ?thesis
      by (auto simp: progress_ok_def sorted_append intro: order_trans)
  qed
  then show ?thesis by (auto simp: triple_def report_progress_def Let_def)
qed


lemma set_progress_step:
  assumes "unat p < 256"
  shows "triple (progress_ok lo hi) (set_and_report_progress cb p :: (('b, 'c) pq_world_scheme, unit) prog)
    (progress_ok (max lo (unat p)) (max hi (unat p))) E"
proof -
  have "progress_ok (max lo (unat p)) (max hi (unat p)) (snd (set_and_report_progress cb p s))
      \<and> is_ok (fst (set_and_report_progress cb p s))" if ok: "progress_ok lo hi s" for s :: "('b, 'c) pq_world_scheme"
  proof (cases "progress s \<ge> p")
    case True
    then show ?thesis using ok by (auto simp: set_and_report_progress_def progress_ok_def word_le_nat_alt)
  next
    case False
    let ?q = "p - progress s" and ?cur = "unat (progress s)"
    have d: "unat ?q = unat p - ?cur" using False by (intro unat_sub) simp
    have "triple (progress_ok ?cur ?cur) (report_progress cb ?q)
        (progress_ok (?cur + unat ?q) (?cur + unat ?q)) (\<lambda>s :: ('b, 'c) pq_world_scheme. False)"
      by (rule report_progress_step) (use d False assms in \<open>auto simp: word_le_nat_alt\<close>)
    moreover have "progress_ok ?cur ?cur s" using ok by (simp add: progress_ok_def)
    ultimately have "progress_ok (unat p) (unat p) (snd (report_progress cb ?q s))
        \<and> is_ok (fst (report_progress cb ?q s))"
      using d False by (auto simp: triple_def report_progress_def Let_def word_le_nat_alt)
    moreover have "lo \<le> unat p" using ok False by (simp add: progress_ok_def word_le_nat_alt)
    ultimately show ?thesis
      using False by (auto simp: set_and_report_progress_def intro: progress_ok_weaken)
  qed
  note step = this
  show ?thesis unfolding triple_def
  proof (intro conjI allI impI; elim conjE)
    fix s :: "('b, 'c) pq_world_scheme" and x s'
    assume "progress_ok lo hi s" "set_and_report_progress cb p s = (Inr x, s')"
    then show "progress_ok (max lo (unat p)) (max hi (unat p)) s'" using step[of s] by simp
  next
    fix s :: "('b, 'c) pq_world_scheme" and e s'
    assume "progress_ok lo hi s" "set_and_report_progress cb p s = (Inl e, s')"
    then show "E s'" using step[of s] by simp
  qed
qed

section \<open>Tasks\<close>

lemma run_tasks_keeps:
  "(\<And>p. p \<in> set ps \<Longrightarrow> keeps P p) \<Longrightarrow> P s \<Longrightarrow> P (snd (run_tasks ps s))"
proof (induction ps arbitrary: s)
  case (Cons p ps)
  obtain r s1 where p: "p s = (r, s1)" by fastforce
  have "keeps P p" by (rule Cons.prems(1)) simp
  from tripleD[OF this Cons.prems(2) p] have "P s1" by simp
  then have "P (snd (run_tasks ps s1))"
    by (rule Cons.IH[rotated]) (rule Cons.prems(1), simp)
  then show ?case by (cases "run_tasks ps s1") (simp add: p)
qed simp

lemma snd_par_tasks: "snd (par_tasks ps s) = snd (run_tasks ps s)"
  by (auto simp: par_tasks_def split: prod.split list.split sum.split)

lemma tripleI_snd: "(\<And>s. P s \<Longrightarrow> Q (snd (m s))) \<Longrightarrow> triple P m Q Q"
  unfolding triple_def by (metis snd_conv)

lemma stays_par_tasks [stays_intros]:
  "(\<And>p. p \<in> set ps \<Longrightarrow> stays lo hi p) \<Longrightarrow> stays lo hi (par_tasks ps)"
  by (rule tripleI_snd, unfold snd_par_tasks, rule run_tasks_keeps)

lemma run_tasks_progress:
  assumes "\<And>p b. p \<in> set ps \<Longrightarrow> b + q < 256 \<Longrightarrow>
      triple (progress_ok lo b) p (progress_ok lo (b + q)) (progress_ok lo (b + q))"
    and "b + length ps * q < 256" "progress_ok lo b s"
  shows "progress_ok lo (b + length ps * q) (snd (run_tasks ps s))"
  using assms
proof (induction ps arbitrary: s b)
  case (Cons p ps)
  obtain r s1 where p: "p s = (r, s1)" by fastforce
  have "triple (progress_ok lo b) p (progress_ok lo (b + q)) (progress_ok lo (b + q))"
    using Cons.prems(1)[of p b] Cons.prems(2) by simp
  from tripleD[OF this Cons.prems(3) p] have "progress_ok lo (b + q) s1" by simp
  then have "progress_ok lo (b + q + length ps * q) (snd (run_tasks ps s1))"
    using Cons.prems by (intro Cons.IH) simp_all
  then show ?case by (cases "run_tasks ps s1") (simp add: p add.assoc)
qed simp

lemma par_tasks_progress:
  assumes "\<And>p b. p \<in> set ps \<Longrightarrow> b + q < 256 \<Longrightarrow>
      triple (progress_ok lo b) p (progress_ok lo (b + q)) (progress_ok lo (b + q))"
    and "b + length ps * q < 256"
  shows "triple (progress_ok lo b) (par_tasks ps) (progress_ok lo (b + length ps * q)) (progress_ok lo (b + length ps * q))"
  by (rule tripleI_snd, unfold snd_par_tasks, rule run_tasks_progress[OF assms])

section \<open>Phases\<close>

lemma stays_write_row [stays_intros]: "stays lo hi (write_row srv row)"
  unfolding write_row_def by (intro stays_intros)

lemma stays_write_progress:
  assumes "5 \<le> lo" "processed \<le> n" "0 < n"
  shows "stays lo hi (write_progress cb processed n :: (('b, 'c) pq_world_scheme, unit) prog)"
proof -
  have "5 * processed div n \<le> 5" using div_le_mono[of "5 * processed" "5 * n" n] assms(2,3) by simp
  then have "unat (word_of_nat (5 * processed div n) :: byte) \<le> 5"
    by (simp add: unat_byte_of_nat)
  then have "\<not> (word_of_nat (5 * processed div n) :: byte) > progress s" if "progress_ok lo hi s"
    for s :: "('b, 'c) pq_world_scheme"
    using that assms(1) by (simp add: progress_ok_def word_less_nat_alt)
  then show ?thesis by (auto simp: triple_def write_progress_def Let_def)
qed

lemma stays_write_rows:
  "5 \<le> lo \<Longrightarrow> processed + length rows = n \<Longrightarrow> stays lo hi (write_rows srv cb processed n rows)"
proof (induction rows arbitrary: processed)
  case (Cons row rows)
  then show ?case
    by (simp only: write_rows.simps) (intro keeps_seq stays_write_row stays_write_progress Cons.IH; simp)
qed (simp add: stays_return)

lemma stays_write_quantized_rows [stays_intros]:
  "5 \<le> lo \<Longrightarrow> stays lo hi (write_quantized_rows srv rng cb rows schema table pq_column pk suffix)"
  unfolding write_quantized_rows_def Let_def
  by (intro stays_intros stays_write_rows) simp_all

lemma stays_quantize_task [stays_intros]:
  "5 \<le> lo \<Longrightarrow> stays lo hi (quantize_task srv rng f32_max cb args codebooks d r)"
  unfolding quantize_task_def Let_def
  by (intro stays_intros) (auto split: list.split intro!: stays_intros)

lemma stays_connections_for_quantization [stays_intros]:
  "stays lo hi (connections_for_quantization srv num_cores args)"
  unfolding connections_for_quantization_def by (auto split: option.split intro!: stays_intros)

lemma stays_setup_phase [stays_intros]: "stays lo hi (setup_phase srv md5 args t c p)"
  unfolding setup_phase_def setup_tables_def setup_triggers_def Let_def by (intro stays_intros)

lemma stays_queries [stays_intros]:
  "stays lo hi (row_count srv args t)" "stays lo hi (max_connections_query srv)" "stays lo hi (vector_dimension srv args t)"
  unfolding row_count_def max_connections_query_def vector_dimension_def Let_def
  by (auto split: option.split intro!: stays_intros)

lemma stays_fetch_task [stays_intros]: "stays lo hi (fetch_task srv args a b r)"
  unfolding fetch_task_def by (intro stays_intros)

lemma stays_connections_for_codebook [stays_intros]: "stays lo hi (connections_for_codebook srv num_cores args)"
  unfolding connections_for_codebook_def Let_def by (auto split: option.split intro!: stays_intros)

lemma stays_write_codebook [stays_intros]: "stays lo hi (write_codebook srv f cs)"
  unfolding write_codebook_def write_centroid_def by (intro stays_intros) (auto intro!: stays_intros)

lemma stays_readonly [stays_intros]: "stays lo hi (make_codebook_logged_and_readonly srv t)"
  unfolding make_codebook_logged_and_readonly_def by (intro stays_intros)


section \<open>The whole job\<close>

lemma stays_error: "stays lo hi m \<Longrightarrow> hi \<le> hi' \<Longrightarrow> triple (progress_ok lo hi) m (progress_ok lo hi) (progress_ok 0 hi')"
  by (erule triple_conseq) (auto intro: progress_ok_weaken)

lemma train_task_progress:
  assumes "b + unat q < 256"
  shows "triple (progress_ok lo b) (train_task kmeans cb args dataset q iid)
    (progress_ok lo (b + unat q)) (progress_ok lo (b + unat q))"
proof -
  have mid: "stays lo b (lift_r r)" "stays lo b (case c of Inl e \<Rightarrow> throw e' | Inr x \<Rightarrow> return x)" for r e' c
    by (auto split: sum.split intro: stays_intros)
  have up: "triple (progress_ok lo b) m (progress_ok lo b) (progress_ok lo (b + unat q))" if "stays lo b m" for m
    using that by (rule triple_conseq) (auto intro: progress_ok_weaken)
  have "triple (progress_ok lo b) (report_progress cb q) (progress_ok lo (b + unat q)) (progress_ok lo (b + unat q))"
    using report_progress_step[OF assms, of lo cb] by (rule triple_conseq) (auto intro: progress_ok_weaken)
  from triple_seq[OF this triple_return] show ?thesis
    unfolding train_task_def Let_def
    by (intro triple_and_then[OF up[OF mid(1)]] triple_and_then[OF up[OF mid(2)]])
qed

lemma create_codebook_progress:
  "triple (progress_ok 0 0) (create_codebook srv kmeans f num_cores cb args) (progress_ok 75 75) (progress_ok 0 75)"
proof -
  let ?E = "progress_ok 0 75"
  have pre: "triple (progress_ok 0 0) m (progress_ok 0 0) ?E" if "stays 0 0 m" for m
    using stays_error[OF that, of 75] by simp
  have post: "triple (progress_ok 75 75) m (progress_ok 75 75) ?E" if "stays 75 75 m" for m
    using stays_error[OF that, of 75] by simp
  have load: "triple (progress_ok 0 0) (report_progress cb 5) (progress_ok 5 5) ?E"
    using report_progress_step[of 0 5 0 cb ?E] by simp
  have range: "triple (progress_ok 5 5) (lift_r r) (progress_ok 5 5) ?E" for r
    using stays_error[OF stays_lift, of 5 75 5 r] by simp
  have train: "triple (progress_ok 5 5)
      (par_tasks (map (train_task kmeans cb args dataset (word_of_nat (70 div (b - a)))) (zip [0..<b - a] [a..<b])))
      (progress_ok 5 75) ?E" for dataset a b
  proof -
    let ?q = "word_of_nat (70 div (b - a)) :: byte"
    have q: "unat ?q = 70 div (b - a)"
      using div_le_dividend[of 70 "b - a"] by (subst unat_byte_of_nat, intro mod_less) linarith
    have le: "(b - a) * unat ?q \<le> 70" by (simp add: q)
    have "triple (progress_ok 5 5) (par_tasks ps) (progress_ok 5 (5 + length ps * unat ?q))
        (progress_ok 5 (5 + length ps * unat ?q))"
      if "ps = map (train_task kmeans cb args dataset ?q) (zip [0..<b - a] [a..<b])" for ps
      by (rule par_tasks_progress) (use that le in \<open>auto intro: train_task_progress\<close>)
    from this[OF refl] show ?thesis
      by (rule triple_conseq) (use le in \<open>auto intro: progress_ok_weaken\<close>)
  qed
  have to75: "triple (progress_ok 5 75) (set_and_report_progress cb 75) (progress_ok 75 75) ?E"
    using set_progress_step[of 75 5 75 cb ?E] by simp
  show ?thesis
    unfolding create_codebook_def Let_def
    apply (rule triple_and_then[OF pre[OF stays_lift]], clarsimp)
    apply (rule triple_and_then[OF pre[OF stays_connections_for_codebook]])
    apply (rule triple_and_then[OF pre])
     apply (rule stays_par_tasks, auto intro: stays_fetch_task)[1]
    apply (rule triple_seq[OF load])
    apply (rule triple_and_then[OF range], clarsimp)
    apply (rule triple_and_then[OF train])
    apply (rule triple_seq[OF to75])
    apply (rule post)
    apply (intro stays_intros)
    done
qed


lemma quantize_and_write_vectors_progress:
  "triple (progress_ok 0 0) (quantize_and_write_vectors srv rng f32_max num_cores cb args)
    (progress_ok 10 10) (progress_ok 0 10)"
proof -
  have pre: "triple (progress_ok 0 0) m (progress_ok 0 0) (progress_ok 0 10)" if "stays 0 0 m" for m
    using stays_error[OF that, of 10] by simp
  have post: "triple (progress_ok 10 10) m (progress_ok 10 10) (progress_ok 0 10)" if "stays 10 10 m" for m
    using stays_error[OF that, of 10] by simp
  have bail: "triple (progress_ok 0 0) (throw e) Q (progress_ok 0 10)" for e Q
    by (rule triple_throw) (auto intro: progress_ok_weaken)
  have to10: "triple (progress_ok 0 0) (set_and_report_progress cb 10) (progress_ok 10 10) (progress_ok 0 10)"
    using set_progress_step[of 10 0 0 cb "progress_ok 0 10"] by simp
  show ?thesis
    unfolding quantize_and_write_vectors_def
    apply (rule triple_seq[OF pre[OF stays_do_call]])
    apply (rule triple_and_then[OF pre[OF stays_lift]], clarsimp)
    apply (rule triple_and_then[OF pre[OF stays_query]])
    apply (clarsimp simp: bail)
    apply (rule triple_seq[OF pre[OF stays_lift]])
    apply (rule triple_and_then[OF pre[OF stays_lift]])
    apply (rule triple_and_then[OF pre[OF stays_lift]])
    apply (clarsimp simp: bail)
    apply (rule triple_seq[OF to10])
    apply (rule post)
    apply (intro stays_intros)
    apply (auto intro: stays_quantize_task)
    done
qed

lemma quantize_phase_progress:
  "triple (progress_ok 75 75) (quantize_phase srv rng f32_max cb is_canceled args c vd sd cbs ds)
    (progress_ok 90 90) (progress_ok 0 100)"
proof -
  have pre: "triple (progress_ok 75 75) m (progress_ok 75 75) (progress_ok 0 100)" if "stays 75 75 m" for m
    using stays_error[OF that, of 100] by simp
  have post: "triple (progress_ok 90 90) m (progress_ok 90 90) (progress_ok 0 100)" if "stays 90 90 m" for m
    using stays_error[OF that, of 100] by simp
  have to90: "triple (progress_ok 75 75) (set_and_report_progress cb 90) (progress_ok 90 90) (progress_ok 0 100)"
    using set_progress_step[of 90 75 75 cb "progress_ok 0 100"] by simp
  show ?thesis
    unfolding quantize_phase_def
    by (rule triple_and_then[OF pre[OF stays_lift]], rule triple_seq[OF to90], rule post, intro stays_intros) simp
qed

lemma finish_progress:
  "lo \<le> 100 \<Longrightarrow> hi \<le> 100 \<Longrightarrow>
   triple (progress_ok lo hi) (set_and_report_progress cb 100) (progress_ok 100 100) E"
  using set_progress_step[of 100 lo hi cb E] by (simp add: max_def split: if_splits)

lemma quantize_table_local_triple:
  "triple (progress_ok 0 0)
     (quantize_table_local srv kmeans f md5 rng f32_max num_cores cb is_canceled args uri t c p)
     (progress_ok 100 100) (progress_ok 0 100)"
proof -
  let ?E = "progress_ok 0 100"
  have pre: "triple (progress_ok 0 0) m (progress_ok 0 0) ?E" if "stays 0 0 m" for m
    using stays_error[OF that, of 100] by simp
  have bail: "triple (progress_ok 0 0) (throw e) Q ?E" for e Q
    by (rule triple_throw) (auto intro: progress_ok_weaken)
  have qw: "triple (progress_ok 0 0) (quantize_and_write_vectors srv rng f32_max num_cores cb a) (progress_ok 10 10) ?E" for a
    using quantize_and_write_vectors_progress by (rule triple_conseq) (auto intro: progress_ok_weaken)
  have cc: "triple (progress_ok 0 0) (create_codebook srv kmeans f num_cores cb a) (progress_ok 75 75) ?E" for a
    using create_codebook_progress by (rule triple_conseq) (auto intro: progress_ok_weaken)
  have last: "triple (progress_ok 75 100) (seq (do_call srv Commit) (set_and_report_progress cb 100)) (progress_ok 100 100) ?E"
    using stays_error[OF stays_do_call, of 100 100] by (intro triple_seq[OF _ finish_progress]) auto
  have qp: "triple (progress_ok 75 75)
      (if pa_skip_vector_quantization args then return ()
       else quantize_phase srv rng f32_max cb is_canceled args p vd sd cbs ds) (progress_ok 75 100) ?E" for vd sd cbs ds
  proof (cases "pa_skip_vector_quantization args")
    case True
    have "triple (progress_ok 75 75) (return ()) (progress_ok 75 75) ?E" by (rule triple_return)
    then have "triple (progress_ok 75 75) (return ()) (progress_ok 75 100) ?E"
      by (rule triple_conseq) (auto intro: progress_ok_weaken)
    with True show ?thesis by simp
  next
    case False
    have "triple (progress_ok 75 75) (quantize_phase srv rng f32_max cb is_canceled args p vd sd cbs ds)
        (progress_ok 75 100) ?E"
      using quantize_phase_progress by (rule triple_conseq) (auto intro: progress_ok_weaken)
    with False show ?thesis by simp
  qed
  have ro: "triple (progress_ok 75 75)
      (if pa_subvector_id args = None then make_codebook_logged_and_readonly srv c else return ()) (progress_ok 75 75) ?E"
    by (rule stays_error) (intro stays_intros, simp)
  show ?thesis
    unfolding quantize_table_local_def Let_def
    apply (rule triple_seq[OF pre[OF stays_do_call]])
    apply (rule triple_seq[OF pre[OF stays_do_call]])
    apply (rule triple_seq[OF pre])
     apply (intro stays_intros)
    apply (rule triple_if, rule finish_progress, simp, simp)
    apply (rule triple_if, rule bail)
    apply (rule triple_and_then[OF pre[OF stays_queries(1)]])
    apply (rule triple_if, rule bail)
    apply (rule triple_and_then[OF pre[OF stays_lift]])
    apply (rule triple_and_then[OF pre[OF stays_queries(2)]])
    apply (rule triple_if)
     apply (rule triple_seq[OF pre[OF stays_do_call]], rule triple_seq[OF qw finish_progress]; simp)
    apply (rule triple_and_then[OF pre[OF stays_queries(3)]])
    apply (rule triple_if, rule bail)
    apply (rule triple_and_then[OF pre[OF stays_lift]])
    apply (rule triple_and_then[OF cc], rule triple_case_prod)
    apply (rule triple_seq[OF ro], rule triple_seq[OF qp last])
    done
qed



definition demo_args :: PQArgs where
  "demo_args = \<lparr>pa_uri = ''u'', pa_table = ''t'', pa_schema = ''public'', pa_column = ''v'', pa_codebook_table_name = None,
    pa_dataset_limit = Some 1000, pa_start_offset_id = None, pa_dataset_size = Some 1000, pa_clusters = 256,
    pa_splits = 2, pa_subvector_id = None, pa_skip_table_setup = False, pa_skip_vector_quantization = True,
    pa_skip_codebook_creation = True, pa_pk = ''id'', pa_overwrite = False, pa_total_task_count = None,
    pa_parallel_task_count = None, pa_quantization_task_id = None, pa_run_on_gcp = False, pa_gcp_cli_image_tag = None,
    pa_gcp_project = None, pa_gcp_region = None, pa_gcp_image = None, pa_gcp_quantization_task_count = None,
    pa_gcp_quantization_task_parallelism = None, pa_gcp_clustering_task_parallelism = None,
    pa_gcp_enable_image_streaming = True, pa_gcp_clustering_cpu = None, pa_gcp_clustering_memory_gb = None,
    pa_gcp_quantization_cpu = None, pa_gcp_quantization_memory_gb = None\<rparr>"



section \<open>Cloud jobs\<close>

text \<open>
  Tasks that run in parallel share the connections of the database: when \<open>p\<close> tasks run at the same
  time and \<open>p\<close> is at most the connection limit minus the two kept free, all the connections they open
  together stay below the limit minus two.
\<close>

theorem parallel_tasks_connections:
  assumes "quantization_connections num_cores limit p = Inr k" "p \<le> limit - 2"
  shows "p * max k 1 \<le> limit - 2"
proof -
  have p: "0 < p" "2 \<le> limit" "k = min num_cores ((limit - 2) div p)"
    using assms(1) by (auto simp: quantization_connections_def sub_usize_def div_usize_def split: if_splits)
  have "k \<le> (limit - 2) div p" by (simp add: p(3))
  then have "p * k \<le> p * ((limit - 2) div p)" by simp
  also have "\<dots> \<le> limit - 2" by simp
  finally show ?thesis using assms(2) by (simp add: max_def)
qed

theorem parallel_tasks_connections_witness: "(7 :: nat) * max 14 1 \<le> 100 - 2"
  using parallel_tasks_connections[of 32 100 7 14]
  by (simp add: quantization_connections_def sub_usize_def div_usize_def)

text \<open>
  The number of quantization tasks that run in parallel is at least one, at most the number of
  tasks, and, unless it is one, small enough that each task has a connection per core within the
  connection limit.
\<close>

theorem gcp_parallelism_bounds:
  assumes "gcp_sizing args limit rows = Inr sz"
    and "pa_gcp_quantization_task_parallelism args = None" "pa_gcp_quantization_task_count args = None"
  shows "1 \<le> quantization_task_parallelism sz \<and> quantization_task_parallelism sz \<le> quantization_task_count sz
    \<and> (quantization_task_parallelism sz = 1 \<or> quantization_task_parallelism sz * quantization_cpu_count sz \<le> limit)"
proof -
  let ?cpu = "or_default (pa_gcp_quantization_cpu args) 4"
  let ?tasks = "max (rows div 100000) 1"
  have sz: "quantization_task_parallelism sz = min (max 1 (limit div ?cpu)) ?tasks"
    "quantization_task_count sz = ?tasks" "quantization_cpu_count sz = ?cpu"
    using assms by (auto simp: gcp_sizing_def Let_def or_default_def and_then_r_eq_Inr div_usize_def split: if_splits)
  have "min (max 1 (limit div ?cpu)) ?tasks = 1 \<or> min (max 1 (limit div ?cpu)) ?tasks \<le> limit div ?cpu"
    by (auto simp: min_def max_def)
  moreover have "m * ?cpu \<le> limit" if "m \<le> limit div ?cpu" for m
    using that by (metis div_times_less_eq_dividend le_trans mult_le_mono1)
  ultimately show ?thesis unfolding sz by (auto simp: min_def max_def)
qed

theorem gcp_parallelism_bounds_witness:
  "\<exists>sz. gcp_sizing demo_args 100 2500000 = Inr sz \<and> 1 \<le> quantization_task_parallelism sz
    \<and> quantization_task_parallelism sz \<le> quantization_task_count sz
    \<and> (quantization_task_parallelism sz = 1 \<or> quantization_task_parallelism sz * quantization_cpu_count sz \<le> 100)"
proof -
  obtain sz where sz: "gcp_sizing demo_args 100 2500000 = Inr sz"
    by (simp add: gcp_sizing_def demo_args_def or_default_def div_usize_def Let_def)
  with gcp_parallelism_bounds[OF sz] show ?thesis by (simp add: demo_args_def)
qed

text \<open>
  The option \<^verbatim>\<open>--gcp-clustering-cpu\<close> has no effect on the size of any job: the sizing reads
  \<^verbatim>\<open>--gcp-quantization-cpu\<close> in its place.
\<close>

theorem clustering_cpu_ignored:
  "gcp_sizing (args\<lparr>pa_gcp_clustering_cpu := cpu\<rparr>) limit rows = gcp_sizing args limit rows"
  by (simp add: gcp_sizing_def)

text \<open>
  The wait for a cloud job ends at the first poll that reports a final state, with success or
  with the last status event as the error; if no poll ever reports one the wait does not end.
\<close>

theorem wait_for_job_result:
  assumes "\<forall>j < n. \<exists>job. poll j = Inr job \<and> state (job_status job) \<notin> {''FAILED'', ''SUCCEEDED''}"
    and "poll n = Inr job" "state (job_status job) \<in> {''FAILED'', ''SUCCEEDED''}"
  shows "wait_for_job poll name 0 =
    Some (if state (job_status job) = ''SUCCEEDED'' then Inr ()
          else Inl (Bail (''Job: '' @ name @ '' failed. Last event description: '' @ last_event (job_status job))))"
proof -
  have "wait_for_job poll name i =
    Some (if state (job_status job) = ''SUCCEEDED'' then Inr ()
          else Inl (Bail (''Job: '' @ name @ '' failed. Last event description: '' @ last_event (job_status job))))"
    if "i \<le> n" for i
    using that
  proof (induction "n - i" arbitrary: i)
    case 0
    then have "poll i = Inr job" using assms(2) by simp
    with assms(3) show ?case by (subst wait_for_job.simps) auto
  next
    case (Suc k)
    then obtain job' where "poll i = Inr job'" "state (job_status job') \<notin> {''FAILED'', ''SUCCEEDED''}"
      using assms(1) by (metis diff_is_0_eq' nat_le_linear nat_neq_iff nat.distinct(1) le_neq_implies_less)
    with Suc show ?case by (subst wait_for_job.simps) auto
  qed
  then show ?thesis by simp
qed

theorem wait_for_job_result_witness:
  "wait_for_job (\<lambda>i. Inr \<lparr>job_name = Some ''j'', job_status =
      \<lparr>state = (if i < 3 then ''RUNNING'' else ''SUCCEEDED''), status_events = None\<rparr>\<rparr>) ''j'' 0 = Some (Inr ())"
  using wait_for_job_result[of 3 "\<lambda>i. Inr \<lparr>job_name = Some ''j'', job_status =
      \<lparr>state = (if i < 3 then ''RUNNING'' else ''SUCCEEDED''), status_events = None\<rparr>\<rparr>"] by simp

text \<open>
  A dataset limit that is not smaller than the table makes the job panic: the random start offset
  is drawn from an empty range. Equality with the row count is an admissible limit everywhere else.
\<close>

theorem dataset_limit_of_whole_table_panics:
  assumes "0 < limit" "rows \<le> limit"
  shows "start_offset rng None limit rows = Inl (Panicked ''cannot sample empty range'')"
  using assms by (simp add: start_offset_def gen_range_def)

theorem dataset_limit_of_whole_table_panics_witness:
  "start_offset id None (dataset_limit_of demo_args) 1000 = Inl (Panicked ''cannot sample empty range'')"
  using dataset_limit_of_whole_table_panics[of 1000 1000 id] by (simp add: demo_args_def dataset_limit_of_def)

end
