(* ===== verification/Embedding_Runtime.thy ===== *)
theory Embedding_Runtime
  imports Interfaces
begin

text \<open>
  \<^verbatim>\<open>lantern_cli/src/embeddings/core\<close>: the runtimes that turn texts into vectors through an HTTP
  service. Modelled are the model tables, the cutting of the inputs into requests (by token count
  for OpenAI, by number of texts for Cohere), the retry loop and the assembly of the answers, and
  chat completion. The tokenizer, the HTTP service and the JSON library are arguments: a request
  body is the record of the fields that are put into the JSON text, a reply is what the service
  answers to an attempt.
\<close>

section \<open>Runtimes and job types\<close>

datatype EmbeddingJobType = EmbeddingGeneration | Completion

definition job_type_try_from :: "string \<Rightarrow> EmbeddingJobType result" where
  "job_type_try_from v =
    (if v = ''embedding_generation'' then Inr EmbeddingGeneration
     else if v = ''completion'' then Inr Completion
     else Inl (Bail (''Invalid job_type '' @ v)))"

datatype Runtime = Ort | OpenAi | Cohere

definition runtime_from_str :: "string \<Rightarrow> Runtime result" where
  "runtime_from_str input =
    (if input = ''ort'' then Inr Ort
     else if input = ''openai'' then Inr OpenAi
     else if input = ''cohere'' then Inr Cohere
     else Inl (Bail (''Invalid runtime '' @ input)))"

fun runtime_to_string :: "Runtime \<Rightarrow> string" where
  "runtime_to_string Ort = ''ort''"
| "runtime_to_string OpenAi = ''openai''"
| "runtime_to_string Cohere = ''cohere''"

definition get_available_runtimes :: "string list" where
  "get_available_runtimes = map runtime_to_string [Ort, OpenAi, Cohere]"

text \<open>\<^verbatim>\<open>str::replace(pat, "")\<close> with a non-empty pattern: occurrences are removed from left to right.\<close>

function remove_all :: "string \<Rightarrow> string \<Rightarrow> string" where
  "remove_all pat s =
    (case s of
       [] \<Rightarrow> []
     | c # cs \<Rightarrow>
         if pat \<noteq> [] \<and> take (length pat) s = pat then remove_all pat (drop (length pat) s)
         else c # remove_all pat cs)"
  by pat_completeness auto
termination by (relation "measure (\<lambda>(pat, s). length s)") (auto simp: neq_Nil_conv)

declare remove_all.simps [simp del]

fun get_clean_model_name :: "string \<Rightarrow> Runtime \<Rightarrow> string" where
  "get_clean_model_name name OpenAi = remove_all ''openai/'' name"
| "get_clean_model_name name Cohere = remove_all ''cohere/'' name"
| "get_clean_model_name name Ort = name"

section \<open>Model tables\<close>

record OpenAiModelInfo =
  om_name :: string
  om_sequence_len :: nat
  om_dimensions :: nat
  om_var_dimension :: bool

definition last_path_part :: "string \<Rightarrow> string" where
  "last_path_part model_name = last (split_char (CHR ''/'') model_name)"

definition openai_model_new :: "string \<Rightarrow> EmbeddingJobType \<Rightarrow> OpenAiModelInfo result" where
  "openai_model_new model_name job_type =
    (let name = last_path_part model_name;
         info = (\<lambda>len dims var. Inr \<lparr>om_name = name, om_sequence_len = len, om_dimensions = dims, om_var_dimension = var\<rparr>);
         unsupported = Inl (Bail (''Unsupported model '' @ model_name))
     in case job_type of
          EmbeddingGeneration \<Rightarrow>
            (if model_name = ''text-embedding-ada-002'' then info 8190 1536 False
             else if model_name = ''text-embedding-3-small'' then info 8190 1536 True
             else if model_name = ''text-embedding-3-large'' then info 8190 3072 True
             else unsupported)
        | Completion \<Rightarrow>
            (if model_name \<in> set [''gpt-4'', ''gpt-4o'', ''gpt-4o-mini'', ''gpt-4-turbo'']
             then info 128000 0 False else unsupported))"

definition OPENAI_MODEL_INFO_MAP :: "string list" where
  "OPENAI_MODEL_INFO_MAP = [''text-embedding-ada-002'', ''text-embedding-3-small'', ''text-embedding-3-large'']"

definition COMPLETION_MODEL_INFO_MAP :: "string list" where
  "COMPLETION_MODEL_INFO_MAP = [''gpt-4'', ''gpt-4-turbo'', ''gpt-4o'', ''gpt-4o-mini'']"

record CohereModelInfo =
  co_name :: string
  co_sequence_len :: nat
  co_dimensions :: nat

definition cohere_model_new :: "string \<Rightarrow> CohereModelInfo result" where
  "cohere_model_new model_name =
    (let name = last_path_part model_name;
         info = (\<lambda>dims. Inr \<lparr>co_name = name, co_sequence_len = 512, co_dimensions = dims\<rparr>)
     in if model_name = ''embed-english-v3.0'' then info 1024
        else if model_name = ''embed-multilingual-v3.0'' then info 1024
        else if model_name = ''embed-english-light-v3.0'' then info 384
        else if model_name = ''embed-multilingual-light-v3.0'' then info 384
        else if model_name = ''embed-english-v2.0'' then info 4096
        else if model_name = ''embed-english-light-v2.0'' then info 1024
        else if model_name = ''embed-multilingual-v2.0'' then info 768
        else Inl (Bail (''Unsupported model '' @ model_name)))"

definition COHERE_MODEL_INFO_MAP :: "string list" where
  "COHERE_MODEL_INFO_MAP = [''embed-english-v3.0'', ''embed-multilingual-v3.0'', ''embed-multilingual-light-v3.0'',
    ''embed-english-light-v3.0'', ''embed-english-v2.0'', ''embed-english-light-v2.0'', ''embed-multilingual-v2.0'']"

text \<open>\<^verbatim>\<open>check_and_get_model!\<close>: the model must be in the table.\<close>

definition check_and_get_model :: "string list \<Rightarrow> (string \<Rightarrow> 'm result) \<Rightarrow> string \<Rightarrow> 'm result" where
  "check_and_get_model model_map new model_name =
    (if model_name \<in> set model_map then new model_name
     else Inl (Bail (''Unsupported model '' @ model_name @ [CHR 0x0A] @ ''Available models: '' @ join '', '' model_map)))"

section \<open>OpenAI runtime\<close>

datatype OpenAiDeployment = Azure | OpenAiDeploy | Custom

record OpenAiRuntimeParams =
  op_base_url :: "string option"
  op_api_token :: "string option"
  op_azure_entra_token :: "string option"
  op_system_prompt :: "string option"
  op_dimensions :: "nat option"

record OpenAiRuntime =
  or_request_timeout :: nat
  or_base_url :: string
  or_headers :: "(string \<times> string) list"
  or_system_prompt :: string
  or_dimensions :: "nat option"
  or_deployment_type :: OpenAiDeployment

text \<open>The regular expression for an Azure deployment, as a scanner: literal parts and two names.\<close>

definition strip_prefix :: "string \<Rightarrow> string \<Rightarrow> string option" where
  "strip_prefix p s = (if take (length p) s = p then Some (drop (length p) s) else None)"

definition name_char :: "char \<Rightarrow> bool" where
  "name_char c = (let n = of_char c :: nat in
     97 \<le> n \<and> n \<le> 122 \<or> 65 \<le> n \<and> n \<le> 90 \<or> 48 \<le> n \<and> n \<le> 57 \<or> n = 95 \<or> n = 45)"

definition strip_name :: "string \<Rightarrow> string option" where
  "strip_name s = (if takeWhile name_char s = [] then None else Some (dropWhile name_char s))"

definition is_azure_url :: "string \<Rightarrow> bool" where
  "is_azure_url url =
    (Option.bind (strip_prefix ''https://'' url) (\<lambda>s.
     Option.bind (strip_name s) (\<lambda>s.
     Option.bind (strip_prefix ''.openai.azure.com/openai/deployments/'' s) (\<lambda>s.
     Option.bind (strip_name s) (\<lambda>s.
     strip_prefix ''/embeddings?api-version=2023-05-15'' s)))) = Some [])"

definition get_base_url :: "string option \<Rightarrow> OpenAiDeployment \<times> string" where
  "get_base_url base_url =
    (case base_url of
       None \<Rightarrow> (OpenAiDeploy, ''https://api.openai.com'')
     | Some url \<Rightarrow> if is_azure_url url then (Azure, url) else (Custom, url))"

definition openai_auth_header :: "OpenAiDeployment \<Rightarrow> OpenAiRuntimeParams \<Rightarrow> (string \<times> string) result" where
  "openai_auth_header deployment params =
    (if deployment = Azure
     then (case op_api_token params of
             Some key \<Rightarrow> Inr (''api-key'', key)
           | None \<Rightarrow>
               (case op_azure_entra_token params of
                  Some token \<Rightarrow> Inr (''Authorization'', ''Bearer '' @ token)
                | None \<Rightarrow> Inl (Bail (''api_token or azure_entra_id is required for Azure OpenAi runtime''))))
     else (case op_api_token params of
             None \<Rightarrow> Inl (Bail ''api_token is required for OpenAi runtime'')
           | Some token \<Rightarrow> Inr (''Authorization'', ''Bearer '' @ token)))"

definition openai_runtime_new :: "OpenAiRuntimeParams result \<Rightarrow> OpenAiRuntime result" where
  "openai_runtime_new parsed =
    and_then_r parsed (\<lambda>params.
      case get_base_url (op_base_url params) of (deployment, base_url) \<Rightarrow>
        and_then_r (openai_auth_header deployment params) (\<lambda>auth_header.
          Inr \<lparr>or_request_timeout = 120, or_base_url = base_url,
               or_headers = [(''Content-Type'', ''application/json''), auth_header],
               or_system_prompt = (case op_system_prompt params of Some p \<Rightarrow> p | None \<Rightarrow> []),
               or_dimensions = op_dimensions params, or_deployment_type = deployment\<rparr>))"

fun group_loop :: "nat \<Rightarrow> 't list list \<Rightarrow> 't list list list \<Rightarrow> 't list list \<Rightarrow> nat \<Rightarrow> 't list list list" where
  "group_loop max_token_count [] result current_group current_count =
    (if current_group = [] then result else result @ [current_group])"
| "group_loop max_token_count (inner_vec # input) result current_group current_count =
    (let n = length inner_vec in
     if current_count + n \<le> max_token_count
     then group_loop max_token_count input result (current_group @ [inner_vec]) (current_count + n)
     else group_loop max_token_count input (result @ [current_group]) [inner_vec] n)"

definition group_vectors_by_token_count :: "'t list list \<Rightarrow> nat \<Rightarrow> 't list list list" where
  "group_vectors_by_token_count input max_token_count = group_loop max_token_count input [] [] 0"

text \<open>Request bodies: the input (tokens or texts), the model name and the optional dimensions.\<close>

datatype 't request =
    TokenRequest "'t list list" string "nat option"
  | TextRequest "string list" string
  | CohereRequest "string list" string string

definition openai_chunk_inputs ::
  "(string \<Rightarrow> 't list) \<Rightarrow> OpenAiRuntime \<Rightarrow> string \<Rightarrow> string list \<Rightarrow> 't request list result" where
  "openai_chunk_inputs tokenize rt model_name inputs =
    (if or_deployment_type rt = Custom then Inr [TextRequest inputs model_name]
     else
       and_then_r (check_and_get_model OPENAI_MODEL_INFO_MAP (\<lambda>m. openai_model_new m EmbeddingGeneration) model_name)
         (\<lambda>model_info.
           let token_groups = map (\<lambda>input. let tokens = tokenize input
                 in if length tokens > om_sequence_len model_info then take (om_sequence_len model_info) tokens
                    else tokens) inputs;
               dimensions_input = (if om_var_dimension model_info \<and> or_dimensions rt \<noteq> None then or_dimensions rt else None)
           in Inr (map (\<lambda>g. TokenRequest g (om_name model_info) dimensions_input)
                (group_vectors_by_token_count token_groups (om_sequence_len model_info)))))"

section \<open>Cohere runtime\<close>

record CohereRuntimeParams =
  cp_api_token :: "string option"
  cp_input_type :: "string option"

record CohereRuntime =
  cr_request_timeout :: nat
  cr_max_batch_size :: nat
  cr_base_url :: string
  cr_headers :: "(string \<times> string) list"
  cr_input_type :: string

definition cohere_runtime_new :: "CohereRuntimeParams result \<Rightarrow> CohereRuntime result" where
  "cohere_runtime_new parsed =
    and_then_r parsed (\<lambda>params.
      case cp_api_token params of
        None \<Rightarrow> Inl (Bail ''api_token is required for OpenAi runtime'')
      | Some token \<Rightarrow>
          Inr \<lparr>cr_request_timeout = 120, cr_max_batch_size = 96, cr_base_url = ''https://api.cohere.ai'',
               cr_headers = [(''Content-Type'', ''application/json''), (''Authorization'', ''Bearer '' @ token)],
               cr_input_type = (case cp_input_type params of Some t \<Rightarrow> t | None \<Rightarrow> ''search_document'')\<rparr>)"

definition cohere_chunk_inputs :: "CohereRuntime \<Rightarrow> string \<Rightarrow> string list \<Rightarrow> 't request list result" where
  "cohere_chunk_inputs rt model_name inputs =
    and_then_r (check_and_get_model COHERE_MODEL_INFO_MAP cohere_model_new model_name) (\<lambda>model_info.
      if cr_max_batch_size rt = 0 then Inl (Panicked ''chunk size must be non-zero'')
      else Inr (map (\<lambda>g. CohereRequest g (co_name model_info) (cr_input_type rt)) (chunks (cr_max_batch_size rt) inputs)))"

section \<open>Posting\<close>

text \<open>
  What the service does with an attempt: the request cannot be sent, the body cannot be read (which
  \<^verbatim>\<open>?\<close> returns at once), or a body arrives, which the runtime parses.
\<close>

datatype 'b reply = SendError string | BodyError string | Body 'b

record 'f EmbeddingResult =
  embeddings :: "'f list list"
  processed_tokens :: nat

fun retry_loop :: "(nat \<Rightarrow> 'b reply) \<Rightarrow> ('b \<Rightarrow> 'r result) \<Rightarrow> nat \<Rightarrow> nat \<Rightarrow> nat \<Rightarrow> string \<Rightarrow> 'r result \<times> nat list" where
  "retry_loop send get_response_fn max_retries i 0 last_error =
    (Inl (Bail (''All '' @ nat_digits max_retries @ '' requests failed. Last error was: '' @ last_error)), [])"
| "retry_loop send get_response_fn max_retries i (Suc left) last_error =
    (let again = (\<lambda>e. case retry_loop send get_response_fn max_retries (Suc i) left e of
                        (r, waits) \<Rightarrow> (r, 4000 * (i + 1) # waits))
     in case send i of
          SendError e \<Rightarrow> again e
        | BodyError e \<Rightarrow> (Inl (IoError e), [])
        | Body b \<Rightarrow>
            (case get_response_fn b of
               Inl (Bail e) \<Rightarrow> again e
             | Inl (IoError e) \<Rightarrow> again e
             | Inl (Panicked e) \<Rightarrow> (Inl (Panicked e), [])
             | Inr result \<Rightarrow> (Inr result, [])))"

text \<open>The result, and the waiting times in milliseconds between the attempts.\<close>

definition post_with_retries :: "(nat \<Rightarrow> 'b reply) \<Rightarrow> ('b \<Rightarrow> 'r result) \<Rightarrow> nat \<Rightarrow> 'r result \<times> nat list" where
  "post_with_retries send get_response_fn max_retries = retry_loop send get_response_fn max_retries 0 max_retries []"

fun post_all ::
  "('q \<Rightarrow> nat \<Rightarrow> 'b reply) \<Rightarrow> ('b \<Rightarrow> 'f EmbeddingResult result) \<Rightarrow> 'q list \<Rightarrow> 'f list list \<Rightarrow> nat \<Rightarrow> 'f EmbeddingResult result" where
  "post_all http get_response [] responses tokens = Inr \<lparr>embeddings = responses, processed_tokens = tokens\<rparr>"
| "post_all http get_response (request_body # rest) responses tokens =
    and_then_r (fst (post_with_retries (http request_body) get_response 5)) (\<lambda>r.
      post_all http get_response rest (responses @ embeddings r) (tokens + processed_tokens r))"

definition post_request ::
  "('q \<Rightarrow> nat \<Rightarrow> 'b reply) \<Rightarrow> ('b \<Rightarrow> 'f EmbeddingResult result) \<Rightarrow> 'q list result \<Rightarrow> 'f EmbeddingResult result" where
  "post_request http get_response request_bodies =
    and_then_r request_bodies (\<lambda>bodies. post_all http get_response bodies [] 0)"

section \<open>Responses\<close>

record 'f OpenAiResponse =
  oa_data :: "'f list list"
  oa_total_tokens :: nat

record OpenAiChatResponse =
  oc_choices :: "string list"
  oc_total_tokens :: nat

record CompletionResult =
  message :: string
  completion_tokens :: nat

record BatchCompletionResult =
  messages :: "string list"
  batch_tokens :: nat

definition openai_get_response :: "'f OpenAiResponse result \<Rightarrow> 'f EmbeddingResult result" where
  "openai_get_response parsed =
    and_then_r parsed (\<lambda>r. Inr \<lparr>embeddings = oa_data r, processed_tokens = oa_total_tokens r\<rparr>)"

definition get_completion_response :: "OpenAiChatResponse result \<Rightarrow> CompletionResult result" where
  "get_completion_response parsed =
    and_then_r parsed (\<lambda>r.
      Inr \<lparr>message = (case oc_choices r of c # _ \<Rightarrow> c | [] \<Rightarrow> []), completion_tokens = oc_total_tokens r\<rparr>)"

record 'f CohereResponse =
  ch_embeddings :: "'f list list"
  ch_input_tokens :: nat

definition cohere_get_response :: "'f CohereResponse result \<Rightarrow> 'f EmbeddingResult result" where
  "cohere_get_response parsed =
    and_then_r parsed (\<lambda>r. Inr \<lparr>embeddings = ch_embeddings r, processed_tokens = ch_input_tokens r\<rparr>)"

text \<open>A chat request is the model, the system prompt and the user's query.\<close>

definition completion ::
  "(string \<times> string \<times> string \<Rightarrow> nat \<Rightarrow> 'b reply) \<Rightarrow> ('b \<Rightarrow> OpenAiChatResponse result) \<Rightarrow> OpenAiRuntime \<Rightarrow> string \<Rightarrow> string \<Rightarrow>
   nat option \<Rightarrow> CompletionResult result" where
  "completion http parse rt model_name query retries =
    fst (post_with_retries (http (model_name, or_system_prompt rt, query)) (\<lambda>b. get_completion_response (parse b))
      (case retries of Some n \<Rightarrow> n | None \<Rightarrow> 5))"

fun error_to_string :: "error \<Rightarrow> string" where
  "error_to_string (Bail e) = e"
| "error_to_string (IoError e) = e"
| "error_to_string (Panicked e) = e"

fun collect_completions :: "CompletionResult result list \<Rightarrow> string list \<Rightarrow> nat \<Rightarrow> string list \<times> nat" where
  "collect_completions [] responses tokens = (responses, tokens)"
| "collect_completions (Inr msg # rest) responses tokens =
    collect_completions rest (responses @ [message msg]) (tokens + completion_tokens msg)"
| "collect_completions (Inl e # rest) responses tokens =
    collect_completions rest (responses @ [''Error: '' @ error_to_string e]) tokens"

definition batch_completion ::
  "(string \<times> string \<times> string \<Rightarrow> nat \<Rightarrow> 'b reply) \<Rightarrow> ('b \<Rightarrow> OpenAiChatResponse result) \<Rightarrow> OpenAiRuntime \<Rightarrow> string \<Rightarrow>
   string list \<Rightarrow> BatchCompletionResult result" where
  "batch_completion http parse rt model_name queries =
    and_then_r
      (if or_deployment_type rt \<noteq> Custom
       then and_then_r (check_and_get_model COMPLETION_MODEL_INFO_MAP (\<lambda>m. openai_model_new m Completion) model_name)
              (\<lambda>_. Inr ())
       else Inr ())
      (\<lambda>_. case collect_completions (map (\<lambda>query. completion http parse rt model_name query (Some 5)) queries) [] 0 of
             (responses, tokens) \<Rightarrow> Inr \<lparr>messages = responses, batch_tokens = tokens\<rparr>)"

section \<open>Grouping\<close>

abbreviation token_count :: "'t list list \<Rightarrow> nat" where
  "token_count g \<equiv> sum_list (map length g)"

lemma group_loop_concat: "concat (group_loop m input result cur n) = concat result @ cur @ input"
  by (induction m input result cur n rule: group_loop.induct) (auto simp: Let_def)

lemma group_loop_fits:
  assumes "\<forall>g \<in> set result. token_count g \<le> m" "token_count cur = n" "n \<le> m" "\<forall>v \<in> set input. length v \<le> m"
  shows "\<forall>g \<in> set (group_loop m input result cur n). token_count g \<le> m"
  using assms by (induction m input result cur n rule: group_loop.induct) (auto simp: Let_def)

lemma group_loop_nonempty:
  assumes "[] \<notin> set result" "cur \<noteq> [] \<or> n = 0" "\<forall>v \<in> set input. length v \<le> m"
  shows "[] \<notin> set (group_loop m input result cur n)"
  using assms by (induction m input result cur n rule: group_loop.induct) (auto simp: Let_def)

interpretation openai_groups: batcher
  "\<lambda>xs. group_vectors_by_token_count xs m" "\<lambda>xs. \<forall>x \<in> set xs. length x \<le> m" "\<lambda>g. token_count g \<le> m" for m
  by unfold_locales
    (use group_loop_fits[of "[]" m "[]" 0] in \<open>auto simp: group_vectors_by_token_count_def group_loop_concat\<close>)

interpretation cohere_chunks: batcher "chunks 96" "\<lambda>xs. True" "\<lambda>g. length g \<le> 96"
  by unfold_locales (auto dest: chunks_length_le)

fun first_fit :: "nat \<Rightarrow> 't list list list \<Rightarrow> bool" where
  "first_fit m (g # h # gs) = (m < token_count g + length (hd h) \<and> first_fit m (h # gs))"
| "first_fit m gs = True"

lemma first_fit_append:
  "first_fit m (gs @ [g]) \<Longrightarrow> m < token_count g + length (hd h) \<Longrightarrow> first_fit m (gs @ [g, h])"
  by (induction m gs rule: first_fit.induct) auto

lemma first_fit_last_ext:
  "first_fit m (gs @ [g]) \<Longrightarrow> g \<noteq> [] \<Longrightarrow> first_fit m (gs @ [g @ [x]])"
  by (induction m gs rule: first_fit.induct) auto

lemma group_loop_first_fit:
  assumes "cur \<noteq> [] \<longrightarrow> first_fit m (result @ [cur])" "cur = [] \<longrightarrow> result = []" "token_count cur = n"
    "\<forall>v \<in> set input. length v \<le> m"
  shows "first_fit m (group_loop m input result cur n)"
  using assms
proof (induction m input result cur n rule: group_loop.induct)
  case (2 m v input result cur n)
  show ?case
  proof (cases "n + length v \<le> m")
    case True
    have "first_fit m (result @ [cur @ [v]])"
      using 2(3,4) first_fit_last_ext[of m result cur v] by (cases "cur = []") auto
    with 2 True show ?thesis by (auto simp: Let_def)
  next
    case False
    have ne: "cur \<noteq> []" using 2(5,6) False by (cases cur) auto
    have "first_fit m (result @ [cur, [v]])"
      using 2(3,5) ne False by (intro first_fit_append) auto
    with 2 False ne show ?thesis by (auto simp: Let_def)
  qed
qed auto

text \<open>
  C38. Grouping by token count loses and reorders nothing: when no input is longer than the limit, the
  groups are non-empty, each has at most the limit of tokens, their concatenation is the input, and
  no two neighbouring groups would fit into one.
\<close>

theorem group_vectors_by_token_count_groups:
  assumes "\<forall>v \<in> set input. length v \<le> m"
  shows "concat (group_vectors_by_token_count input m) = input
    \<and> (\<forall>g \<in> set (group_vectors_by_token_count input m). g \<noteq> [] \<and> token_count g \<le> m)
    \<and> first_fit m (group_vectors_by_token_count input m)"
  using openai_groups.group_concat[OF assms] openai_groups.group_fits[OF assms]
    group_loop_nonempty[of "[]" "[]" 0 input m] group_loop_first_fit[of "[]" m "[]" 0 input] assms
  by (auto simp: group_vectors_by_token_count_def)

theorem group_vectors_by_token_count_groups_witness:
  "concat (group_vectors_by_token_count [[1, 2], [3, 4, 5], [6 :: nat]] 4) = [[1, 2], [3, 4, 5], [6]]
    \<and> list_all (\<lambda>g. g \<noteq> [] \<and> token_count g \<le> 4) (group_vectors_by_token_count [[1, 2], [3, 4, 5], [6 :: nat]] 4)
    \<and> first_fit 4 (group_vectors_by_token_count [[1, 2], [3, 4, 5], [6 :: nat]] 4)"
  using group_vectors_by_token_count_groups[of "[[1, 2], [3, 4, 5], [6 :: nat]]" 4] by (simp add: list_all_iff)

section \<open>Retries\<close>

definition attempt_fails :: "(nat \<Rightarrow> 'b reply) \<Rightarrow> ('b \<Rightarrow> 'r result) \<Rightarrow> nat \<Rightarrow> bool" where
  "attempt_fails send gr i =
    (case send i of
       SendError e \<Rightarrow> True
     | BodyError e \<Rightarrow> False
     | Body b \<Rightarrow> (case gr b of Inr r \<Rightarrow> False | Inl e \<Rightarrow> (case e of Panicked m \<Rightarrow> False | _ \<Rightarrow> True)))"

definition answers_at :: "(nat \<Rightarrow> 'b reply) \<Rightarrow> ('b \<Rightarrow> 'r result) \<Rightarrow> nat \<Rightarrow> 'r \<Rightarrow> bool" where
  "answers_at send gr k r = ((\<forall>j < k. attempt_fails send gr j) \<and> (\<exists>b. send k = Body b \<and> gr b = Inr r))"

lemma retry_loop_fails:
  "attempt_fails send gr i \<Longrightarrow> \<exists>e. retry_loop send gr n i (Suc left) le =
     (fst (retry_loop send gr n (Suc i) left e), 4000 * (i + 1) # snd (retry_loop send gr n (Suc i) left e))"
  by (auto simp: attempt_fails_def Let_def split: reply.splits sum.splits error.splits prod.splits)
    (metis fst_conv snd_conv)+

lemma retry_loop_answer:
  assumes "\<forall>j. i \<le> j \<and> j < k \<longrightarrow> attempt_fails send gr j" "send k = Body b" "gr b = Inr r" "i \<le> k" "k < i + left"
  shows "retry_loop send gr n i left le = (Inr r, map (\<lambda>j. 4000 * (j + 1)) [i..<k])"
  using assms
proof (induction left arbitrary: i le)
  case (Suc left)
  show ?case
  proof (cases "i = k")
    case True
    then show ?thesis using Suc.prems(2,3) by (simp add: Let_def)
  next
    case False
    then have "attempt_fails send gr i" using Suc.prems by simp
    then obtain e where e: "retry_loop send gr n i (Suc left) le =
        (fst (retry_loop send gr n (Suc i) left e), 4000 * (i + 1) # snd (retry_loop send gr n (Suc i) left e))"
      using retry_loop_fails by blast
    have "retry_loop send gr n (Suc i) left e = (Inr r, map (\<lambda>j. 4000 * (j + 1)) [Suc i..<k])"
      using Suc.prems False by (intro Suc.IH) auto
    with e False Suc.prems(4) show ?thesis by (simp add: upt_conv_Cons del: retry_loop.simps)
  qed
qed simp

text \<open>
  A request that the service answers on attempt \<open>k\<close>, after \<open>k\<close> attempts that could not be sent or
  not be parsed, succeeds with that answer if \<open>k\<close> is below the number of retries; the code waits
  four seconds longer after each failed attempt and sends exactly \<open>k + 1\<close> requests.
\<close>

theorem post_with_retries_answer:
  assumes "answers_at send gr k r" "k < max_retries"
  shows "post_with_retries send gr max_retries = (Inr r, map (\<lambda>j. 4000 * (j + 1)) [0..<k])"
  using assms retry_loop_answer[of 0 k send gr] by (auto simp: post_with_retries_def answers_at_def)

theorem post_with_retries_answer_witness:
  "post_with_retries (\<lambda>i. if i < 2 then SendError ''timeout'' else Body (7 :: nat)) Inr 5 = (Inr 7, [4000, 8000])"
  using post_with_retries_answer[of "\<lambda>i. if i < 2 then SendError ''timeout'' else Body (7 :: nat)" Inr 2 7 5]
  by (simp add: answers_at_def attempt_fails_def numeral_2_eq_2)

lemma retry_loop_exhausted:
  assumes "\<forall>j. i \<le> j \<and> j < i + left \<longrightarrow> attempt_fails send gr j"
  shows "\<exists>e. retry_loop send gr n i left le = (Inl (Bail e), map (\<lambda>j. 4000 * (j + 1)) [i..<i + left])"
  using assms
proof (induction left arbitrary: i le)
  case (Suc left)
  then have "attempt_fails send gr i" by simp
  then obtain e where e: "retry_loop send gr n i (Suc left) le =
      (fst (retry_loop send gr n (Suc i) left e), 4000 * (i + 1) # snd (retry_loop send gr n (Suc i) left e))"
    using retry_loop_fails by blast
  obtain e' where "retry_loop send gr n (Suc i) left e = (Inl (Bail e'), map (\<lambda>j. 4000 * (j + 1)) [Suc i..<Suc i + left])"
    using Suc.IH[of "Suc i" e] Suc.prems by auto
  with e show ?case by (simp add: upt_conv_Cons del: retry_loop.simps)
qed simp

section \<open>Embedding requests\<close>

definition answered :: "('q \<Rightarrow> nat \<Rightarrow> 'b reply) \<Rightarrow> ('b \<Rightarrow> 'f EmbeddingResult result) \<Rightarrow> 'q \<Rightarrow> 'f list list \<Rightarrow> bool" where
  "answered http gr q es = (\<exists>k r. k < 5 \<and> answers_at (http q) gr k r \<and> embeddings r = es)"

lemma answered_post:
  assumes "answered http gr q es"
  obtains r where "fst (post_with_retries (http q) gr 5) = Inr r" "embeddings r = es"
proof -
  obtain k r where "k < 5" "answers_at (http q) gr k r" "embeddings r = es"
    using assms by (auto simp: answered_def)
  then show thesis
    using that[of r] retry_loop_answer[of 0 k "http q" gr] by (auto simp: post_with_retries_def answers_at_def)
qed

lemma post_all_answered:
  assumes "\<forall>q \<in> set qs. answered http gr q (ans q)"
  shows "\<exists>n. post_all http gr qs acc tokens = Inr \<lparr>embeddings = acc @ concat (map ans qs), processed_tokens = n\<rparr>"
  using assms
proof (induction qs arbitrary: acc tokens)
  case (Cons q qs)
  obtain r where "fst (post_with_retries (http q) gr 5) = Inr r" "embeddings r = ans q"
    using answered_post[of http gr q "ans q"] Cons.prems by auto
  with Cons.IH[of "acc @ embeddings r" "tokens + processed_tokens r"] Cons.prems show ?case by auto
qed simp

text \<open>
  C12. For the OpenAI service the vectors come back in the order of the inputs, one per input: when
  every request that respects the token limit is answered with one vector per token list within
  five attempts, the result of the runtime is the vector of each input, truncated to the model's
  sequence length, whatever the inputs, however they are grouped.
\<close>

theorem openai_embeddings_in_order:
  fixes http :: "'tok request \<Rightarrow> nat \<Rightarrow> 'body reply"
  assumes "or_deployment_type rt \<noteq> Custom" "model \<in> set OPENAI_MODEL_INFO_MAP"
    and "\<forall>g name dims. token_count g \<le> 8190 \<longrightarrow> answered http gr (TokenRequest g name dims) (map f g)"
  shows "\<exists>n. post_request http gr (openai_chunk_inputs tokenize rt model inputs) =
    Inr \<lparr>embeddings = map (\<lambda>s. f (take 8190 (tokenize s))) inputs, processed_tokens = n\<rparr>"
proof -
  obtain info where info: "check_and_get_model OPENAI_MODEL_INFO_MAP (\<lambda>m. openai_model_new m EmbeddingGeneration) model = Inr info"
    "om_sequence_len info = 8190"
    using assms(2) by (auto simp: check_and_get_model_def OPENAI_MODEL_INFO_MAP_def openai_model_new_def Let_def)
  let ?toks = "map (\<lambda>s. take 8190 (tokenize s)) inputs"
  have trunc: "(if length t > n then take n t else t) = take n t" for n and t :: "'tok list"
    by simp
  have adm: "\<forall>x \<in> set ?toks. length x \<le> 8190" by auto
  define dims where "dims = (if om_var_dimension info \<and> or_dimensions rt \<noteq> None then or_dimensions rt else None)"
  define qs where "qs = map (\<lambda>g. TokenRequest g (om_name info) dims) (group_vectors_by_token_count ?toks 8190)"
  have chunk: "openai_chunk_inputs tokenize rt model inputs = Inr qs"
    unfolding openai_chunk_inputs_def Let_def trunc qs_def dims_def using assms(1) info by simp
  define ans where "ans q = (case q of TokenRequest g _ _ \<Rightarrow> map f g | _ \<Rightarrow> [])" for q :: "'tok request"
  have "\<forall>q \<in> set qs. answered http gr q (ans q)"
    using assms(3) openai_groups.group_fits[OF adm] by (auto simp: qs_def ans_def)
  then obtain n where "post_all http gr qs [] 0 = Inr \<lparr>embeddings = [] @ concat (map ans qs), processed_tokens = n\<rparr>"
    using post_all_answered[of qs http gr ans "[]" 0] by blast
  moreover have "concat (map ans qs) = map f ?toks"
    using openai_groups.answers_in_order[OF adm, of "map f" f] by (simp add: qs_def ans_def comp_def)
  ultimately show ?thesis by (simp add: post_request_def chunk comp_def)
qed

definition demo_parse :: "nat request \<Rightarrow> nat EmbeddingResult result" where
  "demo_parse q =
    (case q of
       TokenRequest g _ _ \<Rightarrow> Inr \<lparr>embeddings = map (map (\<lambda>t. 2 * t)) g, processed_tokens = 1\<rparr>
     | CohereRequest g _ _ \<Rightarrow> Inr \<lparr>embeddings = map (\<lambda>t. [length t]) g, processed_tokens = 1\<rparr>
     | TextRequest _ _ \<Rightarrow> Inl (Bail []))"

definition demo_http :: "nat request \<Rightarrow> nat \<Rightarrow> nat request reply" where
  "demo_http q i = (if i = 0 then SendError ''busy'' else Body q)"

lemma demo_answered: "demo_parse q = Inr r \<Longrightarrow> answered demo_http demo_parse q (embeddings r)"
  unfolding answered_def answers_at_def attempt_fails_def demo_http_def by (intro exI[of _ 1] exI[of _ r]) auto

theorem openai_embeddings_in_order_witness:
  "\<exists>n. post_request demo_http demo_parse
      (openai_chunk_inputs (map of_char) \<lparr>or_request_timeout = 120, or_base_url = [], or_headers = [], or_system_prompt = [],
         or_dimensions = None, or_deployment_type = OpenAiDeploy\<rparr> ''text-embedding-3-small'' [''a'', ''bc'']) =
    Inr \<lparr>embeddings = [[194], [196, 198]], processed_tokens = n\<rparr>"
proof -
  have "answered demo_http demo_parse (TokenRequest g a d) (map (map (\<lambda>t. 2 * t)) g)" for g a d
    using demo_answered[of "TokenRequest g a d"] by (simp add: demo_parse_def)
  then show ?thesis
    using openai_embeddings_in_order[where rt = "\<lparr>or_request_timeout = 120, or_base_url = [], or_headers = [], or_system_prompt = [],
         or_dimensions = None, or_deployment_type = OpenAiDeploy\<rparr>" and model = "''text-embedding-3-small''"
         and http = demo_http and gr = demo_parse and f = "map (\<lambda>t. 2 * t)" and tokenize = "map of_char"
         and inputs = "[''a'', ''bc'']"]
    by (simp add: OPENAI_MODEL_INFO_MAP_def)
qed

text \<open>
  The same for Cohere, with groups of at most 96 texts.
\<close>

theorem cohere_embeddings_in_order:
  fixes http :: "'tok request \<Rightarrow> nat \<Rightarrow> 'body reply"
  assumes "cr_max_batch_size rt = 96" "model \<in> set COHERE_MODEL_INFO_MAP"
    and "\<forall>g name ty. length g \<le> 96 \<longrightarrow> answered http gr (CohereRequest g name ty) (map f g)"
  shows "\<exists>n. post_request http gr (cohere_chunk_inputs rt model inputs) =
    Inr \<lparr>embeddings = map f inputs, processed_tokens = n\<rparr>"
proof -
  obtain info where info: "check_and_get_model COHERE_MODEL_INFO_MAP cohere_model_new model = Inr info"
    using assms(2) by (auto simp: check_and_get_model_def COHERE_MODEL_INFO_MAP_def cohere_model_new_def Let_def)
  define qs where "qs = (map (\<lambda>g. CohereRequest g (co_name info) (cr_input_type rt)) (chunks 96 inputs)   :: 'tok request list)"
  have chunk: "cohere_chunk_inputs rt model inputs = Inr qs"
    using assms(1) info by (simp add: cohere_chunk_inputs_def qs_def)
  define ans where "ans q = (case q of CohereRequest g _ _ \<Rightarrow> map f g | _ \<Rightarrow> [])" for q :: "'tok request"
  have "\<forall>q \<in> set qs. answered http gr q (ans q)"
    using assms(3) chunks_length_le[of _ 96 inputs] by (auto simp: qs_def ans_def)
  then obtain n where "post_all http gr qs [] 0 = Inr \<lparr>embeddings = [] @ concat (map ans qs), processed_tokens = n\<rparr>"
    using post_all_answered[of qs http gr ans "[]" 0] by blast
  moreover have "concat (map ans qs) = map f inputs"
    using cohere_chunks.answers_in_order[where req = "map f" and f = f and xs = inputs] by (simp add: qs_def ans_def comp_def)
  ultimately show ?thesis by (simp add: post_request_def chunk)
qed

theorem cohere_embeddings_in_order_witness:
  "\<exists>n. post_request demo_http demo_parse
      (cohere_chunk_inputs \<lparr>cr_request_timeout = 120, cr_max_batch_size = 96, cr_base_url = [], cr_headers = [],
         cr_input_type = []\<rparr> ''embed-english-v3.0'' [''a'', ''bc'']) = Inr \<lparr>embeddings = [[1], [2]], processed_tokens = n\<rparr>"
proof -
  have "answered demo_http demo_parse (CohereRequest g a d) (map (\<lambda>t. [length t]) g)" for g a d
    using demo_answered[of "CohereRequest g a d"] by (simp add: demo_parse_def)
  then show ?thesis
    using cohere_embeddings_in_order[where rt = "\<lparr>cr_request_timeout = 120, cr_max_batch_size = 96, cr_base_url = [], cr_headers = [],
         cr_input_type = []\<rparr>" and model = "''embed-english-v3.0''" and http = demo_http and gr = demo_parse
         and f = "\<lambda>t. [length t]" and inputs = "[''a'', ''bc'']"]
    by (simp add: COHERE_MODEL_INFO_MAP_def numeral_2_eq_2)
qed

section \<open>Completions and names\<close>

fun completion_text :: "CompletionResult result \<Rightarrow> string" where
  "completion_text (Inr m) = message m"
| "completion_text (Inl e) = ''Error: '' @ error_to_string e"

fun completion_cost :: "CompletionResult result \<Rightarrow> nat" where
  "completion_cost (Inr m) = completion_tokens m"
| "completion_cost (Inl e) = 0"

lemma collect_completions_messages:
  "collect_completions rs acc n = (acc @ map completion_text rs, n + sum_list (map completion_cost rs))"
  by (induction rs acc n rule: collect_completions.induct) auto

lemma runtime_from_to_string: "runtime_from_str (runtime_to_string r) = Inr r"
  by (cases r) (simp_all add: runtime_from_str_def)

lemma model_maps_supported:
  "m \<in> set OPENAI_MODEL_INFO_MAP \<Longrightarrow> is_ok (openai_model_new m EmbeddingGeneration)"
  "m \<in> set COMPLETION_MODEL_INFO_MAP \<Longrightarrow> is_ok (openai_model_new m Completion)"
  "m \<in> set COHERE_MODEL_INFO_MAP \<Longrightarrow> is_ok (cohere_model_new m)"
  by (auto simp: OPENAI_MODEL_INFO_MAP_def COMPLETION_MODEL_INFO_MAP_def COHERE_MODEL_INFO_MAP_def
      openai_model_new_def cohere_model_new_def Let_def)

end
