(* ===== verification/Embedding_Export.thy ===== *)
theory Embedding_Export
  imports Complex_Main Postgres Embedding_Runtime
begin

text \<open>
  The records and the exporter of \<^verbatim>\<open>lantern_cli/src/embeddings/mod.rs\<close>: the text rows of the COPY
  stream, the SQL that moves them from the temporary table into the target table, the progress
  figure, and \<^verbatim>\<open>db_exporter_worker\<close> split into its set-up, the treatment of one batch of records
  and the end of the stream. Strings are the bytes of the text. Timing (\<^verbatim>\<open>Instant\<close>) is an argument:
  the seconds since the last flush. Rounding of \<^verbatim>\<open>f64\<close> is an argument.
\<close>

section \<open>Arguments\<close>

record EmbeddingArgs =
  ea_model :: string
  ea_uri :: string
  ea_table :: string
  ea_schema :: string
  ea_column :: string
  ea_pk :: string
  ea_out_uri :: "string option"
  ea_out_table :: "string option"
  ea_out_column :: string
  ea_batch_size :: "nat option"
  ea_job_type :: "EmbeddingJobType option"
  ea_column_type :: "string option"
  ea_runtime :: Runtime
  ea_runtime_params :: string
  ea_visual :: bool
  ea_filter :: "string option"
  ea_limit :: "nat option"
  ea_stream :: bool
  ea_create_column :: bool
  ea_create_cast_fn :: bool
  ea_check_column_type :: bool
  ea_internal_schema :: string
  ea_failed_rows_table :: "string option"
  ea_job_id :: int

definition with_defaults :: "EmbeddingArgs \<Rightarrow> EmbeddingArgs" where
  "with_defaults a =
    a\<lparr>ea_out_uri := (case ea_out_uri a of None \<Rightarrow> Some (ea_uri a) | u \<Rightarrow> u),
      ea_out_table := (case ea_out_table a of None \<Rightarrow> Some (ea_table a) | t \<Rightarrow> t)\<rparr>"

section \<open>Records\<close>

record EmbeddingRecord =
  er_pk :: string
  er_record :: string

abbreviation backslash :: char where "backslash \<equiv> CHR 0x5C"
abbreviation newline :: char where "newline \<equiv> CHR 0x0A"
abbreviation creturn :: char where "creturn \<equiv> CHR 0x0D"
abbreviation tab :: char where "tab \<equiv> CHR 0x09"

text \<open>\<open>f32_to_string\<close> is \<^verbatim>\<open>f32::to_string\<close>. The slice drops the comma of the last element.\<close>

definition from_vec :: "('f \<Rightarrow> string) \<Rightarrow> string \<Rightarrow> 'f list \<Rightarrow> EmbeddingRecord" where
  "from_vec f32_to_string pk value =
    (if length value > 0
     then let row_str = concat (map (\<lambda>x. f32_to_string x @ '','') value)
          in \<lparr>er_pk = pk, er_record = ''{'' @ take (length row_str - 1) row_str @ ''}''\<rparr>
     else \<lparr>er_pk = pk, er_record = ''NULL''\<rparr>)"

definition from_string :: "string \<Rightarrow> string \<Rightarrow> EmbeddingRecord" where
  "from_string pk value =
    (if length value > 0
     then \<lparr>er_pk = pk, er_record =
       replace_char tab [backslash, CHR ''t'']
         (replace_char creturn [backslash, CHR ''r'']
           (replace_char newline [backslash, CHR ''n'']
             (replace_char backslash [backslash, backslash] value)))\<rparr>
     else \<lparr>er_pk = pk, er_record = ''NULL''\<rparr>)"

definition record_line :: "EmbeddingRecord \<Rightarrow> string" where
  "record_line r = er_pk r @ [tab] @ er_record r @ [newline]"

section \<open>SQL texts and progress\<close>

definition CONNECTION_PARAMS :: string where
  "CONNECTION_PARAMS = ''connect_timeout=10''"

definition get_try_cast_fn_sql :: "string \<Rightarrow> string" where
  "get_try_cast_fn_sql schema =
    ''CREATE OR REPLACE FUNCTION '' @ quote_ident schema @
    ''.ldb_try_cast(_in text, INOUT _out ANYELEMENT) LANGUAGE plpgsql AS $func$ BEGIN EXECUTE format('' @
    quote_literal ''SELECT %L::%s'' @
    '', $1, pg_typeof(_out)) INTO _out; EXCEPTION WHEN others THEN END $func$;''"

text \<open>
  \<^verbatim>\<open>((processed as f64 / total as f64) * 100.0) as u8\<close>: \<open>rnd\<close> rounds a rational number to \<^verbatim>\<open>f64\<close>; the
  conversion to \<^verbatim>\<open>u8\<close> truncates and saturates.
\<close>

definition calculate_progress :: "(rat \<Rightarrow> rat) \<Rightarrow> int \<Rightarrow> nat \<Rightarrow> nat" where
  "calculate_progress rnd tot processed =
    (if tot \<le> 0 then 0
     else min 255 (nat \<lfloor>rnd (rnd (rnd (of_nat processed) / rnd (of_int tot)) * 100)\<rfloor>))"

definition estimate_count :: "'f server \<Rightarrow> string \<Rightarrow> string \<Rightarrow> string \<Rightarrow> (('f, 'x) world_scheme, int) prog" where
  "estimate_count srv full_table_name filter_sql limit_sql =
    seq (do_call srv Begin)
    (and_then (query srv (''SELECT COUNT(*) FROM '' @ full_table_name @ '' '' @ filter_sql @ '' '' @ limit_sql @ '';'') [])
       (\<lambda>rows. lift_r (case rows of
            [] \<Rightarrow> Inl (Panicked ''index out of bounds'')
          | row # _ \<Rightarrow> get_int 0 row)))"

definition get_update_query_and_col_type :: "EmbeddingArgs \<Rightarrow> string \<Rightarrow> string \<Rightarrow> string \<Rightarrow> string \<times> string" where
  "get_update_query_and_col_type args full_table_name temp_table_name column_type =
    (let column = ea_out_column args;
         cast_fn_name = get_full_table_name (ea_internal_schema args) ''ldb_try_cast'';
         failed_rows_sql =
           (case ea_failed_rows_table args of
              Some failed_rows_table \<Rightarrow>
                ''INSERT INTO '' @ get_full_table_name (ea_internal_schema args) failed_rows_table @
                '' (job_id, row_id, value) SELECT '' @
                (if ea_job_id args < 0 then ''-'' else []) @ nat_digits (nat \<bar>ea_job_id args\<bar>) @
                '' as job_id, row_id, value FROM failed_rows;''
            | None \<Rightarrow> ''SELECT 1 WHERE FALSE;'');
         temp_table_subquery =
           (case ea_failed_rows_table args of
              Some _ \<Rightarrow>
                ''( SELECT * FROM '' @ quote_ident temp_table_name @
                '' tmp WHERE NOT EXISTS ( SELECT 1 FROM failed_rows fr WHERE fr.row_id = tmp.'' @
                quote_ident (ea_pk args) @ '' ) )''
            | None \<Rightarrow> temp_table_name);
         tmp_col_type = (if ea_check_column_type args then ''TEXT'' else column_type);
         type_check_sql =
           (if ea_check_column_type args
            then ''failed_rows AS ( DELETE FROM '' @ quote_ident temp_table_name @ '' src WHERE '' @ cast_fn_name @
                 ''(src.'' @ quote_ident column @ '', NULL::'' @ column_type @ '') IS NULL RETURNING src.'' @
                 quote_ident (ea_pk args) @ '' AS row_id, src.'' @ quote_ident column @ '' AS value ),''
            else [])
     in (''WITH '' @ type_check_sql @ '' updated_rows AS ( UPDATE '' @ full_table_name @ '' dst SET '' @
         quote_ident column @ '' = src.'' @ quote_ident column @ ''::'' @ column_type @ '' FROM '' @
         temp_table_subquery @ '' src WHERE src.'' @ quote_ident (ea_pk args) @ '' = dst.'' @
         quote_ident (ea_pk args) @ '' ) '' @ failed_rows_sql @ '' TRUNCATE TABLE '' @
         quote_ident temp_table_name @ '';'',
         tmp_col_type))"

definition get_default_batch_size :: "string \<Rightarrow> nat" where
  "get_default_batch_size model =
    (if model = ''clip/ViT-B-32-textual'' then 2000
     else if model = ''clip/ViT-B-32-visual'' then 50
     else if model = ''BAAI/bge-small-en'' then 300
     else if model = ''BAAI/bge-base-en'' then 100
     else if model = ''BAAI/bge-large-en'' then 60
     else if model = ''jinaai/jina-embeddings-v2-small-en'' then 500
     else if model = ''jinaai/jina-embeddings-v2-base-en'' then 80
     else if model = ''intfloat/e5-base-v2'' then 300
     else if model = ''intfloat/e5-large-v2'' then 100
     else if model = ''llmrails/ember-v1'' then 100
     else if model = ''thenlper/gte-base'' then 1000
     else if model = ''thenlper/gte-large'' then 800
     else if model = ''microsoft/all-MiniLM-L12-v2'' then 1000
     else if model = ''naver/splade-v3'' then 150
     else if model = ''microsoft/all-mpnet-base-v2'' then 400
     else if model = ''transformers/multi-qa-mpnet-base-dot-v1'' then 300
     else if model \<in> set [''text-embedding-ada-002'', ''text-embedding-3-small'', ''text-embedding-3-large''] then 500
     else if model \<in> set [''embed-english-v3.0'', ''embed-multilingual-v3.0'', ''embed-english-light-v3.0'',
            ''embed-multilingual-light-v3.0'', ''embed-english-v2.0'', ''embed-english-light-v2.0'',
            ''embed-multilingual-v2.0''] then 5000
     else if model \<in> set [''gpt-4'', ''gpt-4o'', ''gpt-4-turbo''] then 2
     else if model = ''gpt-4o-mini'' then 10
     else 100)"

fun get_default_column_type :: "EmbeddingJobType \<Rightarrow> string" where
  "get_default_column_type Completion = ''TEXT''"
| "get_default_column_type EmbeddingGeneration = ''REAL[]''"

section \<open>The exporter\<close>

record 'f exporter = "'f world" +
  ex_buf :: string
  ex_collected :: nat
  ex_processed :: nat
  ex_progress :: nat
  ex_reported :: "nat list"

text \<open>What the exporter is started with; \<open>xc_callback\<close> tells whether there is a progress callback.\<close>

record export_config =
  xc_stream :: bool
  xc_item_count :: int
  xc_update_sql :: string
  xc_temp_table :: string
  xc_callback :: bool

text \<open>
  The part before the task is spawned: the target column, the permission check, the cast function.
  \<open>rng\<close> is the random number below 1000 in the name of the temporary table.
\<close>

definition exporter_prepare ::
  "'f server \<Rightarrow> nat \<Rightarrow> EmbeddingArgs \<Rightarrow> string \<Rightarrow> int \<Rightarrow> string \<Rightarrow> bool \<Rightarrow>
   (('f, 'x) world_scheme, export_config \<times> string) prog" where
  "exporter_prepare srv rng args uri item_count column_type cb =
    (let temp_table_name = ''_lantern_tmp_'' @ nat_digits rng;
         column = ea_out_column args;
         table = (case ea_out_table args of Some t \<Rightarrow> t | None \<Rightarrow> ea_table args);
         schema = ea_schema args;
         full_table_name = get_full_table_name schema table
     in seq (do_call srv (Connect uri))
        (seq (do_call srv Begin)
        (seq (if ea_create_column args
              then do_call srv (Execute (''ALTER TABLE '' @ full_table_name @ '' ADD COLUMN IF NOT EXISTS '' @
                     quote_ident column @ '' '' @ column_type) [])
              else return ())
        (and_then (query srv (''SELECT grantee FROM information_schema.column_privileges WHERE table_schema=$1 AND table_name=$2 AND column_name=$3 AND privilege_type='' @
                     quote_literal ''UPDATE'' @ '' AND grantee=current_user UNION SELECT usename from pg_user where usename = CURRENT_USER AND usesuper=true;'')
                     [SText schema, SText table, SText column]) (\<lambda>res.
         if res = [] then throw (Bail ''User does not have write permissions to target table'')
         else
           seq (if ea_create_cast_fn args
                then do_call srv (Execute (get_try_cast_fn_sql (ea_internal_schema args)) []) else return ())
           (let (update_sql, tmp_col_type) =
                  get_update_query_and_col_type args full_table_name temp_table_name column_type
            in seq (do_call srv Commit)
               (return (\<lparr>xc_stream = ea_stream args, xc_item_count = item_count, xc_update_sql = update_sql,
                         xc_temp_table = temp_table_name, xc_callback = cb\<rparr>,
                 ''CREATE TEMPORARY TABLE '' @ temp_table_name @ '' AS SELECT '' @ quote_ident (ea_pk args) @ '', '' @
                 quote_ident column @ ''::'' @ tmp_col_type @ '' FROM '' @ full_table_name @ '' LIMIT 0''))))))))"

text \<open>The start of the spawned task: the temporary table and the first COPY.\<close>

definition exporter_start :: "'f server \<Rightarrow> export_config \<Rightarrow> string \<Rightarrow> (('f, 'x) world_scheme, unit) prog" where
  "exporter_start srv cfg create_sql =
    seq (do_call srv Begin)
    (seq (do_call srv (Execute create_sql []))
    (seq (do_call srv Commit)
    (seq (do_call srv Begin)
         (do_call srv (CopyIn (''COPY '' @ xc_temp_table cfg @ '' FROM stdin WITH NULL AS '' @ quote_literal ''NULL''))))))"

definition CHUNK_SIZE :: nat where
  "CHUNK_SIZE = 1024 * 1024 * 10"

definition collect_rows :: "EmbeddingRecord list \<Rightarrow> (('f, 'x) exporter_scheme, unit) prog" where
  "collect_rows rows s =
    (Inr (), s\<lparr>ex_buf := ex_buf s @ concat (map record_line rows), ex_collected := ex_collected s + length rows\<rparr>)"

text \<open>\<^verbatim>\<open>buf.split()\<close> empties the buffer before the data are sent.\<close>

definition send_buf :: "'f server \<Rightarrow> (('f, 'x) exporter_scheme, unit) prog" where
  "send_buf srv s = do_call srv (CopyData (ex_buf s)) (s\<lparr>ex_buf := []\<rparr>)"

definition send_if :: "(string \<Rightarrow> bool) \<Rightarrow> 'f server \<Rightarrow> (('f, 'x) exporter_scheme, unit) prog" where
  "send_if p srv s = (if p (ex_buf s) then send_buf srv s else (Inr (), s))"

definition export_progress :: "(rat \<Rightarrow> rat) \<Rightarrow> export_config \<Rightarrow> nat \<Rightarrow> (('f, 'x) exporter_scheme, unit) prog" where
  "export_progress rnd cfg n s =
    (let s = s\<lparr>ex_processed := ex_processed s + n\<rparr>;
         progress = calculate_progress rnd (xc_item_count cfg) (ex_processed s)
     in if progress > ex_progress s
        then (Inr (), s\<lparr>ex_progress := progress,
               ex_reported := (if xc_callback cfg then ex_reported s @ [progress] else ex_reported s)\<rparr>)
        else (Inr (), s))"

text \<open>Streaming mode: everything collected is moved to the target table and a new COPY is opened.\<close>

definition write_out :: "'f server \<Rightarrow> export_config \<Rightarrow> (('f, 'x) exporter_scheme, unit) prog" where
  "write_out srv cfg =
    seq (send_if (\<lambda>b. b \<noteq> []) srv)
    (seq (do_call srv CopyFinish)
    (seq (do_call srv (BatchExecute (xc_update_sql cfg)))
         (do_call srv Commit)))"

definition flush :: "'f server \<Rightarrow> export_config \<Rightarrow> (('f, 'x) exporter_scheme, unit) prog" where
  "flush srv cfg =
    seq (write_out srv cfg)
    (seq (do_call srv Begin)
    (seq (do_call srv (CopyIn (''COPY '' @ xc_temp_table cfg @ '' FROM stdin'')))
         (\<lambda>s. (Inr (), s\<lparr>ex_collected := 0\<rparr>))))"

definition flush_due :: "nat \<Rightarrow> nat \<Rightarrow> bool" where
  "flush_due elapsed collected_row_cnt \<longleftrightarrow>
    (let flush_interval = 10; min_flush_rows = 50; max_flush_rows = 1000
     in collected_row_cnt \<ge> max_flush_rows
        \<or> (flush_interval \<le> elapsed \<and> collected_row_cnt \<ge> min_flush_rows))"

definition export_batch ::
  "'f server \<Rightarrow> (rat \<Rightarrow> rat) \<Rightarrow> export_config \<Rightarrow> nat \<Rightarrow> EmbeddingRecord list \<Rightarrow> (('f, 'x) exporter_scheme, unit) prog" where
  "export_batch srv rnd cfg elapsed rows =
    seq (collect_rows rows)
    (seq (send_if (\<lambda>b. length b > CHUNK_SIZE) srv)
    (seq (export_progress rnd cfg (length rows))
         (if \<not> xc_stream cfg then return ()
          else (\<lambda>s. if flush_due elapsed (ex_collected s) then flush srv cfg s else (Inr (), s)))))"

definition export_finish :: "'f server \<Rightarrow> export_config \<Rightarrow> (('f, 'x) exporter_scheme, nat) prog" where
  "export_finish srv cfg =
    seq (\<lambda>s. (Inr (), if ex_progress s \<noteq> 100 \<and> xc_callback cfg then s\<lparr>ex_reported := ex_reported s @ [100]\<rparr> else s))
    (\<lambda>s. if ex_processed s = 0 then (Inr (ex_processed s), s)
         else seq (write_out srv cfg) (return (ex_processed s)) s)"

section \<open>The COPY text format\<close>

text \<open>
  What the server does with COPY text as its manual describes it: rows end with a newline, columns
  are separated by tabs, a backslash introduces an escape, and a column equal to the null marker
  is null.
\<close>

fun copy_unescape :: "string \<Rightarrow> string" where
  "copy_unescape [] = []"
| "copy_unescape [c] = [c]"
| "copy_unescape (c # d # s) =
    (if c = backslash
     then (if d = CHR ''n'' then newline else if d = CHR ''r'' then creturn else if d = CHR ''t'' then tab else d)
          # copy_unescape s
     else c # copy_unescape (d # s))"

definition copy_column :: "string \<Rightarrow> string \<Rightarrow> string option" where
  "copy_column null_marker s = (if s = null_marker then None else Some (copy_unescape s))"

definition copy_rows :: "string \<Rightarrow> string \<Rightarrow> string option list list" where
  "copy_rows null_marker txt =
    map (\<lambda>l. map (copy_column null_marker) (split_char tab l)) (butlast (split_char newline txt))"

text \<open>A column text that needs no escape, as the text of an integer or a UUID.\<close>

definition plain :: "string \<Rightarrow> bool" where
  "plain s \<longleftrightarrow> list_all (\<lambda>c. c \<notin> {backslash, newline, creturn, tab}) s"

fun copy_escape :: "char \<Rightarrow> string" where
  "copy_escape c =
    (if c = backslash then [backslash, backslash] else if c = newline then [backslash, CHR ''n'']
     else if c = creturn then [backslash, CHR ''r''] else if c = tab then [backslash, CHR ''t''] else [c])"

lemma from_string_escape:
  "v \<noteq> [] \<Longrightarrow> er_record (from_string pk v) = concat (map copy_escape v)"
proof -
  have "replace_char tab [backslash, CHR ''t''] (replace_char creturn [backslash, CHR ''r'']
    (replace_char newline [backslash, CHR ''n''] (replace_char backslash [backslash, backslash] v)))
    = concat (map copy_escape v)" for v
    by (induction v) auto
  then show "v \<noteq> [] \<Longrightarrow> ?thesis" by (simp add: from_string_def)
qed

lemma copy_unescape_char: "copy_unescape (copy_escape c @ s) = c # copy_unescape s"
  by (cases s) simp_all

lemma copy_unescape_escape: "copy_unescape (concat (map copy_escape v) @ w) = v @ copy_unescape w"
  by (induction v) (simp_all add: copy_unescape_char del: copy_escape.simps)

lemma copy_unescape_escape0 [simp]: "copy_unescape (concat (map copy_escape v)) = v"
  using copy_unescape_escape[of v "[]"] by simp

lemma escaped_no_separator:
  "tab \<notin> set (concat (map copy_escape v))" "newline \<notin> set (concat (map copy_escape v))"
  by (induction v) auto

lemma escaped_eq_NULL: "concat (map copy_escape v) = ''NULL'' \<longleftrightarrow> v = ''NULL''"
proof
  assume "concat (map copy_escape v) = ''NULL''"
  then have "copy_unescape (concat (map copy_escape v)) = copy_unescape ''NULL''" by (rule arg_cong)
  then show "v = ''NULL''" by simp
qed simp

lemma plain_unescape: "plain s \<Longrightarrow> copy_unescape s = s"
  by (induction s rule: copy_unescape.induct) (auto simp: plain_def)

lemma plain_no_separator: "plain s \<Longrightarrow> tab \<notin> set s \<and> newline \<notin> set s"
  by (auto simp: plain_def list_all_iff)

lemma copy_rows_lines:
  assumes "\<forall>r \<in> set rs. tab \<notin> set (er_pk r) \<and> newline \<notin> set (er_pk r)
    \<and> tab \<notin> set (er_record r) \<and> newline \<notin> set (er_record r)"
  shows "copy_rows m (concat (map record_line rs)) =
    map (\<lambda>r. [copy_column m (er_pk r), copy_column m (er_record r)]) rs"
proof -
  have "split_char newline (concat (map record_line rs)) = map (\<lambda>r. er_pk r @ tab # er_record r) rs @ [[]]"
    using assms
  proof (induction rs)
    case (Cons r rs)
    have "concat (map record_line (r # rs)) = (er_pk r @ tab # er_record r) @ newline # concat (map record_line rs)"
      by (simp add: record_line_def)
    moreover have "newline \<notin> set (er_pk r @ tab # er_record r)" using Cons.prems by simp
    ultimately have "split_char newline (concat (map record_line (r # rs))) =
        (er_pk r @ tab # er_record r) # split_char newline (concat (map record_line rs))"
      using split_char_append_sep by metis
    then show ?case using Cons by (simp only:) simp
  qed simp
  then show ?thesis
    using assms by (auto simp: copy_rows_def split_char_append_sep split_char_no_sep)
qed

lemma completion_columns:
  fixes v :: string
  assumes "plain pk" "pk \<noteq> ''NULL''"
  defines "r \<equiv> from_string pk v"
  shows "tab \<notin> set (er_pk r) \<and> newline \<notin> set (er_pk r) \<and> tab \<notin> set (er_record r) \<and> newline \<notin> set (er_record r)"
    and "copy_column ''NULL'' (er_pk r) = Some pk"
    and "copy_column ''NULL'' (er_record r) = (if v = [] \<or> v = ''NULL'' then None else Some v)"
proof -
  have pk: "er_pk r = pk" by (simp add: r_def from_string_def)
  show "tab \<notin> set (er_pk r) \<and> newline \<notin> set (er_pk r) \<and> tab \<notin> set (er_record r) \<and> newline \<notin> set (er_record r)"
    using plain_no_separator[OF assms(1)] escaped_no_separator[of v] from_string_escape[of v pk] pk
    by (cases "v = []") (auto simp: r_def from_string_def)
  show "copy_column ''NULL'' (er_pk r) = Some pk"
    using assms plain_unescape pk by (simp add: copy_column_def)
  show "copy_column ''NULL'' (er_record r) = (if v = [] \<or> v = ''NULL'' then None else Some v)"
    using from_string_escape[of v pk] escaped_eq_NULL[of v]
    by (cases "v = []") (auto simp: r_def copy_column_def from_string_def)
qed

text \<open>
  Completions survive the COPY stream: whatever the messages contain (backslashes, tabs,
  newlines), the rows the server reads are the keys with their messages, in order; an empty
  message and the message \<^verbatim>\<open>NULL\<close> are read as null. Keys are texts without escapes other than
  \<^verbatim>\<open>NULL\<close>, as those of integers and UUIDs are.
\<close>

theorem completions_roundtrip:
  assumes "\<forall>(pk, v) \<in> set kvs. plain pk \<and> pk \<noteq> ''NULL''"
  shows "copy_rows ''NULL'' (concat (map (\<lambda>(pk, v). record_line (from_string pk v)) kvs)) =
    map (\<lambda>(pk, v). [Some pk, if v = [] \<or> v = ''NULL'' then None else Some v]) kvs"
proof -
  let ?rs = "map (\<lambda>(pk, v). from_string pk v) kvs"
  have "copy_rows ''NULL'' (concat (map record_line ?rs)) =
    map (\<lambda>r. [copy_column ''NULL'' (er_pk r), copy_column ''NULL'' (er_record r)]) ?rs"
    using assms by (intro copy_rows_lines) (auto dest: completion_columns(1))
  moreover have "map record_line ?rs = map (\<lambda>(pk, v). record_line (from_string pk v)) kvs"
    by (simp add: comp_def case_prod_beta)
  moreover have "map (\<lambda>r. [copy_column ''NULL'' (er_pk r), copy_column ''NULL'' (er_record r)]) ?rs =
    map (\<lambda>(pk, v). [Some pk, if v = [] \<or> v = ''NULL'' then None else Some v]) kvs"
    using assms by (auto simp: completion_columns)
  ultimately show ?thesis by (simp only:)
qed

theorem completions_roundtrip_witness:
  "copy_rows ''NULL'' (concat (map (\<lambda>(pk, v). record_line (from_string pk v))
     [(''1'', [CHR ''a'', tab, backslash, newline]), (''2'', [])])) =
   [[Some ''1'', Some [CHR ''a'', tab, backslash, newline]], [Some ''2'', None]]"
  using completions_roundtrip[of "[(''1'', [CHR ''a'', tab, backslash, newline]), (''2'', [])]"]
  by (simp add: plain_def)

text \<open>
  After a flush the COPY is reopened without \<^verbatim>\<open>WITH NULL AS\<close>, so the null marker is \<open>\N\<close> again: an
  empty message, written as \<^verbatim>\<open>NULL\<close>, is then stored as the four letters.
\<close>

lemma flushed_copy_stores_null_text:
  assumes "plain pk" "pk \<noteq> ''NULL''"
  shows "copy_rows [backslash, CHR ''N''] (record_line (from_string pk [])) = [[Some pk, Some ''NULL'']]"
proof -
  have "pk \<noteq> [backslash, CHR ''N'']" using assms by (auto simp: plain_def)
  then show ?thesis
    using copy_rows_lines[of "[from_string pk []]" "[backslash, CHR ''N'']"] assms
      plain_no_separator[OF assms(1)] plain_unescape[OF assms(1)]
    by (auto simp: from_string_def copy_column_def)
qed

section \<open>The exporter loses and repeats nothing\<close>

fun copied :: "'f db_call list \<Rightarrow> string" where
  "copied [] = []"
| "copied (CopyData d # t) = d @ copied t"
| "copied (_ # t) = copied t"

lemma copied_append [simp]: "copied (t @ u) = copied t @ copied u"
  by (induction t rule: copied.induct) auto

text \<open>What has left for the server together with what waits in the buffer.\<close>

definition written :: "('f, 'x) exporter_scheme \<Rightarrow> string" where
  "written s = copied (trace s) @ ex_buf s"

lemma send_if_ok:
  "send_if p srv s = (Inr u, s') \<Longrightarrow>
    written s' = written s \<and> ex_processed s' = ex_processed s \<and> ex_collected s' = ex_collected s
    \<and> ex_progress s' = ex_progress s \<and> ex_reported s' = ex_reported s
    \<and> ex_buf s' = (if p (ex_buf s) then [] else ex_buf s)"
  by (auto simp: send_if_def send_buf_def written_def ok_simps split: if_splits)

lemma write_out_ok:
  assumes "write_out srv cfg s = (Inr u, s')"
  shows "written s' = written s \<and> ex_processed s' = ex_processed s \<and> ex_collected s' = ex_collected s
    \<and> ex_progress s' = ex_progress s \<and> ex_reported s' = ex_reported s \<and> ex_buf s' = []
    \<and> (\<exists>t. trace s' = t @ [CopyFinish, BatchExecute (xc_update_sql cfg), Commit])"
proof -
  obtain v s1 where "send_if (\<lambda>b. b \<noteq> []) srv s = (Inr v, s1)"
    "s' = s1\<lparr>trace := trace s1 @ [CopyFinish, BatchExecute (xc_update_sql cfg), Commit]\<rparr>"
    using assms by (auto simp: write_out_def ok_simps)
  then show ?thesis using send_if_ok[of "\<lambda>b. b \<noteq> []" srv s v s1] by (auto simp: written_def split: if_splits)
qed

lemma flush_ok:
  assumes "flush srv cfg s = (Inr u, s')"
  shows "written s' = written s \<and> ex_processed s' = ex_processed s \<and> ex_collected s' = 0
    \<and> ex_progress s' = ex_progress s \<and> ex_reported s' = ex_reported s \<and> ex_buf s' = []"
proof -
  obtain v s1 where "write_out srv cfg s = (Inr v, s1)"
    "s' = s1\<lparr>trace := trace s1 @ [Begin, CopyIn (''COPY '' @ xc_temp_table cfg @ '' FROM stdin'')], ex_collected := 0\<rparr>"
    using assms by (auto simp: flush_def ok_simps)
  then show ?thesis using write_out_ok[of srv cfg s v s1] by (auto simp: written_def)
qed

lemma exporter_start_ok:
  "exporter_start srv cfg sql s = (Inr u, s') \<Longrightarrow>
    written s' = written s \<and> ex_buf s' = ex_buf s \<and> ex_processed s' = ex_processed s
    \<and> ex_progress s' = ex_progress s \<and> ex_reported s' = ex_reported s"
  by (auto simp: exporter_start_def ok_simps written_def)

lemma export_progress_ok:
  "export_progress rnd cfg n s = (Inr u, s') \<Longrightarrow>
    written s' = written s \<and> ex_processed s' = ex_processed s + n \<and> ex_collected s' = ex_collected s
    \<and> ex_progress s' = max (ex_progress s) (calculate_progress rnd (xc_item_count cfg) (ex_processed s + n))
    \<and> ex_reported s' = (if ex_progress s < ex_progress s' \<and> xc_callback cfg then ex_reported s @ [ex_progress s'] else ex_reported s)"
  by (auto simp: export_progress_def written_def Let_def split: if_splits)

lemma export_batch_ok:
  assumes "export_batch srv rnd cfg elapsed rows s = (Inr u, s')"
  shows "written s' = written s @ concat (map record_line rows)" "ex_processed s' = ex_processed s + length rows"
    "ex_progress s' = max (ex_progress s) (calculate_progress rnd (xc_item_count cfg) (ex_processed s + length rows))"
    "ex_reported s' = (if ex_progress s < ex_progress s' \<and> xc_callback cfg then ex_reported s @ [ex_progress s'] else ex_reported s)"
    "xc_stream cfg \<Longrightarrow> ex_collected s' < 1000"
proof -
  define s0 where "s0 = s\<lparr>ex_buf := ex_buf s @ concat (map record_line rows), ex_collected := ex_collected s + length rows\<rparr>"
  have s0: "written s0 = written s @ concat (map record_line rows)" "ex_processed s0 = ex_processed s"
    "ex_progress s0 = ex_progress s" "ex_reported s0 = ex_reported s"
    by (simp_all add: s0_def written_def)
  obtain v1 s1 v2 s2 where 1: "send_if (\<lambda>b. length b > CHUNK_SIZE) srv s0 = (Inr v1, s1)"
    and 2: "export_progress rnd cfg (length rows) s1 = (Inr v2, s2)"
    and 3: "if \<not> xc_stream cfg \<or> \<not> flush_due elapsed (ex_collected s2) then s' = s2 else flush srv cfg s2 = (Inr u, s')"
    using assms by (auto simp: export_batch_def ok_simps collect_rows_def s0_def split: if_splits)
  note f = send_if_ok[OF 1] export_progress_ok[OF 2]
  have g: "written s' = written s2 \<and> ex_processed s' = ex_processed s2 \<and> ex_progress s' = ex_progress s2
      \<and> ex_reported s' = ex_reported s2"
    using 3 flush_ok[of srv cfg s2 u s'] by (auto split: if_splits)
  show "written s' = written s @ concat (map record_line rows)" "ex_processed s' = ex_processed s + length rows"
    using f g s0 by auto
  show "ex_progress s' = max (ex_progress s) (calculate_progress rnd (xc_item_count cfg) (ex_processed s + length rows))"
    "ex_reported s' = (if ex_progress s < ex_progress s' \<and> xc_callback cfg then ex_reported s @ [ex_progress s'] else ex_reported s)"
    using f g s0 by auto
  show "xc_stream cfg \<Longrightarrow> ex_collected s' < 1000"
    using 3 flush_ok[of srv cfg s2 u s'] by (auto simp: flush_due_def Let_def split: if_splits)
qed

lemma export_finish_ok:
  assumes "export_finish srv cfg s = (Inr n, s')" "ex_processed s = 0 \<longrightarrow> ex_buf s = []"
  shows "copied (trace s') = written s" "n = ex_processed s" "ex_buf s' = []"
    "n > 0 \<Longrightarrow> \<exists>t. trace s' = t @ [CopyFinish, BatchExecute (xc_update_sql cfg), Commit]"
    "ex_reported s' = (if ex_progress s \<noteq> 100 \<and> xc_callback cfg then ex_reported s @ [100] else ex_reported s)"
    "ex_progress s' = ex_progress s" "ex_processed s' = ex_processed s"
proof -
  define s0 where "s0 = (if ex_progress s \<noteq> 100 \<and> xc_callback cfg then s\<lparr>ex_reported := ex_reported s @ [100]\<rparr> else s)"
  have s0: "written s0 = written s" "ex_processed s0 = ex_processed s" "ex_progress s0 = ex_progress s" "ex_buf s0 = ex_buf s"
    "ex_reported s0 = (if ex_progress s \<noteq> 100 \<and> xc_callback cfg then ex_reported s @ [100] else ex_reported s)"
    by (simp_all add: s0_def written_def)
  have "n = ex_processed s0 \<and> (if ex_processed s0 = 0 then s' = s0 else \<exists>u. write_out srv cfg s0 = (Inr u, s'))"
    using assms(1) by (auto simp: export_finish_def ok_simps s0_def split: if_splits)
  then show "copied (trace s') = written s" "n = ex_processed s" "ex_buf s' = []"
    "n > 0 \<Longrightarrow> \<exists>t. trace s' = t @ [CopyFinish, BatchExecute (xc_update_sql cfg), Commit]"
    "ex_reported s' = (if ex_progress s \<noteq> 100 \<and> xc_callback cfg then ex_reported s @ [100] else ex_reported s)"
    "ex_progress s' = ex_progress s" "ex_processed s' = ex_processed s"
    using write_out_ok[of srv cfg s0 _ s'] assms(2) s0
    by (auto simp: written_def split: if_splits)
qed

section \<open>Progress figures\<close>

text \<open>What the code relies on of \<^verbatim>\<open>f64\<close>: rounding is monotone and exact on small integers.\<close>

definition rounding :: "(rat \<Rightarrow> rat) \<Rightarrow> bool" where
  "rounding rnd \<longleftrightarrow> mono rnd \<and> (\<forall>n \<le> 100. rnd (of_nat n) = of_nat n)"

lemma rounding_values:
  assumes "rounding rnd"
  shows "rnd 0 = 0" "rnd 1 = 1" "rnd 100 = 100" "0 < t \<Longrightarrow> 1 \<le> rnd (of_int t)"
proof -
  have *: "n \<le> 100 \<Longrightarrow> rnd (of_nat n) = of_nat n" for n using assms by (simp add: rounding_def)
  show v: "rnd 0 = 0" "rnd 1 = 1" "rnd 100 = 100" using *[of 0] *[of 1] *[of 100] by simp_all
  show "0 < t \<Longrightarrow> 1 \<le> rnd (of_int t)"
    using assms monoD[of rnd 1 "of_int t"] v(2) by (simp add: rounding_def)
qed

lemma calculate_progress_mono:
  assumes "rounding rnd" "a \<le> b"
  shows "calculate_progress rnd t a \<le> calculate_progress rnd t b"
proof (cases "t \<le> 0")
  case False
  then have t: "1 \<le> rnd (of_int t)" using rounding_values(4)[OF assms(1)] by simp
  have m: "mono rnd" using assms(1) by (simp add: rounding_def)
  have "rnd (of_nat a) / rnd (of_int t) \<le> rnd (of_nat b) / rnd (of_int t)"
    using t assms(2) monoD[OF m, of "of_nat a" "of_nat b"] by (simp add: divide_right_mono)
  then have "rnd (rnd (rnd (of_nat a) / rnd (of_int t)) * 100) \<le> rnd (rnd (rnd (of_nat b) / rnd (of_int t)) * 100)"
    using monoD[OF m] by simp
  then have "nat \<lfloor>rnd (rnd (rnd (of_nat a) / rnd (of_int t)) * 100)\<rfloor> \<le> nat \<lfloor>rnd (rnd (rnd (of_nat b) / rnd (of_int t)) * 100)\<rfloor>"
    by (intro nat_mono floor_mono)
  then show ?thesis using False by (simp add: calculate_progress_def)
qed (simp add: calculate_progress_def)

lemma calculate_progress_full: "rounding rnd \<Longrightarrow> 0 < t \<Longrightarrow> calculate_progress rnd (int t) t = 100"
  using rounding_values[of rnd] rounding_values(4)[of rnd "int t"] by (simp add: calculate_progress_def)

lemma calculate_progress_le_100:
  assumes "rounding rnd" "t \<le> 0 \<or> int n \<le> t"
  shows "calculate_progress rnd t n \<le> 100"
proof (cases "t \<le> 0")
  case False
  then have "calculate_progress rnd t n \<le> calculate_progress rnd t (nat t)"
    using assms by (intro calculate_progress_mono) auto
  also have "\<dots> = 100" using calculate_progress_full[OF assms(1), of "nat t"] False by simp
  finally show ?thesis .
qed (simp add: calculate_progress_def)

text \<open>The figures handed to the callback increase and are the current one at most.\<close>

definition figures_ok :: "('f, 'x) exporter_scheme \<Rightarrow> bool" where
  "figures_ok s \<longleftrightarrow> sorted_wrt (<) (ex_reported s) \<and> (\<forall>r \<in> set (ex_reported s). r \<le> ex_progress s) \<and> ex_progress s \<le> 100"

lemma export_batch_figures:
  assumes "export_batch srv rnd cfg elapsed rows s = (Inr u, s')" "figures_ok s" "rounding rnd"
    and "xc_item_count cfg \<le> 0 \<or> int (ex_processed s + length rows) \<le> xc_item_count cfg"
  shows "figures_ok s'"
  using export_batch_ok(3,4)[OF assms(1)] assms(2) calculate_progress_le_100[OF assms(3,4)]
  by (fastforce simp: figures_ok_def sorted_wrt_append split: if_splits)

lemma export_finish_figures:
  assumes "export_finish srv cfg s = (Inr n, s')" "figures_ok s" "ex_processed s = 0 \<longrightarrow> ex_buf s = []" "xc_callback cfg"
    and "ex_progress s = 100 \<longrightarrow> 100 \<in> set (ex_reported s)"
  shows "sorted_wrt (<) (ex_reported s')" "ex_reported s' \<noteq> []" "last (ex_reported s') = 100"
proof -
  note f = export_finish_ok[OF assms(1,3)]
  show "sorted_wrt (<) (ex_reported s')"
    using f(5) assms(2) by (fastforce simp: figures_ok_def sorted_wrt_append split: if_splits)
  show ne: "ex_reported s' \<noteq> []" using f(5) assms(4,5) by (auto split: if_splits)
  show "last (ex_reported s') = 100"
  proof (cases "ex_progress s = 100")
    case True
    then have "100 \<in> set (ex_reported s)" "\<forall>r \<in> set (ex_reported s). r \<le> 100" "sorted_wrt (<) (ex_reported s)"
      using assms(2,5) by (auto simp: figures_ok_def)
    then have "last (ex_reported s) = 100"
      by (cases "ex_reported s" rule: rev_cases) (auto simp: sorted_wrt_append)
    then show ?thesis using f(5) True by simp
  next
    case False
    then show ?thesis using f(5) assms(4) by simp
  qed
qed

end
