(* ===== verification/Embedding_Pipeline.thy ===== *)
theory Embedding_Pipeline
  imports Embedding_Export
begin

text \<open>
  The three workers of \<^verbatim>\<open>create_embeddings_from_db\<close> in \<^verbatim>\<open>lantern_cli/src/embeddings/mod.rs\<close>: the
  producer polls rows from a portal, the embedding worker turns a batch of rows into records, the
  exporter writes the records. They are joined by two channels of capacity one and run concurrently,
  so a run is a sequence of steps of the relation \<open>pstep\<close>; a worker that ends closes its ends of the
  channels. The cancellation token may fire at any moment.
\<close>

section \<open>The embedding worker\<close>

text \<open>The encodings of the Unicode white space characters, as \<^verbatim>\<open>str::trim\<close> knows them.\<close>

definition whitespace :: "string list" where
  "whitespace =
    [[CHR 0x09], [CHR 0x0A], [CHR 0x0B], [CHR 0x0C], [CHR 0x0D], [CHR 0x20],
     [CHR 0xC2, CHR 0x85], [CHR 0xC2, CHR 0xA0], [CHR 0xE1, CHR 0x9A, CHR 0x80], [CHR 0xE2, CHR 0x81, CHR 0x9F], [CHR 0xE3, CHR 0x80, CHR 0x80]] @
    map (\<lambda>k. [CHR 0xE2, CHR 0x80, k])
      [CHR 0x80, CHR 0x81, CHR 0x82, CHR 0x83, CHR 0x84, CHR 0x85, CHR 0x86, CHR 0x87, CHR 0x88, CHR 0x89, CHR 0x8A, CHR 0xA8, CHR 0xA9, CHR 0xAF]"

function trim_start :: "string \<Rightarrow> string" where
  "trim_start s =
    (case find (\<lambda>w. w \<noteq> [] \<and> s \<noteq> [] \<and> take (length w) s = w) whitespace of
       None \<Rightarrow> s
     | Some w \<Rightarrow> trim_start (drop (length w) s))"
  by pat_completeness auto
termination
  by (relation "measure length") (auto simp: find_Some_iff)

declare trim_start.simps [simp del]

definition is_blank :: "string \<Rightarrow> bool" where
  "is_blank s \<longleftrightarrow> trim_start s = []"

fun source_text :: "'f sql_row \<Rightarrow> string option" where
  "source_text (_ # SText t # _) = Some t"
| "source_text _ = None"

fun collect_inputs :: "'f sql_row list \<Rightarrow> (string list \<times> string list) result" where
  "collect_inputs [] = Inr ([], [])"
| "collect_inputs (row # rows) =
    (case source_text row of
       None \<Rightarrow> collect_inputs rows
     | Some src_data \<Rightarrow>
         if is_blank src_data then collect_inputs rows
         else and_then_r (get_text 0 row) (\<lambda>id.
              and_then_r (collect_inputs rows) (\<lambda>(inputs, input_ids). Inr (src_data # inputs, id # input_ids))))"

text \<open>\<^verbatim>\<open>for _ in 0..values.len()\<close>: identifiers and values are popped from the ends of their vectors.\<close>

fun pop_pairs :: "nat \<Rightarrow> (string \<Rightarrow> 'v \<Rightarrow> EmbeddingRecord) \<Rightarrow> string list \<Rightarrow> 'v list \<Rightarrow> EmbeddingRecord list \<Rightarrow> EmbeddingRecord list result" where
  "pop_pairs 0 mk ids vals acc = Inr acc"
| "pop_pairs (Suc n) mk ids vals acc =
    (if ids = [] \<or> vals = [] then Inl (Panicked ''called `Option::unwrap()` on a `None` value'')
     else pop_pairs n mk (butlast ids) (butlast vals) (acc @ [mk (last ids) (last vals)]))"

text \<open>One iteration: the tokens spent and the records, or nothing for a batch without text.\<close>

definition embed_batch ::
  "('f \<Rightarrow> string) \<Rightarrow> EmbeddingJobType \<Rightarrow> (string list \<Rightarrow> 'f EmbeddingResult result) \<Rightarrow>
   (string list \<Rightarrow> BatchCompletionResult result) \<Rightarrow> 'f sql_row list \<Rightarrow> (nat \<times> EmbeddingRecord list) option result" where
  "embed_batch f32_to_string job_type process completions rows =
    and_then_r (collect_inputs rows) (\<lambda>(inputs, input_ids).
    if inputs = [] then Inr None
    else (case job_type of
       EmbeddingGeneration \<Rightarrow>
         and_then_r (process inputs) (\<lambda>response.
         and_then_r (pop_pairs (length (embeddings response)) (from_vec f32_to_string) input_ids (embeddings response) [])
           (\<lambda>response_data. Inr (Some (processed_tokens response, response_data))))
     | Completion \<Rightarrow>
         and_then_r (completions inputs) (\<lambda>response.
         and_then_r (pop_pairs (length (messages response)) from_string input_ids (messages response) [])
           (\<lambda>response_data. Inr (Some (batch_tokens response, response_data))))))"

section \<open>The pipeline\<close>

text \<open>
  What does not change during a run. The service may answer every request in its own way: a step
  uses any of the functions \<open>ee_process\<close>, \<open>ee_completions\<close>. \<open>ee_runtime\<close> is the outcome of
  \<^verbatim>\<open>EmbeddingRuntime::new\<close>.
\<close>

record 'f embed_env =
  ee_server :: "'f server"
  ee_round :: "rat \<Rightarrow> rat"
  ee_show :: "'f \<Rightarrow> string"
  ee_runtime :: "unit result"
  ee_process :: "(string list \<Rightarrow> 'f EmbeddingResult result) set"
  ee_completions :: "(string list \<Rightarrow> BatchCompletionResult result) set"
  ee_job_type :: EmbeddingJobType
  ee_batch :: nat
  ee_config :: export_config
  ee_create_sql :: string

record 'f pipeline =
  pl_portal :: "'f sql_row list"
  pl_fetched :: "'f sql_row list option"
  pl_producer :: "unit result option"
  pl_rows :: "'f sql_row list list"
  pl_pending :: "EmbeddingRecord list option"
  pl_tokens :: nat
  pl_embedder :: "nat result option"
  pl_records :: "EmbeddingRecord list list"
  pl_started :: bool
  pl_exporter :: "'f exporter"
  pl_exported :: "nat result option"

text \<open>\<^verbatim>\<open>mpsc::channel(1)\<close>\<close>

definition CHANNEL_CAPACITY :: nat where "CHANNEL_CAPACITY = 1"

text \<open>
  \<^verbatim>\<open>query_portal(&portal, batch_size as i32)\<close>: at most that many of the remaining rows, all of them if
  the number is not positive.
\<close>

definition query_portal :: "nat \<Rightarrow> 'a list \<Rightarrow> 'a list \<times> 'a list" where
  "query_portal batch_size rows =
    (let n = sint (word_of_nat batch_size :: 32 word)
     in if n \<le> 0 then (rows, []) else (take (nat n) rows, drop (nat n) rows))"

definition pl_init :: "'f sql_row list \<Rightarrow> 'f db_call list \<Rightarrow> 'f pipeline" where
  "pl_init rows calls =
    \<lparr>pl_portal = rows, pl_fetched = None, pl_producer = None, pl_rows = [], pl_pending = None, pl_tokens = 0,
     pl_embedder = None, pl_records = [], pl_started = False,
     pl_exporter = \<lparr>trace = calls, ex_buf = [], ex_collected = 0, ex_processed = 0, ex_progress = 0, ex_reported = []\<rparr>,
     pl_exported = None\<rparr>"

inductive pstep :: "'f embed_env \<Rightarrow> 'f pipeline \<Rightarrow> 'f pipeline \<Rightarrow> bool" for env :: "'f embed_env" where
  fetch:
    "pl_producer s = None \<Longrightarrow> pl_fetched s = None \<Longrightarrow> query_portal (ee_batch env) (pl_portal s) = (b, rest) \<Longrightarrow> b \<noteq> [] \<Longrightarrow>
     pstep env s (s\<lparr>pl_portal := rest, pl_fetched := Some b\<rparr>)"
| fetch_end:
    "pl_producer s = None \<Longrightarrow> pl_fetched s = None \<Longrightarrow> query_portal (ee_batch env) (pl_portal s) = ([], rest) \<Longrightarrow>
     pstep env s (s\<lparr>pl_producer := Some (Inr ())\<rparr>)"
| push:
    "pl_producer s = None \<Longrightarrow> pl_fetched s = Some b \<Longrightarrow> length (pl_rows s) < CHANNEL_CAPACITY \<Longrightarrow> pl_embedder s = None \<Longrightarrow>
     pstep env s (s\<lparr>pl_fetched := None, pl_rows := pl_rows s @ [b]\<rparr>)"
| push_closed:
    "pl_producer s = None \<Longrightarrow> pl_fetched s = Some b \<Longrightarrow> pl_embedder s = Some r \<Longrightarrow>
     pstep env s (s\<lparr>pl_fetched := None, pl_producer := Some (Inr ())\<rparr>)"
| no_runtime:
    "pl_embedder s = None \<Longrightarrow> ee_runtime env = Inl e \<Longrightarrow>
     pstep env s (s\<lparr>pl_rows := [], pl_embedder := Some (Inl e)\<rparr>)"
| embed_skip:
    "pl_embedder s = None \<Longrightarrow> ee_runtime env = Inr () \<Longrightarrow> pl_pending s = None \<Longrightarrow> pl_rows s = b # bs \<Longrightarrow>
     p \<in> ee_process env \<Longrightarrow> q \<in> ee_completions env \<Longrightarrow>
     embed_batch (ee_show env) (ee_job_type env) p q b = Inr None \<Longrightarrow>
     pstep env s (s\<lparr>pl_rows := bs\<rparr>)"
| embed:
    "pl_embedder s = None \<Longrightarrow> ee_runtime env = Inr () \<Longrightarrow> pl_pending s = None \<Longrightarrow> pl_rows s = b # bs \<Longrightarrow>
     p \<in> ee_process env \<Longrightarrow> q \<in> ee_completions env \<Longrightarrow>
     embed_batch (ee_show env) (ee_job_type env) p q b = Inr (Some (tokens, rs)) \<Longrightarrow>
     pstep env s (s\<lparr>pl_rows := bs, pl_pending := Some rs, pl_tokens := pl_tokens s + tokens\<rparr>)"
| embed_fail:
    "pl_embedder s = None \<Longrightarrow> ee_runtime env = Inr () \<Longrightarrow> pl_pending s = None \<Longrightarrow> pl_rows s = b # bs \<Longrightarrow>
     p \<in> ee_process env \<Longrightarrow> q \<in> ee_completions env \<Longrightarrow>
     embed_batch (ee_show env) (ee_job_type env) p q b = Inl e \<Longrightarrow>
     pstep env s (s\<lparr>pl_rows := [], pl_embedder := Some (Inl e)\<rparr>)"
| embed_end:
    "pl_embedder s = None \<Longrightarrow> ee_runtime env = Inr () \<Longrightarrow> pl_pending s = None \<Longrightarrow> pl_rows s = [] \<Longrightarrow> pl_producer s = Some r \<Longrightarrow>
     pstep env s (s\<lparr>pl_embedder := Some (Inr (pl_tokens s))\<rparr>)"
| forward:
    "pl_embedder s = None \<Longrightarrow> pl_pending s = Some rs \<Longrightarrow> length (pl_records s) < CHANNEL_CAPACITY \<Longrightarrow> pl_exported s = None \<Longrightarrow>
     pstep env s (s\<lparr>pl_pending := None, pl_records := pl_records s @ [rs]\<rparr>)"
| forward_closed:
    "pl_embedder s = None \<Longrightarrow> pl_pending s = Some rs \<Longrightarrow> pl_exported s = Some r \<Longrightarrow>
     pstep env s (s\<lparr>pl_pending := None, pl_rows := [], pl_embedder := Some (Inr (pl_tokens s))\<rparr>)"
| start:
    "pl_exported s = None \<Longrightarrow> \<not> pl_started s \<Longrightarrow>
     exporter_start (ee_server env) (ee_config env) (ee_create_sql env) (pl_exporter s) = (Inr (), x) \<Longrightarrow>
     pstep env s (s\<lparr>pl_started := True, pl_exporter := x\<rparr>)"
| start_fail:
    "pl_exported s = None \<Longrightarrow> \<not> pl_started s \<Longrightarrow>
     exporter_start (ee_server env) (ee_config env) (ee_create_sql env) (pl_exporter s) = (Inl e, x) \<Longrightarrow>
     pstep env s (s\<lparr>pl_records := [], pl_exporter := x, pl_exported := Some (Inl e)\<rparr>)"
| export:
    "pl_exported s = None \<Longrightarrow> pl_started s \<Longrightarrow> pl_records s = rs # rss \<Longrightarrow>
     export_batch (ee_server env) (ee_round env) (ee_config env) elapsed rs (pl_exporter s) = (Inr (), x) \<Longrightarrow>
     pstep env s (s\<lparr>pl_records := rss, pl_exporter := x\<rparr>)"
| export_fail:
    "pl_exported s = None \<Longrightarrow> pl_started s \<Longrightarrow> pl_records s = rs # rss \<Longrightarrow>
     export_batch (ee_server env) (ee_round env) (ee_config env) elapsed rs (pl_exporter s) = (Inl e, x) \<Longrightarrow>
     pstep env s (s\<lparr>pl_records := [], pl_exporter := x, pl_exported := Some (Inl e)\<rparr>)"
| export_end:
    "pl_exported s = None \<Longrightarrow> pl_started s \<Longrightarrow> pl_records s = [] \<Longrightarrow> pl_embedder s = Some r \<Longrightarrow>
     export_finish (ee_server env) (ee_config env) (pl_exporter s) = (res, x) \<Longrightarrow>
     pstep env s (s\<lparr>pl_exporter := x, pl_exported := Some res\<rparr>)"

text \<open>What may happen to the workers from outside: the source database fails, the token is cancelled.\<close>

inductive pfault :: "'f embed_env \<Rightarrow> 'f pipeline \<Rightarrow> 'f pipeline \<Rightarrow> bool" for env :: "'f embed_env" where
  fetch_fail:
    "pl_producer s = None \<Longrightarrow> pl_fetched s = None \<Longrightarrow>
     pfault env s (s\<lparr>pl_producer := Some (Inl (IoError e))\<rparr>)"
| cancel:
    "pl_embedder s = None \<Longrightarrow> ee_runtime env = Inr () \<Longrightarrow> pl_pending s = None \<Longrightarrow>
     pfault env s (s\<lparr>pl_rows := [], pl_embedder := Some (Inl (Bail ''Job cancelled''))\<rparr>)"

definition embeds :: "'f embed_env \<Rightarrow> 'f pipeline \<Rightarrow> 'f pipeline \<Rightarrow> bool" where
  "embeds env = (\<lambda>s s'. pstep env s s' \<or> pfault env s s')\<^sup>*\<^sup>*"

text \<open>\<^verbatim>\<open>tokio::join!\<close> waits for all three; the results are then looked at in this order.\<close>

definition join_result :: "'f pipeline \<Rightarrow> (nat \<times> nat) result option" where
  "join_result s =
    (case (pl_producer s, pl_embedder s, pl_exported s) of
       (Some producer, Some embedder, Some exported) \<Rightarrow>
         Some (and_then_r producer (\<lambda>_. and_then_r embedder (\<lambda>processed_tokens.
               and_then_r exported (\<lambda>processed_rows. Inr (processed_rows, processed_tokens)))))
     | _ \<Rightarrow> None)"

section \<open>Starting the pipeline\<close>

definition producer_query :: "EmbeddingArgs \<Rightarrow> string \<Rightarrow> string \<Rightarrow> string \<Rightarrow> string" where
  "producer_query args full_table_name filter_sql limit_sql =
    ''SELECT '' @ quote_ident (ea_pk args) @ ''::text, '' @ quote_ident (ea_column args) @ ''::text FROM '' @
    full_table_name @ '' '' @ filter_sql @ '' '' @ limit_sql @ '';''"

record embed_plan =
  ep_batch :: nat
  ep_job_type :: EmbeddingJobType
  ep_query :: string
  ep_config :: export_config
  ep_create_sql :: string

text \<open>The part of \<^verbatim>\<open>create_embeddings_from_db\<close> before the workers are joined.\<close>

definition prepare_embeddings ::
  "'f server \<Rightarrow> nat \<Rightarrow> EmbeddingArgs \<Rightarrow> bool \<Rightarrow> bool \<Rightarrow> (('f, 'x) world_scheme, embed_plan) prog" where
  "prepare_embeddings srv rng args track_progress cb =
    (let batch_size = (case ea_batch_size args of Some n \<Rightarrow> n | None \<Rightarrow> get_default_batch_size (ea_model args));
         job_type = (case ea_job_type args of Some j \<Rightarrow> j | None \<Rightarrow> EmbeddingGeneration);
         column_type = (case ea_column_type args of Some t \<Rightarrow> t | None \<Rightarrow> get_default_column_type job_type);
         full_table_name = get_full_table_name (ea_schema args) (ea_table args);
         filter_sql = (case ea_filter args of
            Some f \<Rightarrow> ''WHERE '' @ f | None \<Rightarrow> ''WHERE '' @ quote_ident (ea_column args) @ '' IS NOT NULL'');
         limit_sql = (case ea_limit args of Some l \<Rightarrow> ''LIMIT '' @ nat_digits l | None \<Rightarrow> []);
         uri = append_params_to_uri (ea_uri args) CONNECTION_PARAMS
     in seq (do_call srv (Connect uri))
        (and_then (if track_progress then estimate_count srv full_table_name filter_sql limit_sql else return 0) (\<lambda>item_cnt.
         and_then (exporter_prepare srv rng args uri item_cnt column_type cb) (\<lambda>(cfg, create_sql).
         return \<lparr>ep_batch = batch_size, ep_job_type = job_type,
                 ep_query = producer_query args full_table_name filter_sql limit_sql,
                 ep_config = cfg, ep_create_sql = create_sql\<rparr>))))"

section \<open>Batches\<close>

text \<open>The rows with text, as pairs of key and text.\<close>

fun selected_row :: "'f sql_row \<Rightarrow> (string \<times> string) list" where
  "selected_row row =
    (case source_text row of
       None \<Rightarrow> []
     | Some t \<Rightarrow> if is_blank t then [] else (case get_text 0 row of Inr i \<Rightarrow> [(i, t)] | Inl e \<Rightarrow> []))"

definition selected :: "'f sql_row list \<Rightarrow> (string \<times> string) list" where
  "selected rows = concat (map selected_row rows)"

lemma selected_simps [simp]:
  "selected [] = []" "selected (row # rows) = selected_row row @ selected rows"
  "selected (xs @ ys) = selected xs @ selected ys"
  by (simp_all add: selected_def)

declare selected_row.simps [simp del]

lemma collect_inputs_selected:
  "collect_inputs rows = Inr (inputs, ids) \<Longrightarrow> inputs = map snd (selected rows) \<and> ids = map fst (selected rows)"
proof (induction rows arbitrary: inputs ids)
  case (Cons row rows)
  then show ?case
    by (cases "source_text row") (auto simp: selected_row.simps and_then_r_eq_Inr split: if_splits sum.splits)
qed simp

lemma pop_pairs_general:
  "length vals \<le> length ids \<Longrightarrow>
    pop_pairs (length vals) mk ids vals acc =
    Inr (acc @ rev (map2 mk (drop (length ids - length vals) ids) vals))"
proof (induction vals arbitrary: ids acc rule: rev_induct)
  case (snoc v vals)
  then obtain i js where ids: "ids = js @ [i]" by (cases ids rule: rev_cases) auto
  show ?case
    using snoc.prems snoc.IH[of js "acc @ [mk i v]"] by (simp add: ids)
qed simp

lemma pop_pairs_all:
  "length vals = length ids \<Longrightarrow> pop_pairs (length vals) mk ids vals acc = Inr (acc @ rev (map2 mk ids vals))"
  using pop_pairs_general[of vals ids mk acc] by simp

text \<open>The service gives every text its own answer, whatever the request it comes in.\<close>

definition pointwise :: "'f embed_env \<Rightarrow> (string \<times> string \<Rightarrow> EmbeddingRecord) \<Rightarrow> bool" where
  "pointwise env mk \<longleftrightarrow>
    (case ee_job_type env of
       EmbeddingGeneration \<Rightarrow>
         (\<exists>f. (\<forall>p \<in> ee_process env. \<forall>inputs r. p inputs = Inr r \<longrightarrow> embeddings r = map f inputs)
           \<and> mk = (\<lambda>(id, t). from_vec (ee_show env) id (f t)))
     | Completion \<Rightarrow>
         (\<exists>g. (\<forall>q \<in> ee_completions env. \<forall>inputs r. q inputs = Inr r \<longrightarrow> messages r = map g inputs)
           \<and> mk = (\<lambda>(id, t). from_string id (g t))))"

lemma map2_map_fst_snd: "map2 (\<lambda>x y. h x (k y)) (map fst ps) (map snd ps) = map (\<lambda>(x, y). h x (k y)) ps"
  by (induction ps) auto

lemma pop_pairs_selected:
  "pop_pairs (length ps) h (map fst ps) (map (k \<circ> snd) ps) [] = Inr (rev (map (\<lambda>(i, t). h i (k t)) ps))"
  using pop_pairs_all[of "map (k \<circ> snd) ps" "map fst ps" h "[]"] map2_map_fst_snd[of h k ps]
  by (simp add: map2_map_map comp_def case_prod_beta)

lemma embed_batch_ok:
  assumes "pointwise env mk" "p \<in> ee_process env" "q \<in> ee_completions env"
    and "embed_batch (ee_show env) (ee_job_type env) p q b = Inr res"
  shows "(res = None \<longrightarrow> selected b = []) \<and> (\<forall>tokens rs. res = Some (tokens, rs) \<longrightarrow> rs = rev (map mk (selected b)))"
proof -
  obtain inputs ids where c: "collect_inputs b = Inr (inputs, ids)"
    using assms(4) by (auto simp: embed_batch_def and_then_r_eq_Inr)
  have sel: "inputs = map snd (selected b)" "ids = map fst (selected b)"
    using collect_inputs_selected[OF c] by auto
  show ?thesis
    using assms c sel by (auto simp: embed_batch_def pointwise_def pop_pairs_selected and_then_r_eq_Inr split: EmbeddingJobType.splits if_splits)
qed

section \<open>Records are neither lost nor repeated\<close>

fun failed :: "'a result option \<Rightarrow> bool" where
  "failed (Some (Inl e)) = True"
| "failed _ = False"

definition worker_failed :: "'f pipeline \<Rightarrow> bool" where
  "worker_failed s \<longleftrightarrow> failed (pl_producer s) \<or> failed (pl_embedder s) \<or> failed (pl_exported s)"

definition rows_in_flight :: "'f pipeline \<Rightarrow> 'f sql_row list" where
  "rows_in_flight s = concat (pl_rows s) @ (case pl_fetched s of None \<Rightarrow> [] | Some b \<Rightarrow> b) @ pl_portal s"

definition records_in_flight :: "'f pipeline \<Rightarrow> EmbeddingRecord list" where
  "records_in_flight s = concat (pl_records s) @ (case pl_pending s of None \<Rightarrow> [] | Some rs \<Rightarrow> rs)"

definition accounted :: "(string \<times> string \<Rightarrow> EmbeddingRecord) \<Rightarrow> 'f sql_row list \<Rightarrow> 'f pipeline \<Rightarrow> bool" where
  "accounted mk rows s \<longleftrightarrow>
    (\<exists>done. written (pl_exporter s) = concat (map record_line done) \<and> ex_processed (pl_exporter s) = length done
      \<and> mset done + mset (records_in_flight s) + mset (map mk (selected (rows_in_flight s))) = mset (map mk (selected rows)))"

text \<open>Who may have ended: a worker ends well only after the one before it, with its channel empty.\<close>

definition orderly :: "'f pipeline \<Rightarrow> bool" where
  "orderly s \<longleftrightarrow>
    (pl_producer s \<noteq> None \<longrightarrow> pl_portal s = [] \<and> pl_fetched s = None)
    \<and> (pl_embedder s \<noteq> None \<longrightarrow> pl_producer s \<noteq> None \<and> pl_rows s = [] \<and> pl_pending s = None)
    \<and> (pl_exported s \<noteq> None \<longrightarrow> pl_embedder s \<noteq> None \<and> pl_records s = [])"

definition handed_over :: "export_config \<Rightarrow> 'f pipeline \<Rightarrow> bool" where
  "handed_over cfg s \<longleftrightarrow>
    (\<forall>n. pl_exported s = Some (Inr n) \<longrightarrow>
      n = ex_processed (pl_exporter s) \<and> ex_buf (pl_exporter s) = []
      \<and> (n > 0 \<longrightarrow> (\<exists>t. trace (pl_exporter s) = t @ [CopyFinish, BatchExecute (xc_update_sql cfg), Commit])))"

definition pinv :: "'f embed_env \<Rightarrow> (string \<times> string \<Rightarrow> EmbeddingRecord) \<Rightarrow> 'f sql_row list \<Rightarrow> 'f pipeline \<Rightarrow> bool" where
  "pinv env mk rows s \<longleftrightarrow> worker_failed s \<or> (accounted mk rows s \<and> orderly s \<and> handed_over (ee_config env) s)"

lemma worker_failed_stable: "pstep env s s' \<Longrightarrow> worker_failed s \<Longrightarrow> worker_failed s'"
  by (induction rule: pstep.induct) (auto simp: worker_failed_def)

lemma pfault_failed: "pfault env s s' \<Longrightarrow> worker_failed s'"
  by (induction rule: pfault.induct) (simp_all add: worker_failed_def)

lemma query_portal_append: "query_portal n rows = (b, rest) \<Longrightarrow> b @ rest = rows"
  by (auto simp: query_portal_def Let_def split: if_splits)

lemma query_portal_end: "query_portal n rows = ([], rest) \<Longrightarrow> rows = []"
  by (auto simp: query_portal_def Let_def split: if_splits)

lemmas flight_defs = accounted_def rows_in_flight_def records_in_flight_def

lemma pstep_accounted:
  assumes "pstep env s s'" "pointwise env mk" "accounted mk rows s" "orderly s" "\<not> worker_failed s'"
  shows "accounted mk rows s'"
  using assms
proof (induction rule: pstep.induct)
  case (fetch s b rest)
  then show ?case using query_portal_append[OF fetch(3)] by (auto simp: flight_defs)
next
  case (embed_skip s b bs p q)
  then show ?case using embed_batch_ok[OF embed_skip(8,5,6,7)] by (auto simp: flight_defs)
next
  case (embed s b bs p q tokens rs)
  then show ?case using embed_batch_ok[OF embed(8,5,6,7)] by (auto simp: flight_defs ac_simps)
next
  case (start s x)
  then show ?case using exporter_start_ok[OF start(3)] by (auto simp: flight_defs)
next
  case (export s rs rss elapsed x)
  obtain d where "written (pl_exporter s) = concat (map record_line d)" "ex_processed (pl_exporter s) = length d"
    "mset d + mset (records_in_flight s) + mset (map mk (selected (rows_in_flight s))) = mset (map mk (selected rows))"
    using export(6) by (auto simp: accounted_def)
  then show ?case
    using export_batch_ok(1,2)[OF export(4)] export(3)
    by (intro accounted_def[THEN iffD2] exI[of _ "d @ rs"])
      (auto simp: rows_in_flight_def records_in_flight_def ac_simps)
next
  case (export_end s r res x)
  then obtain n where res: "res = Inr n" by (cases res) (auto simp: worker_failed_def)
  have "ex_processed (pl_exporter s) = 0 \<longrightarrow> ex_buf (pl_exporter s) = []"
    using export_end(7) by (auto simp: accounted_def written_def)
  then show ?case
    using export_end export_finish_ok[OF export_end(5)[unfolded res]]
    by (auto simp: flight_defs written_def)
qed (auto simp: flight_defs worker_failed_def orderly_def split: option.splits)

lemma pstep_orderly: "pstep env s s' \<Longrightarrow> orderly s \<Longrightarrow> \<not> worker_failed s' \<Longrightarrow> orderly s'"
  by (induction rule: pstep.induct) (auto simp: orderly_def worker_failed_def dest: query_portal_end)

lemma pstep_handed_over:
  assumes "pstep env s s'" "accounted mk rows s" "orderly s" "handed_over (ee_config env) s" "\<not> worker_failed s'"
  shows "handed_over (ee_config env) s'"
  using assms
proof (induction rule: pstep.induct)
  case (export_end s r res x)
  then obtain n where res: "res = Inr n" by (cases res) (auto simp: worker_failed_def)
  have "ex_processed (pl_exporter s) = 0 \<longrightarrow> ex_buf (pl_exporter s) = []"
    using export_end(6) by (auto simp: accounted_def written_def)
  then show ?case
    using export_finish_ok[OF export_end(5)[unfolded res]] by (auto simp: handed_over_def res)
qed (auto simp: handed_over_def)

lemma pstep_pinv:
  assumes "pstep env s s'" "pointwise env mk" "pinv env mk rows s"
  shows "pinv env mk rows s'"
  using assms worker_failed_stable[OF assms(1)] pstep_accounted[OF assms(1,2)] pstep_orderly[OF assms(1)]
    pstep_handed_over[OF assms(1)]
  unfolding pinv_def by blast

lemma embeds_refl: "embeds env s s"
  by (simp add: embeds_def)

lemma embeds_step: "pstep env s t \<Longrightarrow> embeds env t u \<Longrightarrow> embeds env s u"
  unfolding embeds_def by (rule converse_rtranclp_into_rtranclp) auto

lemma pinv_failed: "worker_failed s \<Longrightarrow> pinv env mk rows s"
  by (simp add: pinv_def)

lemma embeds_pinv:
  "embeds env s s' \<Longrightarrow> pointwise env mk \<Longrightarrow> pinv env mk rows s \<Longrightarrow> pinv env mk rows s'"
  unfolding embeds_def by (induction rule: rtranclp_induct) (auto intro: pstep_pinv pinv_failed dest: pfault_failed)

lemma pl_init_pinv: "copied calls = [] \<Longrightarrow> pinv env mk rows (pl_init rows calls)"
  by (simp add: pinv_def pl_init_def flight_defs orderly_def handed_over_def written_def)

text \<open>
  C3. A job that reports success has exported every row: over every interleaving of the producer,
  the embedding worker and the exporter, and for every batch size, a run of the pipeline that ends
  with \<^verbatim>\<open>Ok((rows, tokens))\<close> has written through COPY exactly one record for each row whose text is not
  blank, holding the row's own key and the answer for its own text; \<^verbatim>\<open>rows\<close> is their number, and the
  last thing the exporter did was to finish the COPY, run the update and commit.
\<close>

theorem embeddings_complete:
  assumes "pointwise env mk" "copied calls = []"
    and "embeds env (pl_init rows calls) s" "join_result s = Some (Inr (n, tokens))"
  shows "\<exists>recs. copied (trace (pl_exporter s)) = concat (map record_line recs)
      \<and> mset recs = mset (map mk (selected rows)) \<and> n = length (selected rows)
      \<and> (n > 0 \<longrightarrow> (\<exists>t. trace (pl_exporter s) = t @ [CopyFinish, BatchExecute (xc_update_sql (ee_config env)), Commit]))"
proof -
  obtain r where ends: "pl_producer s = Some (Inr r)" "pl_embedder s = Some (Inr tokens)" "pl_exported s = Some (Inr n)"
    using assms(4) by (auto simp: join_result_def and_then_r_eq_Inr split: option.splits)
  have "pinv env mk rows s"
    using embeds_pinv[OF assms(3,1)] pl_init_pinv[OF assms(2)] by blast
  with ends have inv: "accounted mk rows s" "orderly s" "handed_over (ee_config env) s"
    by (auto simp: pinv_def worker_failed_def)
  have "rows_in_flight s = []" "records_in_flight s = []"
    using inv(2) ends by (auto simp: orderly_def rows_in_flight_def records_in_flight_def)
  with inv(1) obtain d where d: "written (pl_exporter s) = concat (map record_line d)"
    "ex_processed (pl_exporter s) = length d" "mset d = mset (map mk (selected rows))"
    by (auto simp: accounted_def)
  moreover have "length d = length (selected rows)" using arg_cong[OF d(3), of size] by simp
  ultimately show ?thesis
    using inv(3) ends by (intro exI[of _ d]) (auto simp: handed_over_def written_def)
qed

section \<open>The workers end\<close>

text \<open>Every step uses up a row, a batch or a worker.\<close>

definition pipeline_work :: "'f pipeline \<Rightarrow> nat" where
  "pipeline_work s =
    8 * length (pl_portal s) + (if pl_fetched s = None then 0 else 7) + 6 * length (pl_rows s)
    + (if pl_pending s = None then 0 else 5) + 4 * length (pl_records s) + (if pl_started s then 0 else 1)
    + (if pl_producer s = None then 1 else 0) + (if pl_embedder s = None then 1 else 0) + (if pl_exported s = None then 1 else 0)"

lemma pstep_work: "pstep env s s' \<Longrightarrow> pipeline_work s' < pipeline_work s"
proof (induction rule: pstep.induct)
  case (fetch s b rest)
  have "length (pl_portal s) = length b + length rest"
    using query_portal_append[OF fetch(3)] by (metis length_append)
  moreover have "7 < 8 * length b" using fetch(4) by (cases b) auto
  ultimately show ?case using fetch by (simp add: pipeline_work_def)
qed (simp_all add: pipeline_work_def)

lemma pfault_work: "pfault env s s' \<Longrightarrow> pipeline_work s' < pipeline_work s"
  by (induction rule: pfault.induct) (simp_all add: pipeline_work_def)

interpretation pipeline: decreasing "\<lambda>s s'. pstep env s s' \<or> pfault env s s'" pipeline_work for env
  by unfold_locales (auto dest: pstep_work pfault_work)

text \<open>
  C31. No run of the pipeline goes on for ever: with whatever failures and cancellations, it has at
  most eight steps for each row of the portal and four more.
\<close>

theorem embeddings_terminate:
  assumes "((\<lambda>s s'. pstep env s s' \<or> pfault env s s') ^^ k) (pl_init rows calls) s"
  shows "k \<le> 8 * length rows + 4"
  using pipeline.run_bounded[OF assms] by (simp add: pipeline_work_def pl_init_def)

text \<open>A worker that holds something, or has ended, keeps this shape.\<close>

lemma stuck_exporter:
  assumes "\<And>s'. \<not> pstep env s s'" "pl_exported s = None"
  shows "pl_started s \<and> pl_records s = [] \<and> pl_embedder s = None"
proof -
  have 1: "pl_started s"
  proof (rule ccontr)
    assume "\<not> pl_started s"
    then show False
      using assms pstep.start[of s env] pstep.start_fail[of s env]
      by (cases "exporter_start (ee_server env) (ee_config env) (ee_create_sql env) (pl_exporter s)";
          cases "fst (exporter_start (ee_server env) (ee_config env) (ee_create_sql env) (pl_exporter s))") auto
  qed
  have 2: "pl_records s = []"
  proof (cases "pl_records s")
    case (Cons rs rss)
    then show ?thesis
      using assms 1 pstep.export[of s rs rss env 0] pstep.export_fail[of s rs rss env 0]
      by (cases "export_batch (ee_server env) (ee_round env) (ee_config env) 0 rs (pl_exporter s)";
          cases "fst (export_batch (ee_server env) (ee_round env) (ee_config env) 0 rs (pl_exporter s))") auto
  qed
  have "pl_embedder s = None"
    using assms 1 2 pstep.export_end[of s _ env]
    by (cases "pl_embedder s"; cases "export_finish (ee_server env) (ee_config env) (pl_exporter s)") auto
  with 1 2 show ?thesis by simp
qed

lemma stuck_embedder:
  assumes "\<And>s'. \<not> pstep env s s'" "pl_embedder s = None" "ee_process env \<noteq> {}" "ee_completions env \<noteq> {}"
  shows "pl_rows s = [] \<and> pl_producer s = None"
proof -
  obtain p q where pq: "p \<in> ee_process env" "q \<in> ee_completions env" using assms(3,4) by auto
  have r: "ee_runtime env = Inr ()"
    using assms(1,2) pstep.no_runtime[of s env] by (cases "ee_runtime env") auto
  have pend: "pl_pending s = None"
  proof (cases "pl_pending s")
    case (Some rs)
    then have "pl_exported s = None" using assms(1,2) pstep.forward_closed[of s rs _ env] by (cases "pl_exported s") auto
    with stuck_exporter[OF assms(1)] have "pl_records s = []" by simp
    then show ?thesis
      using Some assms(1,2) \<open>pl_exported s = None\<close> pstep.forward[of s rs env] by (auto simp: CHANNEL_CAPACITY_def)
  qed simp
  have rows: "pl_rows s = []"
  proof (cases "pl_rows s")
    case (Cons b bs)
    then show ?thesis
      using assms(1,2) r pend pq pstep.embed_skip[of s env b bs p q] pstep.embed_fail[of s env b bs p q]
        pstep.embed[of s env b bs p q]
      by (cases "embed_batch (ee_show env) (ee_job_type env) p q b";
          cases "projr (embed_batch (ee_show env) (ee_job_type env) p q b)") auto
  qed simp
  show ?thesis
    using assms(1,2) r pend rows pstep.embed_end[of s env] by (cases "pl_producer s") auto
qed

text \<open>
  C33. The workers never wait for each other: a pipeline in which no worker can make a step has been
  joined, although both channels hold a single batch and a worker may end while the others run.
\<close>

theorem embeddings_never_block:
  assumes "ee_process env \<noteq> {}" "ee_completions env \<noteq> {}" "\<And>s'. \<not> pstep env s s'"
  shows "join_result s \<noteq> None"
proof -
  have prod: "pl_producer s \<noteq> None"
  proof
    assume p: "pl_producer s = None"
    show False
    proof (cases "pl_fetched s")
      case None
      with p assms(3) show False
        using pstep.fetch[of s env] pstep.fetch_end[of s env] by (cases "query_portal (ee_batch env) (pl_portal s)") blast
    next
      case (Some b)
      with p assms(3) have e: "pl_embedder s = None" using pstep.push_closed[of s b _ env] by (cases "pl_embedder s") auto
      with stuck_embedder[OF assms(3) _ assms(1,2)] have "pl_rows s = []" by simp
      with p Some e assms(3) show False using pstep.push[of s b env] by (auto simp: CHANNEL_CAPACITY_def)
    qed
  qed
  then have "pl_embedder s \<noteq> None" using stuck_embedder[OF assms(3) _ assms(1,2)] by metis
  then have "pl_exported s \<noteq> None" using stuck_exporter[OF assms(3)] by metis
  with prod \<open>pl_embedder s \<noteq> None\<close> show ?thesis by (auto simp: join_result_def)
qed

section \<open>Progress of the pipeline\<close>

definition figures :: "'f pipeline \<Rightarrow> bool" where
  "figures s \<longleftrightarrow>
    (case pl_exported s of
       None \<Rightarrow> figures_ok (pl_exporter s) \<and> (ex_progress (pl_exporter s) \<noteq> 0 \<longrightarrow> ex_progress (pl_exporter s) \<in> set (ex_reported (pl_exporter s)))
     | Some _ \<Rightarrow> sorted_wrt (<) (ex_reported (pl_exporter s)) \<and> ex_reported (pl_exporter s) \<noteq> [] \<and> last (ex_reported (pl_exporter s)) = 100)"

lemma accounted_bound:
  assumes "accounted mk rows s" "pl_records s = rs # rss"
  shows "ex_processed (pl_exporter s) + length rs \<le> length (selected rows)"
proof -
  obtain d where d: "ex_processed (pl_exporter s) = length d"
    "mset d + mset (records_in_flight s) + mset (map mk (selected (rows_in_flight s))) = mset (map mk (selected rows))"
    using assms(1) by (auto simp: accounted_def)
  have "length d + length (records_in_flight s) + length (selected (rows_in_flight s)) = length (selected rows)"
    using arg_cong[OF d(2), of size] by simp
  then show ?thesis using d(1) assms(2) by (simp add: records_in_flight_def)
qed

lemma pstep_figures:
  assumes "pstep env s s'" "accounted mk rows s" "figures s" "\<not> worker_failed s'"
    and "rounding (ee_round env)" "xc_callback (ee_config env)"
    and "xc_item_count (ee_config env) \<le> 0 \<or> int (length (selected rows)) \<le> xc_item_count (ee_config env)"
  shows "figures s'"
  using assms
proof (induction rule: pstep.induct)
  case (start s x)
  then show ?case using exporter_start_ok[OF start(3)] by (simp add: figures_def figures_ok_def)
next
  case (export s rs rss elapsed x)
  have "figures_ok x"
    using export accounted_bound[OF export(5,3)] by (intro export_batch_figures[OF export(4)]) (auto simp: figures_def)
  then show ?case using export export_batch_ok(3,4)[OF export(4)] by (auto simp: figures_def max_def split: if_splits)
next
  case (export_end s r res x)
  then obtain n where res: "res = Inr n" by (cases res) (auto simp: worker_failed_def)
  have "ex_processed (pl_exporter s) = 0 \<longrightarrow> ex_buf (pl_exporter s) = []"
    using export_end(6) by (auto simp: accounted_def written_def)
  moreover have "figures_ok (pl_exporter s)" "ex_progress (pl_exporter s) = 100 \<longrightarrow> 100 \<in> set (ex_reported (pl_exporter s))"
    using export_end by (auto simp: figures_def)
  ultimately show ?case
    using export_finish_figures[OF export_end(5)[unfolded res]] export_end by (simp add: figures_def)
qed (auto simp: figures_def worker_failed_def split: option.splits)

lemma embeds_figures:
  assumes "embeds env s0 s" "pointwise env mk" "pinv env mk rows s0" "figures s0"
    and "rounding (ee_round env)" "xc_callback (ee_config env)"
    and "xc_item_count (ee_config env) \<le> 0 \<or> int (length (selected rows)) \<le> xc_item_count (ee_config env)"
  shows "worker_failed s \<or> figures s"
  using assms(1) unfolding embeds_def
proof (induction rule: rtranclp_induct)
  case (step s t)
  have "pinv env mk rows s"
    using embeds_pinv[of env s0 s] step(1) assms(2,3) by (simp add: embeds_def)
  with step assms show ?case
    using worker_failed_stable[of env s t] pfault_failed[of env s t] pstep_figures[of env s t mk rows]
    by (auto simp: pinv_def)
qed (use assms in simp)

text \<open>
  C35. The progress callback of an embedding job sees strictly increasing figures that end with 100,
  exactly once, provided the estimate of the row count (zero when progress is not tracked) is not
  below the number of rows with text. Of floating point arithmetic only monotone rounding that is
  exact on small integers is used.
\<close>

theorem embeddings_progress:
  assumes "pointwise env mk" "copied calls = []"
    and "embeds env (pl_init rows calls) s" "join_result s = Some (Inr (n, tokens))"
    and "rounding (ee_round env)" "xc_callback (ee_config env)"
    and "xc_item_count (ee_config env) \<le> 0 \<or> int (length (selected rows)) \<le> xc_item_count (ee_config env)"
  shows "sorted_wrt (<) (ex_reported (pl_exporter s)) \<and> ex_reported (pl_exporter s) \<noteq> []
    \<and> last (ex_reported (pl_exporter s)) = 100"
proof -
  have "figures (pl_init rows calls)" by (simp add: figures_def figures_ok_def pl_init_def)
  then have "worker_failed s \<or> figures s"
    using embeds_figures[OF assms(3,1) pl_init_pinv[OF assms(2)] _ assms(5,6,7)] by blast
  with assms(4) show ?thesis
    by (auto simp: join_result_def worker_failed_def figures_def and_then_r_eq_Inr split: option.splits)
qed

section \<open>A run\<close>

text \<open>One row and one blank row, a batch size of two, a database that accepts everything.\<close>

definition demo_env :: "nat embed_env" where
  "demo_env =
    \<lparr>ee_server = (\<lambda>tr c. Done 0), ee_round = (\<lambda>q. of_int \<lfloor>q * 2 ^ 40\<rfloor> / 2 ^ 40), ee_show = nat_digits,
     ee_runtime = Inr (), ee_process = {\<lambda>inputs. Inr \<lparr>embeddings = map (\<lambda>t. [length t]) inputs, processed_tokens = 3\<rparr>},
     ee_completions = {\<lambda>inputs. Inl (Bail [])}, ee_job_type = EmbeddingGeneration, ee_batch = 2,
     ee_config = \<lparr>xc_stream = True, xc_item_count = 1, xc_update_sql = ''UPDATE'', xc_temp_table = ''t'', xc_callback = True\<rparr>,
     ee_create_sql = ''CREATE''\<rparr>"

definition demo_rows :: "nat sql_row list" where
  "demo_rows = [[SText ''7'', SText ''ab''], [SText ''8'', SText '' '']]"

definition demo_calls :: "nat db_call list" where
  "demo_calls =
    [Begin, Execute ''CREATE'' [], Commit, Begin, CopyIn (''COPY t FROM stdin WITH NULL AS '' @ quote_literal ''NULL''),
     CopyData (record_line (from_vec nat_digits ''7'' [2])), CopyFinish, BatchExecute ''UPDATE'', Commit]"

definition demo_end :: "nat pipeline" where
  "demo_end =
    \<lparr>pl_portal = [], pl_fetched = None, pl_producer = Some (Inr ()), pl_rows = [], pl_pending = None, pl_tokens = 3,
     pl_embedder = Some (Inr 3), pl_records = [], pl_started = True,
     pl_exporter = \<lparr>trace = demo_calls, ex_buf = [], ex_collected = 1, ex_processed = 1, ex_progress = 100, ex_reported = [100]\<rparr>,
     pl_exported = Some (Inr 1)\<rparr>"

lemma demo_blank: "is_blank '' ''" "\<not> is_blank ''ab''"
  by (simp_all add: is_blank_def trim_start.simps whitespace_def)

lemma demo_embed:
  "embed_batch (ee_show demo_env) (ee_job_type demo_env)
     (\<lambda>inputs. Inr \<lparr>embeddings = map (\<lambda>t. [length t]) inputs, processed_tokens = 3\<rparr>) (\<lambda>inputs. Inl (Bail [])) demo_rows =
   Inr (Some (3, [from_vec nat_digits ''7'' [2]]))"
  by (simp add: embed_batch_def demo_env_def demo_rows_def demo_blank get_text_def column_def numeral_2_eq_2)

definition demo_state :: "nat sql_row list \<Rightarrow> nat sql_row list option \<Rightarrow> unit result option \<Rightarrow> nat sql_row list list \<Rightarrow>
    EmbeddingRecord list option \<Rightarrow> nat \<Rightarrow> nat result option \<Rightarrow> EmbeddingRecord list list \<Rightarrow> bool \<Rightarrow> nat exporter \<Rightarrow> nat result option \<Rightarrow> nat pipeline" where
  "demo_state portal fetched producer rows pending tokens embedder records started x exported =
    \<lparr>pl_portal = portal, pl_fetched = fetched, pl_producer = producer, pl_rows = rows, pl_pending = pending, pl_tokens = tokens,
     pl_embedder = embedder, pl_records = records, pl_started = started, pl_exporter = x, pl_exported = exported\<rparr>"

definition demo_exporter :: "nat \<Rightarrow> nat exporter" where
  "demo_exporter k =
    \<lparr>trace = take k demo_calls, ex_buf = [], ex_collected = 0, ex_processed = 0, ex_progress = 0, ex_reported = []\<rparr>"

definition demo_recs :: "EmbeddingRecord list" where
  "demo_recs = [from_vec nat_digits ''7'' [2]]"

definition demo_filled :: "nat exporter" where
  "demo_filled =
    \<lparr>trace = take 5 demo_calls, ex_buf = concat (map record_line demo_recs), ex_collected = 1, ex_processed = 1,
     ex_progress = 100, ex_reported = [100]\<rparr>"

lemma demo_start:
  "exporter_start (ee_server demo_env) (ee_config demo_env) (ee_create_sql demo_env) (demo_exporter 0) = (Inr (), demo_exporter 5)"
  by (simp add: demo_env_def demo_calls_def demo_exporter_def exporter_start_def do_call_def call_def prog_simps)

lemma demo_export:
  "export_batch (ee_server demo_env) (ee_round demo_env) (ee_config demo_env) 0 demo_recs (demo_exporter 5) = (Inr (), demo_filled)"
proof -
  have "length (concat (map record_line demo_recs)) \<le> CHUNK_SIZE"
    by (simp add: demo_recs_def record_line_def from_vec_def CHUNK_SIZE_def nat_digits.simps)
  moreover have "calculate_progress (ee_round demo_env) 1 1 = 100"
    by (simp add: calculate_progress_def demo_env_def)
  ultimately show ?thesis
    by (simp add: demo_env_def demo_filled_def demo_recs_def demo_exporter_def export_batch_def collect_rows_def send_if_def
        export_progress_def flush_due_def prog_simps seq_def and_then_def)
qed

lemma demo_finish:
  "export_finish (ee_server demo_env) (ee_config demo_env) demo_filled = (Inr 1, pl_exporter demo_end)"
  by (simp add: demo_env_def demo_filled_def demo_end_def demo_recs_def export_finish_def write_out_def send_if_def send_buf_def
      do_call_def call_def demo_calls_def record_line_def prog_simps seq_def and_then_def)

lemma demo_portal: "query_portal (ee_batch demo_env) demo_rows = (demo_rows, [])" "query_portal (ee_batch demo_env) ([] :: 'a list) = ([], [])"
  by (simp_all add: query_portal_def demo_env_def demo_rows_def)

lemma demo_rows_nonempty: "demo_rows \<noteq> []"
  by (simp add: demo_rows_def)

lemma demo_env_sets:
  "ee_process demo_env = {\<lambda>inputs. Inr \<lparr>embeddings = map (\<lambda>t. [length t]) inputs, processed_tokens = 3\<rparr>}"
  "ee_completions demo_env = {\<lambda>inputs. Inl (Bail [])}" "ee_runtime demo_env = Inr ()"
  by (simp_all add: demo_env_def)

lemma demo_run: "embeds demo_env (pl_init demo_rows []) demo_end"
proof -
  have "pstep demo_env (demo_state demo_rows None None [] None 0 None [] False (demo_exporter 0) None)
    (demo_state demo_rows None None [] None 0 None [] True (demo_exporter 5) None)"
    using pstep.start[of "demo_state demo_rows None None [] None 0 None [] False (demo_exporter 0) None" demo_env "demo_exporter 5"] by (simp add: demo_state_def demo_start)
  note st0 = this
  have "pstep demo_env (demo_state demo_rows None None [] None 0 None [] True (demo_exporter 5) None)
    (demo_state [] (Some demo_rows) None [] None 0 None [] True (demo_exporter 5) None)"
    using pstep.fetch[of "demo_state demo_rows None None [] None 0 None [] True (demo_exporter 5) None" demo_env demo_rows "[]"] by (simp add: demo_state_def demo_portal demo_rows_nonempty)
  note st1 = this
  have "pstep demo_env (demo_state [] (Some demo_rows) None [] None 0 None [] True (demo_exporter 5) None)
    (demo_state [] None None [demo_rows] None 0 None [] True (demo_exporter 5) None)"
    using pstep.push[of "demo_state [] (Some demo_rows) None [] None 0 None [] True (demo_exporter 5) None" demo_rows demo_env] by (simp add: demo_state_def CHANNEL_CAPACITY_def)
  note st2 = this
  have "pstep demo_env (demo_state [] None None [demo_rows] None 0 None [] True (demo_exporter 5) None)
    (demo_state [] None (Some (Inr ())) [demo_rows] None 0 None [] True (demo_exporter 5) None)"
    using pstep.fetch_end[of "demo_state [] None None [demo_rows] None 0 None [] True (demo_exporter 5) None" demo_env "[]"] by (simp add: demo_state_def demo_portal)
  note st3 = this
  have "pstep demo_env (demo_state [] None (Some (Inr ())) [demo_rows] None 0 None [] True (demo_exporter 5) None)
    (demo_state [] None (Some (Inr ())) [] (Some demo_recs) 3 None [] True (demo_exporter 5) None)"
    using pstep.embed[of "demo_state [] None (Some (Inr ())) [demo_rows] None 0 None [] True (demo_exporter 5) None" demo_env demo_rows "[]" "(\<lambda>inputs. Inr \<lparr>embeddings = map (\<lambda>t. [length t]) inputs, processed_tokens = 3\<rparr>)" "(\<lambda>inputs. Inl (Bail []))" 3 demo_recs] by (simp add: demo_state_def demo_embed demo_env_sets demo_recs_def)
  note st4 = this
  have "pstep demo_env (demo_state [] None (Some (Inr ())) [] (Some demo_recs) 3 None [] True (demo_exporter 5) None)
    (demo_state [] None (Some (Inr ())) [] None 3 None [demo_recs] True (demo_exporter 5) None)"
    using pstep.forward[of "demo_state [] None (Some (Inr ())) [] (Some demo_recs) 3 None [] True (demo_exporter 5) None" demo_recs] by (simp add: demo_state_def CHANNEL_CAPACITY_def)
  note st5 = this
  have "pstep demo_env (demo_state [] None (Some (Inr ())) [] None 3 None [demo_recs] True (demo_exporter 5) None)
    (demo_state [] None (Some (Inr ())) [] None 3 None [] True demo_filled None)"
    using pstep.export[of "demo_state [] None (Some (Inr ())) [] None 3 None [demo_recs] True (demo_exporter 5) None" demo_recs "[]" demo_env 0 demo_filled] by (simp add: demo_state_def demo_export)
  note st6 = this
  have "pstep demo_env (demo_state [] None (Some (Inr ())) [] None 3 None [] True demo_filled None)
    (demo_state [] None (Some (Inr ())) [] None 3 (Some (Inr 3)) [] True demo_filled None)"
    using pstep.embed_end[of "demo_state [] None (Some (Inr ())) [] None 3 None [] True demo_filled None" demo_env] by (simp add: demo_state_def demo_env_sets)
  note st7 = this
  have "pstep demo_env (demo_state [] None (Some (Inr ())) [] None 3 (Some (Inr 3)) [] True demo_filled None)
    (demo_end)"
    using pstep.export_end[of "demo_state [] None (Some (Inr ())) [] None 3 (Some (Inr 3)) [] True demo_filled None" "Inr 3" demo_env "Inr 1" "pl_exporter demo_end"] by (simp add: demo_state_def demo_finish demo_end_def)
  note st8 = this
  have init: "pl_init demo_rows [] = demo_state demo_rows None None [] None 0 None [] False (demo_exporter 0) None"
    by (simp add: demo_state_def pl_init_def demo_exporter_def)
  show ?thesis unfolding init
    by (rule embeds_step[OF st0 embeds_step[OF st1 embeds_step[OF st2 embeds_step[OF st3 embeds_step[OF st4 embeds_step[OF st5 embeds_step[OF st6 embeds_step[OF st7 embeds_step[OF st8 embeds_refl]]]]]]]]])
qed

lemma demo_pointwise: "pointwise demo_env (\<lambda>(i, t). from_vec nat_digits i [length t])"
  by (auto simp: pointwise_def demo_env_def)

lemma demo_selected: "selected demo_rows = [(''7'', ''ab'')]"
  by (simp add: demo_rows_def selected_row.simps demo_blank get_text_def column_def)

theorem embeddings_complete_witness:
  "\<exists>recs. copied (trace (pl_exporter demo_end)) = concat (map record_line recs) \<and> mset recs = {#from_vec nat_digits ''7'' [2]#}"
  using embeddings_complete[OF demo_pointwise _ demo_run, of 1 3]
  by (auto simp: demo_selected demo_end_def join_result_def numeral_2_eq_2)

theorem embeddings_progress_witness: "last (ex_reported (pl_exporter demo_end)) = 100"
proof -
  have "ee_round demo_env (of_nat n) = of_nat n" for n
  proof -
    have "(of_nat n :: rat) * 2 ^ 40 = of_int (int n * 2 ^ 40)" by simp
    then have "\<lfloor>(of_nat n :: rat) * 2 ^ 40\<rfloor> = int n * 2 ^ 40" by (simp only: floor_of_int)
    then show ?thesis by (simp add: demo_env_def)
  qed
  moreover have "mono (ee_round demo_env)"
    by (rule monoI) (auto simp: demo_env_def intro!: divide_right_mono floor_mono)
  ultimately have "rounding (ee_round demo_env)" by (simp add: rounding_def)
  then show ?thesis
    using embeddings_progress[OF demo_pointwise _ demo_run, of 1 3]
    by (simp add: demo_selected demo_end_def join_result_def demo_env_def)
qed

theorem embeddings_terminate_witness:
  "\<exists>k s. ((\<lambda>s s'. pstep demo_env s s' \<or> pfault demo_env s s') ^^ k) (pl_init demo_rows []) s \<and> k \<le> 20"
proof -
  obtain k where k: "((\<lambda>s s'. pstep demo_env s s' \<or> pfault demo_env s s') ^^ k) (pl_init demo_rows []) demo_end"
    using demo_run unfolding embeds_def by (meson rtranclp_imp_relpowp)
  with embeddings_terminate[OF k] show ?thesis by (auto simp: demo_rows_def)
qed

theorem embeddings_never_block_witness: "join_result demo_end \<noteq> None"
  by (rule embeddings_never_block[of demo_env])
    (auto simp: demo_env_sets demo_end_def elim!: pstep.cases)

end
