(* ===== verification/Float64.thy ===== *)
theory Float64
  imports Complex_Main "HOL-Library.Product_Lexorder"
begin

text \<open>
  \<^verbatim>\<open>f64\<close> as the code computes with it: rational numbers that every operation rounds, the infinities
  and NaN. The rounding is the argument \<open>rnd\<close>; what is used of it is that it is monotone and exact on
  the integers a double can hold. Signed zeros are not told apart.
\<close>

datatype f64 = NaN | Infinite bool | Num rat

fun f_add :: "(rat \<Rightarrow> rat) \<Rightarrow> f64 \<Rightarrow> f64 \<Rightarrow> f64" where
  "f_add rnd (Num a) (Num b) = Num (rnd (a + b))"
| "f_add rnd (Infinite s) (Num b) = Infinite s"
| "f_add rnd (Num a) (Infinite s) = Infinite s"
| "f_add rnd (Infinite s) (Infinite t) = (if s = t then Infinite s else NaN)"
| "f_add rnd _ _ = NaN"

fun f_mul :: "(rat \<Rightarrow> rat) \<Rightarrow> f64 \<Rightarrow> f64 \<Rightarrow> f64" where
  "f_mul rnd (Num a) (Num b) = Num (rnd (a * b))"
| "f_mul rnd (Infinite s) (Num b) = (if b = 0 then NaN else Infinite (s = (0 < b)))"
| "f_mul rnd (Num a) (Infinite s) = (if a = 0 then NaN else Infinite (s = (0 < a)))"
| "f_mul rnd (Infinite s) (Infinite t) = Infinite (s = t)"
| "f_mul rnd _ _ = NaN"

fun f_div :: "(rat \<Rightarrow> rat) \<Rightarrow> f64 \<Rightarrow> f64 \<Rightarrow> f64" where
  "f_div rnd (Num a) (Num b) = (if b \<noteq> 0 then Num (rnd (a / b)) else if a = 0 then NaN else Infinite (0 < a))"
| "f_div rnd (Infinite s) (Num b) = Infinite (s = (0 \<le> b))"
| "f_div rnd (Num a) (Infinite s) = Num 0"
| "f_div rnd _ _ = NaN"

definition trunc_rat :: "rat \<Rightarrow> int" where
  "trunc_rat r = (if 0 \<le> r then \<lfloor>r\<rfloor> else \<lceil>r\<rceil>)"

fun f_trunc :: "f64 \<Rightarrow> f64" where
  "f_trunc (Num a) = Num (of_int (trunc_rat a))"
| "f_trunc x = x"

text \<open>The comparison \<^verbatim>\<open><=\<close>, false for NaN, and the order of the other values as that of a pair.\<close>

fun f_key :: "f64 \<Rightarrow> int \<times> rat" where
  "f_key (Num a) = (0, a)"
| "f_key (Infinite s) = (if s then 1 else - 1, 0)"
| "f_key NaN = (2, 0)"

definition f_le :: "f64 \<Rightarrow> f64 \<Rightarrow> bool" where
  "f_le x y \<longleftrightarrow> x \<noteq> NaN \<and> y \<noteq> NaN \<and> f_key x \<le> f_key y"

definition neg_key :: "int \<times> rat \<Rightarrow> int \<times> rat" where
  "neg_key k = (- fst k, - snd k)"

definition exact_on_integers :: "(rat \<Rightarrow> rat) \<Rightarrow> bool" where
  "exact_on_integers rnd \<longleftrightarrow> mono rnd \<and> (\<forall>n \<le> 2 ^ 53. rnd (of_nat n) = of_nat n)"

section \<open>Lemmas\<close>

lemma f_key_inj: "f_key x = f_key y \<Longrightarrow> x = y"
  by (cases x; cases y) (auto split: if_splits)

lemma neg_key_le [simp]: "neg_key a \<le> neg_key b \<longleftrightarrow> b \<le> a"
  by (cases a; cases b) (auto simp: neg_key_def less_eq_prod_def)

lemma f_le_Num [simp]: "f_le (Num a) (Num b) \<longleftrightarrow> a \<le> b"
  by (simp add: f_le_def less_eq_prod_def)

lemma f_le_NaN [simp]: "\<not> f_le NaN x" "\<not> f_le x NaN"
  by (simp_all add: f_le_def)

lemma exact_nat: "exact_on_integers rnd \<Longrightarrow> n \<le> 2 ^ 53 \<Longrightarrow> rnd (of_nat n) = of_nat n"
  by (simp add: exact_on_integers_def)

lemma exact_nonneg: "exact_on_integers rnd \<Longrightarrow> 0 \<le> x \<Longrightarrow> 0 \<le> rnd x"
  using exact_nat[of rnd 0] unfolding exact_on_integers_def by (metis monoD of_nat_0 zero_le)

lemma exact_le: "exact_on_integers rnd \<Longrightarrow> x \<le> of_nat n \<Longrightarrow> n \<le> 2 ^ 53 \<Longrightarrow> rnd x \<le> of_nat n"
  using exact_nat[of rnd n] unfolding exact_on_integers_def by (metis monoD)

lemma exact_le_numeral:
  "exact_on_integers rnd \<Longrightarrow> x \<le> numeral n \<Longrightarrow> numeral n \<le> (2 ^ 53 :: nat) \<Longrightarrow> rnd x \<le> numeral n"
  using exact_le[of rnd x "numeral n"] by simp

end
