(* ===== verification/Autotune.thy ===== *)
theory Autotune
  imports Metric Postgres Float64
begin

text \<open>
  \<^verbatim>\<open>lantern_cli/src/index_autotune\<close>: the job that builds an index with each of six parameter sets on a
  sample of the table, measures recall and latency, stores the results and creates the index with
  the best of them. The job talks to two databases, its own and the one that results are exported
  to; each has its server and its trace. The clock is the argument \<open>millis\<close>, the duration of the next
  call as a function of the calls made so far; the cancellation flag, which another thread sets, is a
  function of the iteration; the two random numbers are arguments.
\<close>

section \<open>Data\<close>

definition INTERNAL_SCHEMA_NAME :: string where
  "INTERNAL_SCHEMA_NAME = ''_lantern_extras_internal''"

definition AUTOTUNE_CONNECTION_PARAMS :: string where
  "AUTOTUNE_CONNECTION_PARAMS = ''connect_timeout=10''"

record IndexParams =
  ip_ef :: nat
  ip_ef_construction :: nat
  ip_m :: nat

record AutotuneResult =
  ar_job_id :: int
  ar_ef :: int
  ar_ef_construction :: int
  ar_m :: int
  ar_recall :: f64
  ar_latency :: f64
  ar_indexing_duration :: f64

record IndexAutotuneArgs =
  ia_uri :: string
  ia_schema :: string
  ia_table :: string
  ia_column :: string
  ia_recall :: f64
  ia_k :: nat
  ia_test_data_size :: nat
  ia_metric_kind :: UMetricKind
  ia_create_index :: bool
  ia_job_id :: "int option"
  ia_export_db_uri :: "string option"
  ia_export_schema_name :: string
  ia_export_table_name :: "string option"
  ia_job_schema_name :: string
  ia_job_table_name :: "string option"
  ia_model_name :: "string option"

type_synonym GroundTruth = "(f64 list \<times> string list) list"

record autotune = "f64 world" +
  export_trace :: "f64 db_call list"
  au_reported :: "byte list"

text \<open>A call of the second client: its server sees the calls of that client only.\<close>

definition on_export :: "(f64 world, 'a) prog \<Rightarrow> (autotune, 'a) prog" where
  "on_export p s =
    (case p \<lparr>trace = export_trace s\<rparr> of (r, w) \<Rightarrow> (r, s\<lparr>export_trace := trace w\<rparr>))"

section \<open>Sampling and ground truth\<close>

definition create_test_table ::
  "f64 server \<Rightarrow> string \<Rightarrow> string \<Rightarrow> string \<Rightarrow> nat \<Rightarrow> ((f64, 'x) world_scheme, int) prog" where
  "create_test_table srv tmp_table_name src_table_name column_name test_data_size =
    seq (do_call srv (BatchExecute
      (''CREATE SCHEMA IF NOT EXISTS '' @ INTERNAL_SCHEMA_NAME @ ''; DROP TABLE IF EXISTS '' @ tmp_table_name @
       ''; SELECT ctid::TEXT as id, '' @ quote_ident column_name @ '' as v INTO '' @ tmp_table_name @ '' FROM '' @
       src_table_name @ '' WHERE '' @ quote_ident column_name @ '' IS NOT NULL LIMIT '' @ nat_digits test_data_size @ '';'')))
    (and_then (query_one srv
      (''SELECT ARRAY_LENGTH(v, 1) FROM '' @ tmp_table_name @ '' WHERE v IS NOT NULL LIMIT 1'') []) (\<lambda>dims.
    and_then (lift_r (get_int 0 dims)) (\<lambda>dims.
    if dims = 0 then throw (Bail ''Column does not have dimensions'')
    else and_then (query_one srv (''SELECT COUNT(*) FROM '' @ tmp_table_name) []) (\<lambda>sample_size.
         and_then (lift_r (get_int 0 sample_size)) (\<lambda>sample_size. return (as_i32 sample_size))))))"

definition ground_truth_row :: "f64 sql_row \<Rightarrow> (f64 list \<times> string list) result" where
  "ground_truth_row row =
    and_then_r (get_floats 0 row) (\<lambda>v. and_then_r (get_texts 1 row) (\<lambda>neighbors. Inr (v, neighbors)))"

definition calculate_ground_truth ::
  "f64 server \<Rightarrow> string \<Rightarrow> string \<Rightarrow> string \<Rightarrow> nat \<Rightarrow> ((f64, 'x) world_scheme, GroundTruth) prog" where
  "calculate_ground_truth srv tmp_table_name truth_table_name distance_function k =
    seq (do_call srv (BatchExecute
      (''DROP TABLE IF EXISTS '' @ truth_table_name @
       ''; SELECT tmp.id, tmp.v::real[] as v, ARRAY(SELECT id::text FROM '' @ tmp_table_name @ '' tmp2 ORDER BY '' @
       distance_function @ ''(tmp.v, tmp2.v) LIMIT '' @ nat_digits k @ '') as neighbors INTO '' @ truth_table_name @
       '' FROM '' @ tmp_table_name @ '' tmp WHERE id IN (SELECT id FROM '' @ tmp_table_name @ '' ORDER BY RANDOM() LIMIT 10)'')))
    (and_then (query srv (''SELECT v, neighbors FROM '' @ truth_table_name) []) (\<lambda>ground_truth.
      lift_r (traverse_r ground_truth_row ground_truth)))"

section \<open>Results\<close>

text \<open>The placeholders of the insert statement, seven for each result, from a given number on.\<close>

definition value_tuple :: "nat \<Rightarrow> string" where
  "value_tuple param_idx =
    '' ('' @ join '','' (map (\<lambda>i. CHR ''$'' # nat_digits (param_idx + i)) [0..<7]) @ '')''"

fun value_tuples :: "nat \<Rightarrow> AutotuneResult list \<Rightarrow> string" where
  "value_tuples param_idx [] = []"
| "value_tuples param_idx (row # rows) =
    (if param_idx = 1 then [] else '','') @ value_tuple param_idx @ value_tuples (param_idx + 7) rows"

definition result_params :: "AutotuneResult \<Rightarrow> f64 sql_value list" where
  "result_params row =
    [SInt (ar_job_id row), SInt (ar_ef row), SInt (ar_ef_construction row), SInt (ar_m row),
     SDouble (ar_recall row), SDouble (ar_latency row), SDouble (ar_indexing_duration row)]"

definition export_results :: "f64 server \<Rightarrow> string \<Rightarrow> AutotuneResult list \<Rightarrow> ((f64, 'x) world_scheme, unit) prog" where
  "export_results srv result_table_full_name autotune_results =
    do_call srv (Execute
      (''INSERT INTO '' @ result_table_full_name @ '' (experiment_id, ef, efc, m, recall, latency, build_time) VALUES '' @
       value_tuples 1 autotune_results)
      (concat (map result_params autotune_results)))"

definition table_exists_sql :: string where
  "table_exists_sql =
    ''SELECT EXISTS (SELECT 1 FROM information_schema.tables WHERE table_name=$1 AND table_schema=$2) AS table_existence''"

definition result_of_row :: "f64 sql_row \<Rightarrow> AutotuneResult result" where
  "result_of_row row =
    and_then_r (get_int 0 row) (\<lambda>job_id. and_then_r (get_int 1 row) (\<lambda>ef.
    and_then_r (get_int 2 row) (\<lambda>efc. and_then_r (get_int 3 row) (\<lambda>m.
    and_then_r (get_double 4 row) (\<lambda>recall. and_then_r (get_double 5 row) (\<lambda>latency.
    and_then_r (get_double 6 row) (\<lambda>build_time.
      Inr \<lparr>ar_job_id = job_id, ar_ef = ef, ar_ef_construction = efc, ar_m = m, ar_recall = recall,
           ar_latency = latency, ar_indexing_duration = build_time\<rparr>)))))))"

definition existing_results_sql :: "string \<Rightarrow> string \<Rightarrow> string" where
  "existing_results_sql result_table_full_name jobs_table_full_name =
    ''SELECT experiment_id, ef, efc, m, recall, latency, build_time FROM '' @ result_table_full_name @
    '' WHERE experiment_id=(SELECT experiment_id FROM '' @ result_table_full_name @ '' INNER JOIN '' @ jobs_table_full_name @
    '' job ON job.id=experiment_id AND job.embedding_model=$1 AND job.k>=$2 AND job.n>=$3'' @
    '' GROUP BY experiment_id, job.embedding_model LIMIT 1)'' @
    '' GROUP BY experiment_id, ef, efc, m, recall, latency, build_time''"

definition get_existing_results_for_model ::
  "f64 server \<Rightarrow> string \<Rightarrow> int \<Rightarrow> int \<Rightarrow> string \<Rightarrow> string \<Rightarrow> string \<Rightarrow> string \<Rightarrow> string \<Rightarrow> string \<Rightarrow>
   ((f64, 'x) world_scheme, AutotuneResult list option) prog" where
  "get_existing_results_for_model srv model_name k sample_size result_table_name result_table_schema
      result_table_full_name jobs_table_name jobs_table_schema jobs_table_full_name =
    and_then (query_one srv table_exists_sql [SText result_table_name, SText result_table_schema]) (\<lambda>results_table_exists.
    and_then (query_one srv table_exists_sql [SText jobs_table_name, SText jobs_table_schema]) (\<lambda>jobs_table_exists.
    and_then (lift_r (get_bool 0 results_table_exists)) (\<lambda>re.
    and_then (if re then lift_r (get_bool 0 jobs_table_exists) else return False) (\<lambda>both.
    if \<not> both then return None
    else and_then (query srv (existing_results_sql result_table_full_name jobs_table_full_name)
             [SText model_name, SInt k, SInt sample_size]) (\<lambda>rows.
         if rows = [] then return None
         else and_then (lift_r (traverse_r result_of_row rows)) (\<lambda>res. return (Some res)))))))"

text \<open>
  \<^verbatim>\<open>sort_by\<close> with \<^verbatim>\<open>partial_cmp(..).unwrap()\<close>: stable, and a panic as soon as a NaN is compared, which
  happens whenever the list has another element.
\<close>

definition sort_by_f64 :: "(int \<times> rat \<Rightarrow> int \<times> rat) \<Rightarrow> ('a \<Rightarrow> f64) \<Rightarrow> 'a list \<Rightarrow> 'a list result" where
  "sort_by_f64 dir f xs =
    (if 2 \<le> length xs \<and> NaN \<in> f ` set xs
     then Inl (Panicked ''called `Option::unwrap()` on a `None` value'')
     else Inr (sort_key (\<lambda>x. dir (f_key (f x))) xs))"

definition first_r :: "'a list \<Rightarrow> 'a result" where
  "first_r xs = (case xs of [] \<Rightarrow> Inl (Panicked ''called `Option::unwrap()` on a `None` value'') | x # _ \<Rightarrow> Inr x)"

definition find_best_variant :: "(rat \<Rightarrow> rat) \<Rightarrow> AutotuneResult list \<Rightarrow> f64 \<Rightarrow> AutotuneResult result" where
  "find_best_variant rnd autotune_results target_recall =
    and_then_r (sort_by_f64 neg_key ar_recall autotune_results) (\<lambda>results_clone.
      let filtered_results = filter (\<lambda>el. f_le target_recall (ar_recall el)) results_clone
      in if filtered_results = [] then first_r results_clone
         else and_then_r
                (sort_by_f64 id fst
                  (map (\<lambda>r. (f_add rnd (ar_latency r) (ar_indexing_duration r), r)) filtered_results))
                (\<lambda>sorted. and_then_r (first_r sorted) (\<lambda>p. Inr (snd p))))"

section \<open>Recall and latency\<close>

definition query_recall :: "(rat \<Rightarrow> rat) \<Rightarrow> string list \<Rightarrow> string list \<Rightarrow> f64" where
  "query_recall rnd neighbors result =
    (let truth = remdups neighbors;
         intersection = filter (\<lambda>x. x \<in> set result) truth
     in f_mul rnd (f_div rnd (Num (rnd (of_nat (length intersection)))) (Num (rnd (of_nat (length truth))))) (Num 100))"

fun recall_loop ::
  "f64 server \<Rightarrow> (rat \<Rightarrow> rat) \<Rightarrow> (f64 db_call list \<Rightarrow> nat) \<Rightarrow> string \<Rightarrow> GroundTruth \<Rightarrow> f64 \<Rightarrow> f64 \<Rightarrow>
   ((f64, 'x) world_scheme, f64 \<times> f64) prog" where
  "recall_loop srv rnd millis q [] recall latency = return (recall, latency)"
| "recall_loop srv rnd millis q ((v, neighbors) # gt) recall latency =
    with_trace (\<lambda>calls. and_then (query srv q [SFloats v]) (\<lambda>rows.
      let latency = f_add rnd latency (Num (rnd (of_nat (millis calls))))
      in and_then (lift_r (traverse_r (get_text 0) rows)) (\<lambda>result.
           recall_loop srv rnd millis q gt (f_add rnd recall (query_recall rnd neighbors result)) latency)))"

definition two_decimals :: "(rat \<Rightarrow> rat) \<Rightarrow> f64 \<Rightarrow> f64" where
  "two_decimals rnd x = f_div rnd (f_trunc (f_mul rnd x (Num 100))) (Num 100)"

definition calculate_recall_and_latency ::
  "f64 server \<Rightarrow> (rat \<Rightarrow> rat) \<Rightarrow> (f64 db_call list \<Rightarrow> nat) \<Rightarrow> GroundTruth \<Rightarrow> string \<Rightarrow> nat \<Rightarrow>
   ((f64, 'x) world_scheme, f64 \<times> f64) prog" where
  "calculate_recall_and_latency srv rnd millis ground_truth test_table_name k =
    and_then (recall_loop srv rnd millis
        (''SELECT id::text FROM '' @ test_table_name @ '' ORDER BY $1<->v LIMIT '' @ nat_digits k) ground_truth (Num 0) (Num 0))
      (\<lambda>(recall, latency).
        let n = Num (rnd (of_nat (length ground_truth)))
        in return (two_decimals rnd (f_div rnd recall n), two_decimals rnd (f_div rnd latency n)))"

section \<open>The job\<close>

definition autotune_report_progress :: "bool \<Rightarrow> byte \<Rightarrow> (autotune, unit) prog" where
  "autotune_report_progress progress_cb progress s =
    (Inr (), if progress_cb then s\<lparr>au_reported := au_reported s @ [progress]\<rparr> else s)"

definition index_variants :: "IndexParams list" where
  "index_variants =
    [\<lparr>ip_ef = 64, ip_ef_construction = 32, ip_m = 6\<rparr>, \<lparr>ip_ef = 64, ip_ef_construction = 40, ip_m = 8\<rparr>,
     \<lparr>ip_ef = 64, ip_ef_construction = 48, ip_m = 12\<rparr>, \<lparr>ip_ef = 76, ip_ef_construction = 60, ip_m = 16\<rparr>,
     \<lparr>ip_ef = 96, ip_ef_construction = 96, ip_m = 32\<rparr>, \<lparr>ip_ef = 128, ip_ef_construction = 128, ip_m = 48\<rparr>]"

definition variant_index_sql :: "string \<Rightarrow> string \<Rightarrow> string \<Rightarrow> IndexParams \<Rightarrow> string" where
  "variant_index_sql index_name tmp_table_full_name op_class variant =
    ''SET lantern.external_index_host='' @ [squote] @ ''127.0.0.1'' @ [squote] @
    ''; SET lantern.external_index_port=8998; SET lantern.external_index_secure=false; CREATE INDEX '' @ index_name @
    '' ON '' @ tmp_table_full_name @ '' USING lantern_hnsw(v '' @ op_class @ '') WITH (m='' @ nat_digits (ip_m variant) @
    '', ef='' @ nat_digits (ip_ef variant) @ '', ef_construction='' @ nat_digits (ip_ef_construction variant) @ '', external=true)''"

definition best_index_sql :: "string \<Rightarrow> IndexAutotuneArgs \<Rightarrow> AutotuneResult \<Rightarrow> string" where
  "best_index_sql index_name args best_result =
    ''CREATE INDEX '' @ index_name @ '' ON '' @ get_full_table_name (ia_schema args) (ia_table args) @
    '' USING lantern_hnsw('' @ quote_ident (ia_column args) @ '' '' @ to_ops (ia_metric_kind args) @ '') WITH (m='' @
    int_digits (ar_m best_result) @ '', ef='' @ int_digits (ar_ef best_result) @ '', ef_construction='' @
    int_digits (ar_ef_construction best_result) @ '', external=true)''"

text \<open>What the job gets from its surroundings.\<close>

record autotune_env =
  ae_server :: "f64 server"
  ae_export_server :: "f64 server"
  ae_rnd :: "rat \<Rightarrow> rat"
  ae_millis :: "f64 db_call list \<Rightarrow> nat"
  ae_cancelled :: "nat \<Rightarrow> bool"
  ae_index_number :: nat
  ae_uuid :: int
  ae_callback :: bool

definition try_variant ::
  "autotune_env \<Rightarrow> IndexAutotuneArgs \<Rightarrow> string \<Rightarrow> string \<Rightarrow> int \<Rightarrow> GroundTruth \<Rightarrow> nat \<Rightarrow> IndexParams \<Rightarrow>
   (autotune, AutotuneResult) prog" where
  "try_variant env args index_name tmp_table_full_name job_id ground_truth i variant =
    seq (do_call (ae_server env)
          (Execute (''DROP INDEX IF EXISTS '' @ get_full_table_name INTERNAL_SCHEMA_NAME index_name) []))
    (if ae_cancelled env i then throw (Bail JOB_CANCELLED_MESSAGE)
     else with_trace (\<lambda>calls. seq (do_call (ae_server env) (BatchExecute
              (variant_index_sql index_name tmp_table_full_name (to_ops (ia_metric_kind args)) variant)))
            (let indexing_duration =
               two_decimals (ae_rnd env) (Num (ae_rnd env (of_nat (ae_millis env calls div 1000))))
             in and_then (calculate_recall_and_latency (ae_server env) (ae_rnd env) (ae_millis env)
                  ground_truth tmp_table_full_name (ia_k args)) (\<lambda>(recall, latency).
                return \<lparr>ar_job_id = job_id, ar_ef = as_i32 (int (ip_ef variant)),
                        ar_ef_construction = as_i32 (int (ip_ef_construction variant)), ar_m = as_i32 (int (ip_m variant)),
                        ar_recall = recall, ar_latency = latency, ar_indexing_duration = indexing_duration\<rparr>))))"

fun variant_loop ::
  "autotune_env \<Rightarrow> (nat \<Rightarrow> IndexParams \<Rightarrow> (autotune, AutotuneResult) prog) \<Rightarrow> byte \<Rightarrow> nat \<Rightarrow> IndexParams list \<Rightarrow> byte \<Rightarrow>
   AutotuneResult list \<Rightarrow> (autotune, AutotuneResult list) prog" where
  "variant_loop env attempt_variant progress_per_iter i [] progress autotune_results = return autotune_results"
| "variant_loop env attempt_variant progress_per_iter i (variant # variants) progress autotune_results =
    and_then (attempt_variant i variant) (\<lambda>r.
    seq (autotune_report_progress (ae_callback env) (progress + progress_per_iter))
      (if f_le (Num (999 / 10)) (ar_recall r) then return (autotune_results @ [r])
       else variant_loop env attempt_variant progress_per_iter (Suc i) variants (progress + progress_per_iter) (autotune_results @ [r])))"

definition existing_results ::
  "autotune_env \<Rightarrow> IndexAutotuneArgs \<Rightarrow> int \<Rightarrow> int \<Rightarrow> (autotune, AutotuneResult list) prog" where
  "existing_results env args job_id sample_size =
    (case (ia_model_name args, ia_export_table_name args, ia_job_table_name args) of
       (Some model_name, Some result_table_name, Some job_table_name) \<Rightarrow>
         and_then (on_export (get_existing_results_for_model (ae_export_server env) model_name (int (ia_k args)) sample_size
             result_table_name (ia_export_schema_name args) (get_full_table_name (ia_export_schema_name args) result_table_name)
             job_table_name (ia_job_schema_name args) (get_full_table_name (ia_job_schema_name args) job_table_name)))
           (\<lambda>existing. return (case existing of
               Some results \<Rightarrow> map (\<lambda>r. r\<lparr>ar_job_id := job_id\<rparr>) results
             | None \<Rightarrow> []))
     | _ \<Rightarrow> return [])"

text \<open>The names the job works with, and its first and its last phase.\<close>

definition tmp_table_of :: "IndexAutotuneArgs \<Rightarrow> string" where
  "tmp_table_of args = get_full_table_name INTERNAL_SCHEMA_NAME (''_test_'' @ ia_table args)"

definition truth_table_of :: "IndexAutotuneArgs \<Rightarrow> string" where
  "truth_table_of args = get_full_table_name INTERNAL_SCHEMA_NAME (''_truth_'' @ ia_table args)"

definition drop_tables_sql :: "IndexAutotuneArgs \<Rightarrow> string" where
  "drop_tables_sql args =
    ''DROP TABLE IF EXISTS '' @ tmp_table_of args @ '' CASCADE; DROP TABLE IF EXISTS '' @ truth_table_of args @ '' CASCADE;''"

definition index_name_of :: "autotune_env \<Rightarrow> string" where
  "index_name_of env = ''lantern_autotune_idx_'' @ nat_digits (ae_index_number env)"

definition finish_autotune ::
  "autotune_env \<Rightarrow> IndexAutotuneArgs \<Rightarrow> string \<Rightarrow> AutotuneResult list \<Rightarrow> (autotune, unit) prog" where
  "finish_autotune env args index_name autotune_results =
    seq (autotune_report_progress (ae_callback env) 70)
    (seq (if autotune_results = [] then throw (Panicked ''index out of bounds'') else return ())
    (seq (do_call (ae_server env) (BatchExecute (drop_tables_sql args)))
    (seq (case ia_export_table_name args of
            Some table_name \<Rightarrow> on_export (export_results (ae_export_server env)
                                 (get_full_table_name (ia_export_schema_name args) table_name) autotune_results)
          | None \<Rightarrow> return ())
    (seq (if ia_create_index args
          then seq (autotune_report_progress (ae_callback env) 80)
               (and_then (lift_r (find_best_variant (ae_rnd env) autotune_results (ia_recall args))) (\<lambda>best_result.
                 do_call (ae_server env) (BatchExecute (best_index_sql index_name args best_result))))
          else return ())
    (autotune_report_progress (ae_callback env) 100)))))"

definition autotune_index :: "autotune_env \<Rightarrow> IndexAutotuneArgs \<Rightarrow> (autotune, unit) prog" where
  "autotune_index env args =
    seq (do_call (ae_server env) (Connect (append_params_to_uri (ia_uri args) AUTOTUNE_CONNECTION_PARAMS)))
    (and_then (create_test_table (ae_server env) (tmp_table_of args) (get_full_table_name (ia_schema args) (ia_table args))
        (ia_column args) (ia_test_data_size args)) (\<lambda>sample_size.
    and_then (calculate_ground_truth (ae_server env) (tmp_table_of args) (truth_table_of args)
        (sql_function (ia_metric_kind args)) (ia_k args)) (\<lambda>ground_truth.
    let index_name = index_name_of env;
        job_id = (case ia_job_id args of Some j \<Rightarrow> j | None \<Rightarrow> ae_uuid env);
        export_uri = (case ia_export_db_uri args of Some u \<Rightarrow> u | None \<Rightarrow> ia_uri args)
    in seq (on_export (do_call (ae_export_server env) (Connect (append_params_to_uri export_uri AUTOTUNE_CONNECTION_PARAMS))))
       (and_then (existing_results env args job_id sample_size) (\<lambda>existing.
        let progress = 5; progress_per_iter = (100 - progress - 30) div word_of_nat (length index_variants)
        in seq (autotune_report_progress (ae_callback env) progress)
           (and_then (if existing = []
                      then variant_loop env (try_variant env args index_name (tmp_table_of args) job_id ground_truth)
                             progress_per_iter 0 index_variants progress []
                      else return existing)
             (finish_autotune env args index_name)))))))"

section \<open>Choosing the best variant\<close>

definition variant_cost :: "(rat \<Rightarrow> rat) \<Rightarrow> AutotuneResult \<Rightarrow> f64" where
  "variant_cost rnd r = f_add rnd (ar_latency r) (ar_indexing_duration r)"

lemma sort_by_f64_first:
  assumes "xs \<noteq> []" "NaN \<notin> f ` set xs"
  shows "\<exists>x ys. sort_by_f64 dir f xs = Inr (x # ys) \<and> set (x # ys) = set xs
    \<and> (\<forall>y \<in> set xs. dir (f_key (f x)) \<le> dir (f_key (f y)))"
proof -
  let ?ys = "sort_key (\<lambda>x. dir (f_key (f x))) xs"
  have eq: "sort_by_f64 dir f xs = Inr ?ys" using assms(2) by (auto simp: sort_by_f64_def)
  have mem: "set ?ys = set xs" by (rule set_sort)
  then have "?ys \<noteq> []" using assms(1) by (metis empty_set set_empty)
  then obtain x ys where ys: "?ys = x # ys" by (cases ?ys) auto
  have "sorted (map (\<lambda>x. dir (f_key (f x))) (x # ys))" using sorted_sort_key[of "\<lambda>x. dir (f_key (f x))" xs] by (simp only: ys)
  then have "\<forall>y \<in> set (x # ys). dir (f_key (f x)) \<le> dir (f_key (f y))" by auto
  with eq ys mem show ?thesis by metis
qed

text \<open>
  C36. The variant chosen is the cheapest of those that reach the target recall, by the sum of
  latency and build time; if none does, it is one of the highest recall.
\<close>

theorem find_best_variant_spec:
  assumes "results \<noteq> []" "\<forall>r \<in> set results. ar_recall r \<noteq> NaN \<and> variant_cost rnd r \<noteq> NaN"
  shows "\<exists>best \<in> set results. find_best_variant rnd results target = Inr best
    \<and> (if \<exists>r \<in> set results. f_le target (ar_recall r)
       then f_le target (ar_recall best)
         \<and> (\<forall>r \<in> set results. f_le target (ar_recall r) \<longrightarrow> f_le (variant_cost rnd best) (variant_cost rnd r))
       else \<forall>r \<in> set results. f_le (ar_recall r) (ar_recall best))"
proof -
  have "NaN \<notin> ar_recall ` set results" using assms(2) by (metis imageE)
  then obtain x ys where s: "sort_by_f64 neg_key ar_recall results = Inr (x # ys)" "set (x # ys) = set results"
    "\<forall>y \<in> set results. f_key (ar_recall y) \<le> f_key (ar_recall x)"
    using sort_by_f64_first[OF assms(1), of ar_recall neg_key] by auto
  let ?fs = "filter (\<lambda>el. f_le target (ar_recall el)) (x # ys)"
  have x: "x \<in> set results" using s(2) by auto
  show ?thesis
  proof (cases "?fs = []")
    case True
    then have none: "\<not> (\<exists>r \<in> set results. f_le target (ar_recall r))"
      unfolding s(2)[symmetric] by (auto simp: filter_empty_conv split: if_splits)
    have "find_best_variant rnd results target = Inr x" using s(1) True by (simp add: find_best_variant_def first_r_def)
    with none x s(3) assms(2) show ?thesis by (auto simp: f_le_def)
  next
    case False
    let ?ps = "map (\<lambda>r. (variant_cost rnd r, r)) ?fs"
    have fs: "set ?fs = {r \<in> set results. f_le target (ar_recall r)}" unfolding s(2)[symmetric] by auto
    have nonan: "NaN \<notin> fst ` set ?ps" using assms(2) fs by (fastforce simp: image_iff)
    have "?ps \<noteq> []" using False by simp
    from sort_by_f64_first[OF this nonan, of id] obtain p qs where
      p: "sort_by_f64 id fst ?ps = Inr (p # qs)" "set (p # qs) = set ?ps" "\<forall>q \<in> set ?ps. f_key (fst p) \<le> f_key (fst q)" by auto
    obtain b where b: "p = (variant_cost rnd b, b)" "b \<in> set ?fs" using p(2) by (metis (no_types, lifting) imageE list.set_intros(1) set_map)
    have "find_best_variant rnd results target = Inr b"
      using s(1) False p(1) b(1) by (simp add: find_best_variant_def first_r_def variant_cost_def)
    moreover have "b \<in> set results" "f_le target (ar_recall b)" using b(2) fs by auto
    moreover have "f_le (variant_cost rnd b) (variant_cost rnd r)" if "r \<in> set results" "f_le target (ar_recall r)" for r
    proof -
      have "r \<in> set ?fs" using that fs by simp
      then have "(variant_cost rnd r, r) \<in> set ?ps" by auto
      then have "f_key (variant_cost rnd b) \<le> f_key (variant_cost rnd r)" using p(3) b(1) by fastforce
      then show ?thesis using assms(2) that(1) \<open>b \<in> set results\<close> by (simp add: f_le_def)
    qed
    ultimately show ?thesis by auto
  qed
qed

text \<open>A recall that is not a number makes the choice panic, as soon as there are two results.\<close>

lemma find_best_variant_nan_panics:
  "2 \<le> length results \<Longrightarrow> r \<in> set results \<Longrightarrow> ar_recall r = NaN \<Longrightarrow>
   find_best_variant rnd results target = Inl (Panicked ''called `Option::unwrap()` on a `None` value'')"
  by (auto simp: find_best_variant_def sort_by_f64_def image_iff)

section \<open>Recall is a percentage\<close>

lemma query_recall_percent:
  assumes rnd: "exact_on_integers rnd" and ns: "ns \<noteq> []" "length ns \<le> 2 ^ 16"
  shows "\<exists>q. query_recall rnd ns result = Num q \<and> 0 \<le> q \<and> q \<le> 100"
proof -
  let ?t = "length (remdups ns)" and ?i = "length (filter (\<lambda>x. x \<in> set result) (remdups ns))"
  have t: "0 < ?t" using ns(1) by simp
  have t2: "?t \<le> 2 ^ 53" by (rule order_trans[OF length_remdups_leq]) (use ns(2) in simp)
  have i: "?i \<le> ?t" by (rule length_filter_le)
  have e: "rnd (of_nat ?t) = of_nat ?t" "rnd (of_nat ?i) = of_nat ?i"
    using exact_nat[OF rnd t2] exact_nat[OF rnd order_trans[OF i t2]] by simp_all
  define x where "x = (of_nat ?i / of_nat ?t :: rat)"
  have x: "0 \<le> x" "x \<le> of_nat 1" unfolding x_def using i t by (auto simp: divide_le_eq)
  have y: "0 \<le> rnd x" "rnd x \<le> 1" using exact_nonneg[OF rnd x(1)] exact_le[OF rnd x(2)] by simp_all
  have "0 \<le> rnd (rnd x * 100)" by (rule exact_nonneg[OF rnd]) (use y in simp)
  moreover have "rnd (rnd x * 100) \<le> 100" by (rule exact_le_numeral[OF rnd]) (use y in simp_all)
  moreover have "query_recall rnd ns result = Num (rnd (rnd x * 100))"
    using t e by (simp add: query_recall_def x_def Let_def)
  ultimately show ?thesis by blast
qed

lemma recall_loop_bounds:
  assumes rnd: "exact_on_integers rnd"
    and "\<forall>(v, ns) \<in> set gt. ns \<noteq> [] \<and> length ns \<le> 2 ^ 16" "i + length gt \<le> 2 ^ 32"
    and "0 \<le> r0" "r0 \<le> of_nat (100 * i)" "0 \<le> l0"
    and "recall_loop srv rnd millis q gt (Num r0) (Num l0) s = (Inr (recall, latency), s')"
  shows "\<exists>r l. recall = Num r \<and> 0 \<le> r \<and> r \<le> of_nat (100 * (i + length gt)) \<and> latency = Num l \<and> 0 \<le> l"
  using assms(2-)
proof (induction gt arbitrary: i r0 l0 s)
  case (Cons p gt)
  obtain v ns where p: "p = (v, ns)" by fastforce
  obtain result s1 where
    loop: "recall_loop srv rnd millis q gt (f_add rnd (Num r0) (query_recall rnd ns result))
        (Num (rnd (l0 + rnd (of_nat (millis (trace s)))))) s1 = (Inr (recall, latency), s')"
    using Cons.prems(6) by (auto simp: p ok_simps Let_def)
  obtain w where w: "query_recall rnd ns result = Num w" "0 \<le> w" "w \<le> 100"
    using query_recall_percent[OF rnd, of ns result] Cons.prems(1) p by auto
  have up: "r0 + w \<le> of_nat (100 * Suc i)" using Cons.prems(4) w(3) by simp
  have r: "0 \<le> rnd (r0 + w)" by (rule exact_nonneg[OF rnd]) (use Cons.prems(3) w(2) in simp)
  have r2: "rnd (r0 + w) \<le> of_nat (100 * Suc i)" by (rule exact_le[OF rnd up]) (use Cons.prems(2) in simp)
  have l: "0 \<le> rnd (l0 + rnd (of_nat (millis (trace s))))"
    by (intro exact_nonneg[OF rnd] add_nonneg_nonneg Cons.prems(5)) simp
  have len: "Suc i + length gt \<le> 2 ^ 32" using Cons.prems(2) by simp
  have gt: "\<forall>(v, ns) \<in> set gt. ns \<noteq> [] \<and> length ns \<le> 2 ^ 16" using Cons.prems(1) by simp
  show ?case using Cons.IH[OF gt len r r2 l loop[unfolded w(1) f_add.simps]] by simp
qed auto

lemma two_decimals_percent:
  assumes rnd: "exact_on_integers rnd" and x: "0 \<le> x"
  shows "\<exists>y. two_decimals rnd (Num x) = Num y \<and> 0 \<le> y \<and> (x \<le> 100 \<longrightarrow> y \<le> 100)"
proof -
  define m where "m = rnd (x * 100)"
  have m: "0 \<le> m" unfolding m_def by (rule exact_nonneg[OF rnd]) (use x in simp)
  define y where "y = rnd (of_int (trunc_rat m) / 100)"
  have t: "0 \<le> trunc_rat m" using m by (simp add: trunc_rat_def)
  then have y: "0 \<le> y" unfolding y_def by (intro exact_nonneg[OF rnd]) simp
  have "y \<le> 100" if "x \<le> 100"
  proof -
    have "m \<le> 10000" unfolding m_def by (rule exact_le_numeral[OF rnd]) (use that in simp_all)
    then have "\<lfloor>m\<rfloor> \<le> \<lfloor>10000 :: rat\<rfloor>" by (rule floor_mono)
    then have "trunc_rat m \<le> 10000" using m by (simp add: trunc_rat_def)
    then have "(of_int (trunc_rat m) :: rat) \<le> of_int 10000" by (simp only: of_int_le_iff)
    then show ?thesis unfolding y_def by (intro exact_le_numeral[OF rnd]) simp_all
  qed
  moreover have "two_decimals rnd (Num x) = Num y" by (simp add: two_decimals_def m_def y_def)
  ultimately show ?thesis using y by blast
qed


section \<open>The whole job\<close>

lemma appends_create_test_table [appends_intros]: "appends (create_test_table srv a b c d)"
  unfolding create_test_table_def by (intro appends_intros)

lemma appends_calculate_ground_truth [appends_intros]: "appends (calculate_ground_truth srv a b c d)"
  unfolding calculate_ground_truth_def by (intro appends_intros)

lemma appends_recall_loop [appends_intros]: "appends (recall_loop srv rnd millis q gt r l)"
proof (induction gt arbitrary: r l)
  case (Cons p gt)
  show ?case
    by (cases p, simp only: recall_loop.simps Let_def) (intro appends_intros Cons)
qed (simp only: recall_loop.simps appends_return)

lemma appends_calculate_recall [appends_intros]: "appends (calculate_recall_and_latency srv rnd millis gt t k)"
  unfolding calculate_recall_and_latency_def by (intro appends_intros) (auto simp: Let_def intro: appends_intros)

lemma appends_try_variant [appends_intros]: "appends (try_variant env args n t j gt i v)"
  unfolding try_variant_def
  by (unfold Let_def, intro appends_intros) (auto intro: appends_intros)

lemma on_export_frame:
  "on_export p s = (r, s') \<Longrightarrow> au_reported s' = au_reported s \<and> trace s' = trace s"
  by (auto simp: on_export_def split: prod.splits)

lemma existing_results_frame:
  "existing_results env args j n s = (Inr rs, s') \<Longrightarrow> au_reported s' = au_reported s \<and> trace s' = trace s"
  by (auto simp: existing_results_def ok_simps dest!: on_export_frame split: option.splits)

lemma existing_results_no_model:
  "ia_model_name args = None \<Longrightarrow> existing_results env args j n s = (Inr rs, s') \<Longrightarrow> rs = []"
  by (simp add: existing_results_def)

text \<open>The parameters of a result and of a variant, and when a list of results is a run over the variants.\<close>

definition result_variant :: "AutotuneResult \<Rightarrow> int \<times> int \<times> int" where
  "result_variant r = (ar_m r, ar_ef r, ar_ef_construction r)"

definition variant_params :: "IndexParams \<Rightarrow> int \<times> int \<times> int" where
  "variant_params v = (int (ip_m v), int (ip_ef v), int (ip_ef_construction v))"

definition tried :: "IndexParams list \<Rightarrow> AutotuneResult list \<Rightarrow> bool" where
  "tried vs rs \<longleftrightarrow> map result_variant rs = take (length rs) (map variant_params vs)
    \<and> (\<forall>i. Suc i < length rs \<longrightarrow> \<not> f_le (Num (999 / 10)) (ar_recall (rs ! i)))
    \<and> (length rs < length vs \<longrightarrow> rs \<noteq> [] \<and> f_le (Num (999 / 10)) (ar_recall (last rs)))"

lemma try_variant_result:
  assumes "try_variant env args n t j gt i v s = (Inr r, s')" "ip_m v < 2 ^ 31" "ip_ef v < 2 ^ 31" "ip_ef_construction v < 2 ^ 31"
  shows "result_variant r = variant_params v \<and> ar_job_id r = j \<and> au_reported s' = au_reported s"
proof -
  have "au_reported s' = au_reported s" using appendsD[OF appends_try_variant assms(1)] by auto
  moreover have "result_variant r = (as_i32 (int (ip_m v)), as_i32 (int (ip_ef v)), as_i32 (int (ip_ef_construction v))) \<and> ar_job_id r = j"
    using assms(1) by (auto simp: try_variant_def ok_simps Let_def result_variant_def split: if_splits)
  ultimately show ?thesis using assms(2-4) by (simp add: as_i32_small variant_params_def)
qed

lemma tried_Cons:
  assumes "tried vs rs" "result_variant r = variant_params v" "\<not> f_le (Num (999 / 10)) (ar_recall r)"
  shows "tried (v # vs) (r # rs)"
proof -
  have "\<not> f_le (Num (999 / 10)) (ar_recall ((r # rs) ! i))" if "Suc i < length (r # rs)" for i
    using assms that by (cases i) (auto simp: tried_def)
  with assms(1,2) show ?thesis by (auto simp: tried_def)
qed

lemma variant_loop_results:
  assumes "\<forall>v \<in> set vs. \<forall>i s r s'. attempt_variant i v s = (Inr r, s') \<longrightarrow> result_variant r = variant_params v \<and> au_reported s' = au_reported s"
    and "variant_loop env attempt_variant step i vs p acc s = (Inr out, s')"
  shows "\<exists>rs. out = acc @ rs \<and> tried vs rs \<and>
    au_reported s' = au_reported s @ (if ae_callback env then map (\<lambda>j. p + step * of_nat (Suc j)) [0..<length rs] else [])"
  using assms
proof (induction vs arbitrary: i p acc s)
  case Nil
  then show ?case by (intro exI[of _ "[]"]) (auto simp: tried_def)
next
  case (Cons v vs)
  obtain r s1 s2 where r: "attempt_variant i v s = (Inr r, s1)" and s2: "autotune_report_progress (ae_callback env) (p + step) s1 = (Inr (), s2)"
    and rest: "(if f_le (Num (999 / 10)) (ar_recall r) then return (acc @ [r])
        else variant_loop env attempt_variant step (Suc i) vs (p + step) (acc @ [r])) s2 = (Inr out, s')"
    using Cons.prems(2) by (auto simp: ok_simps)
  have v: "result_variant r = variant_params v" "au_reported s1 = au_reported s" using Cons.prems(1) r by auto
  have rep: "au_reported s2 = au_reported s @ (if ae_callback env then [p + step] else [])"
    using s2 v(2) by (auto simp: autotune_report_progress_def)
  show ?case
  proof (cases "f_le (Num (999 / 10)) (ar_recall r)")
    case True
    then show ?thesis using rest rep v(1) by (intro exI[of _ "[r]"]) (auto simp: tried_def)
  next
    case False
    then have loop: "variant_loop env attempt_variant step (Suc i) vs (p + step) (acc @ [r]) s2 = (Inr out, s')" using rest by simp
    obtain rs where rs: "out = (acc @ [r]) @ rs" "tried vs rs"
      "au_reported s' = au_reported s2 @ (if ae_callback env then map (\<lambda>j. (p + step) + step * of_nat (Suc j)) [0..<length rs] else [])"
      using Cons.IH[OF _ loop] Cons.prems(1) by auto
    have m: "map (\<lambda>j. p + step * of_nat (Suc j)) [0..<length (r # rs)]
        = (p + step) # map (\<lambda>j. (p + step) + step * of_nat (Suc j)) [0..<length rs]"
      unfolding length_Cons map_upt_Suc by (simp add: algebra_simps)
    have "tried (v # vs) (r # rs)" using rs(2) v(1) False by (rule tried_Cons)
    moreover have "au_reported s' = au_reported s @ (if ae_callback env then map (\<lambda>j. p + step * of_nat (Suc j)) [0..<length (r # rs)] else [])"
      unfolding rs(3) rep m by simp
    moreover have "out = acc @ r # rs" using rs(1) by simp
    ultimately show ?thesis by blast
  qed
qed

lemma index_variants_small:
  "v \<in> set index_variants \<Longrightarrow> ip_m v < 2 ^ 31 \<and> ip_ef v < 2 ^ 31 \<and> ip_ef_construction v < 2 ^ 31"
  by (auto simp: index_variants_def)

lemma finish_autotune_ok:
  assumes "finish_autotune env args n rs s = (Inr (), s')"
  shows "rs \<noteq> []"
    "au_reported s' = au_reported s @ (if ae_callback env then [70] @ (if ia_create_index args then [80] else []) @ [100] else [])"
    "ia_create_index args \<Longrightarrow> \<exists>best. find_best_variant (ae_rnd env) rs (ia_recall args) = Inr best \<and>
       trace s' = trace s @ [BatchExecute (drop_tables_sql args), BatchExecute (best_index_sql n args best)]"
    "\<not> ia_create_index args \<Longrightarrow> trace s' = trace s @ [BatchExecute (drop_tables_sql args)]"
  using assms
  by (auto simp: finish_autotune_def ok_simps autotune_report_progress_def lift_r_def dest!: on_export_frame split: if_splits option.splits)

lemma autotune_index_ok:
  assumes "autotune_index env args s = (Inr (), s')"
  shows "\<exists>rs n s1. finish_autotune env args (index_name_of env) rs s1 = (Inr (), s')
    \<and> au_reported s1 = au_reported s @ (if ae_callback env then map (\<lambda>j. 5 + 10 * of_nat j) [0..<Suc n] else [])
    \<and> n \<le> 6 \<and> (tried index_variants rs \<and> n = length rs \<or> ia_model_name args \<noteq> None \<and> n = 0)"
proof -
  let ?attempt_variant = "\<lambda>gt. try_variant env args (index_name_of env) (tmp_table_of args) (case ia_job_id args of Some j \<Rightarrow> j | None \<Rightarrow> ae_uuid env) gt"
  obtain u p j x0 x3 x5 gt sz s0 s1 s2 s3 s4 s5 s6 existing rs where
    c: "do_call (ae_server env) u s = (Inr x0, s0)"
    and 1: "create_test_table (ae_server env) (tmp_table_of args) (get_full_table_name (ia_schema args) (ia_table args))
        (ia_column args) (ia_test_data_size args) s0 = (Inr sz, s1)"
    and 2: "calculate_ground_truth (ae_server env) (tmp_table_of args) (truth_table_of args)
        (sql_function (ia_metric_kind args)) (ia_k args) s1 = (Inr gt, s2)"
    and 3: "on_export p s2 = (Inr (x3 :: unit), s3)"
    and 4: "existing_results env args j sz s3 = (Inr existing, s4)"
    and 5: "autotune_report_progress (ae_callback env) 5 s4 = (Inr x5, s5)"
    and 6: "(if existing = [] then variant_loop env (?attempt_variant gt) ((100 - 5 - 30) div word_of_nat (length index_variants)) 0 index_variants 5 []
             else return existing) s5 = (Inr rs, s6)"
    and 7: "finish_autotune env args (index_name_of env) rs s6 = (Inr (), s')"
    using assms unfolding autotune_index_def Let_def seq_ok_iff and_then_ok_iff
    by (elim exE conjE) (rule that, assumption+)
  have "au_reported s4 = au_reported s"
    using appendsD[OF appends_do_call c] appendsD[OF appends_create_test_table 1] appendsD[OF appends_calculate_ground_truth 2] 3 4
    by (auto dest!: on_export_frame existing_results_frame)
  then have r5: "au_reported s5 = au_reported s @ (if ae_callback env then [5] else [])"
    using 5 by (auto simp: autotune_report_progress_def)
  show ?thesis
  proof (cases "existing = []")
    case True
    have "(65 div word_of_nat (length index_variants) :: byte) = 10" by (simp add: index_variants_def)
    then have loop: "variant_loop env (?attempt_variant gt) 10 0 index_variants 5 [] s5 = (Inr rs, s6)" using 6 True by simp
    have t: "\<forall>v \<in> set index_variants. \<forall>i s r s'. ?attempt_variant gt i v s = (Inr r, s') \<longrightarrow> result_variant r = variant_params v \<and> au_reported s' = au_reported s"
      using try_variant_result index_variants_small by blast
    obtain rs' where rs': "rs = rs'" "tried index_variants rs'"
      "au_reported s6 = au_reported s5 @ (if ae_callback env then map (\<lambda>j. 5 + 10 * of_nat (Suc j)) [0..<length rs'] else [])"
      using variant_loop_results[OF t loop] by auto
    have "map result_variant rs = take (length rs) (map variant_params index_variants)" using rs' by (simp add: tried_def)
    then have "length rs = min (length rs) (length index_variants)"
      by (metis length_map length_take min.commute)
    then have "length rs \<le> 6" by (simp add: index_variants_def)
    moreover have "au_reported s6 = au_reported s @ (if ae_callback env then map (\<lambda>j. 5 + 10 * of_nat j) [0..<Suc (length rs)] else [])"
      unfolding rs'(3) r5 map_upt_Suc rs'(1) by simp
    ultimately show ?thesis using 7 rs' by blast
  next
    case False
    then have "ia_model_name args \<noteq> None" using 4 existing_results_no_model by metis
    moreover have "s6 = s5" using 6 False by simp
    ultimately show ?thesis using 7 r5 by (intro exI[of _ rs] exI[of _ 0] exI[of _ s6]) simp
  qed
qed


text \<open>
  The progress an autotune job reports is 5, ten more for each variant tried, 70, 80 when it
  creates the index, and 100.
\<close>

theorem autotune_index_progress:
  assumes "autotune_index env args s = (Inr (), s')" "ae_callback env"
  shows "\<exists>n \<le> 6. au_reported s' = au_reported s @ map (\<lambda>j. 5 + 10 * of_nat j) [0..<Suc n] @ [70]
    @ (if ia_create_index args then [80] else []) @ [100]"
proof -
  obtain rs n s1 where f: "finish_autotune env args (index_name_of env) rs s1 = (Inr (), s')"
    and r: "au_reported s1 = au_reported s @ (if ae_callback env then map (\<lambda>j. 5 + 10 * of_nat j) [0..<Suc n] else [])" "n \<le> 6"
    using autotune_index_ok[OF assms(1)] by blast
  show ?thesis using finish_autotune_ok(2)[OF f] r assms(2) by (intro exI[of _ n]) (simp del: upt_Suc)
qed

section \<open>A run\<close>

text \<open>A table of one vector: the first variant finds its only neighbour and the job stops there.\<close>

definition demo_tuning_server :: "f64 server" where
  "demo_tuning_server calls c = (case c of
      QueryOne _ _ \<Rightarrow> Rows [[SInt 3]]
    | Query _ ps \<Rightarrow> if ps = [] then Rows [[SFloats [Num 1], STexts [''a'']]] else Rows [[SText ''a'']]
    | _ \<Rightarrow> Done 0)"

definition demo_tuning_env :: autotune_env where
  "demo_tuning_env =
    \<lparr>ae_server = demo_tuning_server, ae_export_server = demo_tuning_server, ae_rnd = id, ae_millis = (\<lambda>_. 1000),
     ae_cancelled = (\<lambda>_. False), ae_index_number = 7, ae_uuid = 42, ae_callback = True\<rparr>"

definition demo_tuning_args :: IndexAutotuneArgs where
  "demo_tuning_args =
    \<lparr>ia_uri = ''db'', ia_schema = ''public'', ia_table = ''t'', ia_column = ''v'', ia_recall = Num 99, ia_k = 1,
     ia_test_data_size = 10, ia_metric_kind = L2sq, ia_create_index = True, ia_job_id = None, ia_export_db_uri = None,
     ia_export_schema_name = ''public'', ia_export_table_name = None, ia_job_schema_name = ''public'',
     ia_job_table_name = None, ia_model_name = None\<rparr>"

definition demo_tuning_start :: autotune where
  "demo_tuning_start = \<lparr>trace = [], export_trace = [], au_reported = []\<rparr>"

lemma demo_tuning_query:
  "do_call demo_tuning_server c s = (Inr (), s\<lparr>trace := trace s @ [c]\<rparr>)"
  "query_one demo_tuning_server q ps s = (Inr [SInt 3], s\<lparr>trace := trace s @ [QueryOne q ps]\<rparr>)"
  "query demo_tuning_server q [] s = (Inr [[SFloats [Num 1], STexts [''a'']]], s\<lparr>trace := trace s @ [Query q []]\<rparr>)"
  "query demo_tuning_server q [p] s = (Inr [[SText ''a'']], s\<lparr>trace := trace s @ [Query q [p]]\<rparr>)"
  by (simp add: do_call_ok_iff demo_tuning_server_def split: db_call.split)
    (simp_all add: call_def query_def query_one_def prog_simps demo_tuning_server_def)

lemma demo_row_values:
  "get_int 0 [SInt 3] = Inr 3" "get_text 0 [SText ''a''] = Inr ''a''"
  "ground_truth_row [SFloats [Num 1], STexts [''a'']] = Inr ([Num 1], [''a''])"
  by (simp_all add: get_int_def get_text_def ground_truth_row_def get_floats_def get_texts_def column_def)

lemma demo_create_test_table: "\<exists>s'. create_test_table demo_tuning_server a b c d s = (Inr 3, s')"
  by (simp add: create_test_table_def prog_simps demo_tuning_query demo_row_values as_i32_def)

lemma demo_ground_truth:
  "\<exists>s'. calculate_ground_truth demo_tuning_server a b c d s = (Inr [([Num 1], [''a''])], s')"
  by (simp add: calculate_ground_truth_def prog_simps demo_tuning_query demo_row_values)

lemma demo_recall:
  "\<exists>s'. calculate_recall_and_latency demo_tuning_server id (\<lambda>_. 1000) [([Num 1], [''a''])] t k s =
    (Inr (Num 100, Num 1000), s')"
  by (simp add: calculate_recall_and_latency_def prog_simps demo_tuning_query demo_row_values query_recall_def two_decimals_def trunc_rat_def)

lemma demo_try_variant:
  "\<exists>r s'. try_variant demo_tuning_env args n t j [([Num 1], [''a''])] i v s = (Inr r, s')
    \<and> ar_recall r = Num 100 \<and> ar_latency r = Num 1000 \<and> ar_indexing_duration r = Num 1"
proof -
  obtain s' where "calculate_recall_and_latency demo_tuning_server id (\<lambda>_. 1000) [([Num 1], [''a''])] t (ia_k args)
      (s\<lparr>trace := (trace s @ [Execute (''DROP INDEX IF EXISTS '' @ get_full_table_name INTERNAL_SCHEMA_NAME n) []]) @
        [BatchExecute (variant_index_sql n t (to_ops (ia_metric_kind args)) v)]\<rparr>) = (Inr (Num 100, Num 1000), s')"
    using demo_recall by blast
  then show ?thesis
    by (simp add: try_variant_def demo_tuning_env_def prog_simps demo_tuning_query two_decimals_def trunc_rat_def)
qed

lemma demo_tuning_finish:
  assumes "ar_recall r = Num 100" "ar_latency r = Num 1000" "ar_indexing_duration r = Num 1"
  shows "\<exists>s'. finish_autotune demo_tuning_env demo_tuning_args n [r] s = (Inr (), s')"
  using assms
  by (simp add: finish_autotune_def demo_tuning_env_def demo_tuning_args_def prog_simps demo_tuning_query
      autotune_report_progress_def find_best_variant_def sort_by_f64_def first_r_def)

lemma demo_variants: "f_le (Num (999 / 10)) (ar_recall r) \<Longrightarrow> attempt_variant 0 (hd index_variants) s = (Inr r, s') \<Longrightarrow>
  variant_loop demo_tuning_env attempt_variant step 0 index_variants p [] s = (Inr [r], s'\<lparr>au_reported := au_reported s' @ [p + step]\<rparr>)"
  by (simp add: index_variants_def prog_simps autotune_report_progress_def demo_tuning_env_def)

lemma demo_tuning_run: "\<exists>s'. autotune_index demo_tuning_env demo_tuning_args demo_tuning_start = (Inr (), s')"
proof -
  let ?e = demo_tuning_env and ?a = demo_tuning_args
  have env: "ae_server ?e = demo_tuning_server" "ae_export_server ?e = demo_tuning_server"
    by (simp_all add: demo_tuning_env_def)
  have none: "existing_results ?e ?a j n s = (Inr [], s)" for j n s
    by (simp add: existing_results_def demo_tuning_args_def)
  have ex: "on_export (do_call demo_tuning_server c) s = (Inr (), s\<lparr>export_trace := export_trace s @ [c]\<rparr>)" for c s
    by (simp add: on_export_def demo_tuning_query)
  have rep: "autotune_report_progress True p s = (Inr (), s\<lparr>au_reported := au_reported s @ [p]\<rparr>)" for p s
    by (simp add: autotune_report_progress_def)
  have cb: "ae_callback ?e = True" by (simp add: demo_tuning_env_def)
  define G where "G a b c d s = snd (create_test_table demo_tuning_server a b c d s)" for a b c d and s :: autotune
  have g: "create_test_table demo_tuning_server a b c d s = (Inr 3, G a b c d s)" for a b c d s
    using demo_create_test_table[of a b c d s] by (auto simp: G_def)
  define H where "H a b c d s = snd (calculate_ground_truth demo_tuning_server a b c d s)" for a b c d and s :: autotune
  have h: "calculate_ground_truth demo_tuning_server a b c d s = (Inr [([Num 1], [''a''])], H a b c d s)" for a b c d s
    using demo_ground_truth[of a b c d s] by (auto simp: H_def)
  have rest: "\<exists>s'. and_then (variant_loop ?e (try_variant ?e ?a n t j [([Num 1], [''a''])]) step 0 index_variants p [])
      (finish_autotune ?e ?a n) s = (Inr (), s')" for n t j step p s
  proof -
    obtain r s1 where r: "try_variant ?e ?a n t j [([Num 1], [''a''])] 0 (hd index_variants) s = (Inr r, s1)"
      "ar_recall r = Num 100" "ar_latency r = Num 1000" "ar_indexing_duration r = Num 1"
      using demo_try_variant by metis
    have "f_le (Num (999 / 10)) (ar_recall r)" using r(2) by simp
    then have loop: "variant_loop ?e (try_variant ?e ?a n t j [([Num 1], [''a''])]) step 0 index_variants p [] s =
        (Inr [r], s1\<lparr>au_reported := au_reported s1 @ [p + step]\<rparr>)" using r(1) by (rule demo_variants)
    show ?thesis using demo_tuning_finish[OF r(2-4)] by (simp only: and_then_def loop prod.case sum.case)
  qed
  show ?thesis
    unfolding autotune_index_def Let_def env cb
    by (simp only: seq_ok and_then_ok demo_tuning_query g h ex none rep refl if_True rest)
qed

theorem find_best_variant_spec_witness:
  "\<exists>best. find_best_variant id
      [\<lparr>ar_job_id = 1, ar_ef = 64, ar_ef_construction = 32, ar_m = 6, ar_recall = Num 98, ar_latency = Num 1, ar_indexing_duration = Num 1\<rparr>,
       \<lparr>ar_job_id = 1, ar_ef = 64, ar_ef_construction = 40, ar_m = 8, ar_recall = Num 99, ar_latency = Num 2, ar_indexing_duration = Num 2\<rparr>]
      (Num 99) = Inr best \<and> f_le (Num 99) (ar_recall best)"
  using find_best_variant_spec[of
      "[\<lparr>ar_job_id = 1, ar_ef = 64, ar_ef_construction = 32, ar_m = 6, ar_recall = Num 98, ar_latency = Num 1, ar_indexing_duration = Num 1\<rparr>,
       \<lparr>ar_job_id = 1, ar_ef = 64, ar_ef_construction = 40, ar_m = 8, ar_recall = Num 99, ar_latency = Num 2, ar_indexing_duration = Num 2\<rparr>]"
      id "Num 99"]
  by (auto simp: variant_cost_def split: if_splits)

lemma exact_id: "exact_on_integers id"
  by (simp add: exact_on_integers_def mono_def)



theorem autotune_index_progress_witness:
  "\<exists>s' n. autotune_index demo_tuning_env demo_tuning_args demo_tuning_start = (Inr (), s') \<and> n \<le> 6
    \<and> au_reported s' = map (\<lambda>j. 5 + 10 * of_nat j) [0..<Suc n] @ [70, 80, 100]"
proof -
  obtain s' where s': "autotune_index demo_tuning_env demo_tuning_args demo_tuning_start = (Inr (), s')" using demo_tuning_run by blast
  have "ae_callback demo_tuning_env" by (simp add: demo_tuning_env_def)
  from autotune_index_progress[OF s' this] s' show ?thesis
    by (auto simp: demo_tuning_args_def demo_tuning_start_def simp del: upt_Suc)
qed

end
