(* ===== verification/Daemon_Helpers.thy ===== *)
theory Daemon_Helpers
  imports Embedding_Export "HOL-Library.AList"
begin

text \<open>
  \<^verbatim>\<open>lantern_cli/src/daemon/helpers.rs\<close> and the notification types of \<^verbatim>\<open>daemon/types.rs\<close>: the set-up of
  the internal tables, the listener that turns database notifications into queue entries, and the
  table of handlers through which a running job is told to stop. A channel is a number; \<open>hd_sent\<close> is
  what has been sent into the channels. The receivers of the two queues live as long as the listener.
\<close>

section \<open>Notifications\<close>

record JobInsertNotification =
  jn_id :: int
  jn_generate_missing :: bool
  jn_row_id :: "string option"
  jn_filter :: "string option"

record JobUpdateNotification =
  un_id :: int
  un_generate_missing :: bool

datatype JobEvent = Done_Event | Errored string

datatype db_message = Notification string | Other_Message | Message_Error string

record job_queues =
  insert_queue :: "JobInsertNotification list"
  update_queue :: "JobUpdateNotification list"

text \<open>What one message makes the listener do.\<close>

datatype listener_step = Push_Insert JobInsertNotification | Push_Update JobUpdateNotification | Skip | Leave | Die error

definition job_notification :: "bool \<Rightarrow> string \<Rightarrow> listener_step" where
  "job_notification has_update payload =
    (let parts = split_char (CHR '':'') payload
     in if length parts < 2 then Leave
        else (case i32_from_str (parts ! 1) of
                None \<Rightarrow> Die (Panicked ''called `Result::unwrap()` on an `Err` value'')
              | Some n \<Rightarrow>
                  if parts ! 0 = ''insert''
                  then Push_Insert \<lparr>jn_id = n, jn_generate_missing = False, jn_row_id = None, jn_filter = None\<rparr>
                  else if parts ! 0 = ''update''
                  then (if has_update then Push_Update \<lparr>un_id = n, un_generate_missing = True\<rparr> else Skip)
                  else Skip))"

fun listener_step_of :: "bool \<Rightarrow> db_message \<Rightarrow> listener_step" where
  "listener_step_of has_update (Message_Error e) = Leave"
| "listener_step_of has_update Other_Message = Skip"
| "listener_step_of has_update (Notification payload) = job_notification has_update payload"

text \<open>
  The notification task: it ends when the stream ends, on an error and on a malformed payload, and it
  dies with a panic on a number it cannot read.
\<close>

fun listener_loop :: "bool \<Rightarrow> db_message list \<Rightarrow> (job_queues, unit) prog" where
  "listener_loop has_update [] q = (Inr (), q)"
| "listener_loop has_update (m # ms) q =
    (case listener_step_of has_update m of
       Push_Insert n \<Rightarrow> listener_loop has_update ms (q\<lparr>insert_queue := insert_queue q @ [n]\<rparr>)
     | Push_Update n \<Rightarrow> listener_loop has_update ms (q\<lparr>update_queue := update_queue q @ [n]\<rparr>)
     | Skip \<Rightarrow> listener_loop has_update ms q
     | Leave \<Rightarrow> (Inr (), q)
     | Die e \<Rightarrow> (Inl e, q))"

text \<open>The listener function: a panic of its task is dropped with the join handle.\<close>

definition db_notification_listener ::
  "'f server \<Rightarrow> string \<Rightarrow> string \<Rightarrow> bool \<Rightarrow> db_message list \<Rightarrow> ('f world \<times> job_queues, unit) prog" where
  "db_notification_listener srv db_uri notification_channel has_update msgs = (\<lambda>(w, q).
    case seq (do_call srv (Connect db_uri)) (do_call srv (BatchExecute (''LISTEN '' @ notification_channel @ '';''))) w of
      (Inl e, w') \<Rightarrow> (Inl e, (w', q))
    | (Inr _, w') \<Rightarrow> (Inr (), (w', snd (listener_loop has_update msgs q))))"

section \<open>Tables and triggers\<close>

definition check_table_exists :: "'f server \<Rightarrow> string \<Rightarrow> (('f, 'x) world_scheme, unit) prog" where
  "check_table_exists srv table s =
    (case do_call srv (Execute (''SELECT ctid FROM '' @ table @ '' LIMIT 1'') []) s of
       (Inr _, s') \<Rightarrow> (Inr (), s')
     | (Inl _, s') \<Rightarrow> (Inl (Bail (''Table '' @ table @ '' does not exist'')), s'))"

abbreviation sq :: "string \<Rightarrow> string" where
  "sq s \<equiv> [squote] @ s @ [squote]"

definition trigger_sql :: "string \<Rightarrow> string \<Rightarrow> string \<Rightarrow> string" where
  "trigger_sql schema table channel =
    (let full_table_name = get_full_table_name schema table;
         insert_function_name = get_full_table_name schema (''notify_insert_'' @ table);
         update_function_name = get_full_table_name schema (''notify_update_'' @ table);
         insert_trigger_name = quote_ident (''trigger_insert_'' @ table);
         update_trigger_name = quote_ident (''trigger_update_'' @ table)
     in ''CREATE OR REPLACE FUNCTION '' @ insert_function_name @ ''() RETURNS TRIGGER AS $$ BEGIN PERFORM pg_notify('' @ sq channel @
        '', '' @ sq ''insert:'' @ '' || NEW.id::TEXT); RETURN NULL; END; $$ LANGUAGE plpgsql; '' @
        ''CREATE OR REPLACE FUNCTION '' @ update_function_name @ ''() RETURNS TRIGGER AS $$ BEGIN '' @
        ''IF (NEW.canceled_at IS NULL AND OLD.canceled_at IS NOT NULL) OR (NEW.canceled_at IS NOT NULL AND OLD.canceled_at IS NULL) '' @
        ''THEN PERFORM pg_notify('' @ sq channel @ '', '' @ sq ''update:'' @ '' || NEW.id::TEXT); END IF; '' @
        ''IF to_jsonb(NEW) ? '' @ sq ''label'' @ '' THEN IF NEW.label != OLD.label THEN PERFORM pg_notify('' @ sq channel @ '', '' @
        sq ''update:'' @ '' || NEW.id::TEXT); END IF; END IF; RETURN NEW; END; $$ LANGUAGE plpgsql; '' @
        ''CREATE OR REPLACE TRIGGER '' @ insert_trigger_name @ '' AFTER INSERT ON '' @ full_table_name @
        '' FOR EACH ROW EXECUTE PROCEDURE '' @ insert_function_name @ ''(); '' @
        ''CREATE OR REPLACE TRIGGER '' @ update_trigger_name @ '' AFTER UPDATE ON '' @ full_table_name @
        '' FOR EACH ROW EXECUTE PROCEDURE '' @ update_function_name @ ''();'')"

text \<open>The optional tables of the set-up: a name without a definition, or the converse, creates nothing.\<close>

record startup_tables =
  lock_table_name :: "string option"
  results_table :: "(string option \<times> string option)"
  usage_table :: "(string option \<times> string option)"
  failure_table :: "(string option \<times> string option)"
  migration :: "string option"

definition both :: "'a option \<times> 'b option \<Rightarrow> ('a \<Rightarrow> 'b \<Rightarrow> 'c list) \<Rightarrow> 'c list" where
  "both p f = (case p of (Some a, Some b) \<Rightarrow> f a b | _ \<Rightarrow> [])"

definition startup_statements ::
  "string \<Rightarrow> string \<Rightarrow> string \<Rightarrow> startup_tables \<Rightarrow> string \<Rightarrow> 'f db_call list" where
  "startup_statements table table_def schema tbls channel =
    (let full_table_name = get_full_table_name schema table
     in [Begin,
         Execute ''SELECT pg_advisory_xact_lock(1337);'' [],
         BatchExecute (''CREATE SCHEMA IF NOT EXISTS '' @ quote_ident schema @ ''; GRANT USAGE ON SCHEMA '' @ quote_ident schema @ '' TO PUBLIC;''),
         BatchExecute (''CREATE TABLE IF NOT EXISTS '' @ full_table_name @ '' ('' @ table_def @ ''); GRANT SELECT ON '' @ full_table_name @ '' TO PUBLIC;'')]
      @ (case migration tbls of Some sql \<Rightarrow> [BatchExecute sql] | None \<Rightarrow> [])
      @ [BatchExecute (trigger_sql schema table channel)]
      @ (case lock_table_name tbls of
           Some n \<Rightarrow> [BatchExecute (''CREATE UNLOGGED TABLE IF NOT EXISTS '' @ get_full_table_name schema n @
             '' (job_id INTEGER NOT NULL, row_id TEXT NOT NULL, CONSTRAINT ldb_lock_jobid_rowid UNIQUE (job_id, row_id));'')]
         | None \<Rightarrow> [])
      @ both (results_table tbls) (\<lambda>n d.
          [BatchExecute (''CREATE TABLE IF NOT EXISTS '' @ get_full_table_name schema n @ '' ('' @ d @ ''); GRANT SELECT ON '' @
             get_full_table_name schema n @ '' TO PUBLIC;'')])
      @ both (usage_table tbls) (\<lambda>n d.
          [BatchExecute (''CREATE TABLE IF NOT EXISTS '' @ get_full_table_name schema n @ '' ('' @ d @
             ''); CREATE INDEX IF NOT EXISTS embedding_usage_date_idx ON '' @ get_full_table_name schema n @ ''(created_at); GRANT SELECT ON '' @
             get_full_table_name schema n @ '' TO PUBLIC;'')])
      @ both (failure_table tbls) (\<lambda>n d.
          [BatchExecute (get_try_cast_fn_sql schema @ '' CREATE TABLE IF NOT EXISTS '' @ get_full_table_name schema n @ '' ('' @ d @
             ''); CREATE INDEX IF NOT EXISTS embedding_failures_job_id_row_id ON '' @ get_full_table_name schema n @
             ''(job_id, row_id); GRANT SELECT ON '' @ get_full_table_name schema n @ '' TO PUBLIC;'')])
      @ [Commit])"

definition startup_hook ::
  "'f server \<Rightarrow> string \<Rightarrow> string \<Rightarrow> string \<Rightarrow> startup_tables \<Rightarrow> string \<Rightarrow> (('f, 'x) world_scheme, unit) prog" where
  "startup_hook srv table table_def schema tbls channel =
    for_each (do_call srv) (startup_statements table table_def schema tbls channel)"

definition get_missing_rows_filter :: "string \<Rightarrow> string \<Rightarrow> string" where
  "get_missing_rows_filter src_column out_column =
    ''('' @ get_common_embedding_ignore_filters (quote_ident src_column) @ '') AND '' @ quote_ident out_column @ '' IS NULL''"

text \<open>A nullable timestamp column, as far as the code looks at it: whether it is set.\<close>

definition get_time_set :: "nat \<Rightarrow> 'f sql_row \<Rightarrow> bool result" where
  "get_time_set i row = and_then_r (column i row) (\<lambda>v. Inr (v \<noteq> SNull))"

definition pending_notification :: "'f sql_row \<Rightarrow> JobInsertNotification result" where
  "pending_notification row =
    and_then_r (get_int 0 row) (\<lambda>i. and_then_r (get_time_set 1 row) (\<lambda>started.
      Inr \<lparr>jn_id = i, jn_generate_missing = started, jn_row_id = None, jn_filter = None\<rparr>))"

definition collect_pending_index_jobs ::
  "'f server \<Rightarrow> string \<Rightarrow> (('f, 'x) world_scheme, JobInsertNotification list) prog" where
  "collect_pending_index_jobs srv table =
    and_then (query srv (''SELECT id, started_at FROM '' @ table @ '' WHERE failed_at IS NULL and finished_at IS NULL ORDER BY id'') [])
      (\<lambda>rows. lift_r (traverse_r pending_notification rows))"

section \<open>Handlers of running jobs\<close>

record 'f dworld = "'f world" +
  handlers :: "(int \<times> nat) list"
  hd_sent :: "(nat \<times> JobEvent) list"

definition set_job_handle :: "int \<Rightarrow> nat \<Rightarrow> (('f, 'x) dworld_scheme, unit) prog" where
  "set_job_handle job_id handle s = (Inr (), s\<lparr>handlers := AList.update job_id handle (handlers s)\<rparr>)"

definition remove_job_handle :: "int \<Rightarrow> (('f, 'x) dworld_scheme, unit) prog" where
  "remove_job_handle job_id s = (Inr (), s\<lparr>handlers := AList.delete job_id (handlers s)\<rparr>)"

definition notify_job :: "int \<Rightarrow> JobEvent \<Rightarrow> (('f, 'x) dworld_scheme, unit) prog" where
  "notify_job job_id msg s =
    (case map_of (handlers s) job_id of
       Some tx \<Rightarrow> (Inr (), s\<lparr>hd_sent := hd_sent s @ [(tx, msg)]\<rparr>)
     | None \<Rightarrow> (Inr (), s))"

definition cancel_all_jobs :: "(('f, 'x) dworld_scheme, unit) prog" where
  "cancel_all_jobs s =
    (Inr (), s\<lparr>handlers := [], hd_sent := hd_sent s @ map (\<lambda>(_, tx). (tx, Errored JOB_CANCELLED_MESSAGE)) (handlers s)\<rparr>)"

definition index_job_update ::
  "'f server \<Rightarrow> string \<Rightarrow> string \<Rightarrow> JobUpdateNotification \<Rightarrow> (('f, 'x) dworld_scheme, unit) prog" where
  "index_job_update srv schema table notification =
    and_then (query_one srv (''SELECT canceled_at FROM '' @ get_full_table_name schema table @ '' WHERE id=$1'') [SInt (un_id notification)]) (\<lambda>row.
    and_then (lift_r (get_time_set 0 row)) (\<lambda>canceled.
      if canceled then notify_job (un_id notification) (Errored JOB_CANCELLED_MESSAGE) else return ()))"

definition index_job_update_processor ::
  "'f server \<Rightarrow> string \<Rightarrow> string \<Rightarrow> JobUpdateNotification list \<Rightarrow> (('f, 'x) dworld_scheme, unit) prog" where
  "index_job_update_processor srv schema table = for_each (index_job_update srv schema table)"

section \<open>The set-up is one transaction\<close>

lemma for_each_do_call:
  assumes "for_each (do_call srv) cs s = (r, s')"
  shows "(\<forall>x. r = Inr x \<longrightarrow> trace s' = trace s @ cs)
    \<and> (\<forall>e. r = Inl e \<longrightarrow> (\<exists>n < length cs. trace s' = trace s @ take (Suc n) cs \<and> (\<exists>m. srv (trace s @ take n cs) (cs ! n) = DbError m)))"
  using assms
proof (induction cs arbitrary: s)
  case (Cons c cs)
  show ?case
  proof (cases "\<exists>m. srv (trace s) c = DbError m")
    case True
    then obtain m where "srv (trace s) c = DbError m" by blast
    then have "r = Inl (IoError m)" "trace s' = trace s @ [c]"
      using Cons.prems by (auto simp: prog_simps do_call_def call_def seq_def and_then_def)
    then show ?thesis using True by (auto intro!: exI[of _ 0])
  next
    case False
    then have "for_each (do_call srv) cs (s\<lparr>trace := trace s @ [c]\<rparr>) = (r, s')"
      using Cons.prems by (simp add: seq_ok[of "do_call srv c" s "()"] do_call_ok_iff)
    note IH = Cons.IH[OF this]
    show ?thesis
    proof (intro conjI allI impI)
      fix e
      assume "r = Inl e"
      then obtain n m where "n < length cs" "trace s' = trace s @ take (Suc (Suc n)) (c # cs)"
        "srv (trace s @ take (Suc n) (c # cs)) ((c # cs) ! Suc n) = DbError m"
        using IH by auto
      then show "\<exists>n < length (c # cs). trace s' = trace s @ take (Suc n) (c # cs)
          \<and> (\<exists>m. srv (trace s @ take n (c # cs)) ((c # cs) ! n) = DbError m)"
        by (intro exI[of _ "Suc n"]) auto
    qed (use IH in auto)
  qed
qed auto

lemma startup_statements_shape:
  "\<exists>body. startup_statements table table_def schema tbls channel = Begin # Execute ''SELECT pg_advisory_xact_lock(1337);'' [] # body @ [Commit]
    \<and> Commit \<notin> set body \<and> Begin \<notin> set body"
proof -
  have "startup_statements table table_def schema tbls channel =
    Begin # Execute ''SELECT pg_advisory_xact_lock(1337);'' [] # butlast (tl (tl (startup_statements table table_def schema tbls channel))) @ [Commit]"
    by (simp add: startup_statements_def Let_def butlast_append)
  moreover have "Commit \<notin> set (butlast (tl (tl (startup_statements table table_def schema tbls channel))))"
    "Begin \<notin> set (butlast (tl (tl (startup_statements table table_def schema tbls channel))))"
    by (auto simp: startup_statements_def Let_def butlast_append both_def split: option.splits prod.splits)
  ultimately show ?thesis by metis
qed

text \<open>
  C21. The set-up of the daemon runs in one transaction under the advisory lock: the commit is the last
  statement, it is sent only after every other statement has succeeded, and a statement that fails is
  the last one sent.
\<close>

theorem startup_hook_atomic:
  fixes srv :: "'f server"
  assumes "startup_hook srv table table_def schema tbls channel s = (r, s')"
  shows "\<exists>(body :: 'f db_call list) sent. trace s' = trace s @ sent \<and> Commit \<notin> set body
    \<and> (if is_ok r then sent = Begin # Execute ''SELECT pg_advisory_xact_lock(1337);'' [] # body @ [Commit]
       else \<exists>n. n \<le> length body + 2 \<and> sent = take (Suc n) (Begin # Execute ''SELECT pg_advisory_xact_lock(1337);'' [] # body @ [Commit])
         \<and> (\<exists>m. srv (trace s @ butlast sent) (last sent) = DbError m))"
proof -
  obtain body :: "'f db_call list" where body: "startup_statements table table_def schema tbls channel =
      Begin # Execute ''SELECT pg_advisory_xact_lock(1337);'' [] # body @ [Commit]" "Commit \<notin> set body"
    using startup_statements_shape by blast
  let ?cs = "Begin # Execute ''SELECT pg_advisory_xact_lock(1337);'' [] # body @ [Commit]"
  have run: "for_each (do_call srv) ?cs s = (r, s')" using assms by (simp only: startup_hook_def body(1))
  show ?thesis
  proof (cases r)
    case (Inr x)
    then show ?thesis using for_each_do_call[OF run] body(2) by (intro exI[of _ body] exI[of _ ?cs]) simp
  next
    case (Inl e)
    then obtain n m where n: "n < length ?cs" "trace s' = trace s @ take (Suc n) ?cs" "srv (trace s @ take n ?cs) (?cs ! n) = DbError m"
      using for_each_do_call[OF run] by auto
    have "take (Suc n) ?cs = take n ?cs @ [?cs ! n]" by (rule take_Suc_conv_app_nth[OF n(1)])
    then have "butlast (take (Suc n) ?cs) = take n ?cs" "last (take (Suc n) ?cs) = ?cs ! n" by (simp_all only: butlast_snoc last_snoc)
    moreover have "n \<le> length body + 2" using n(1) by simp
    ultimately show ?thesis using n(2,3) body(2) Inl
      by (intro exI[of _ body] exI[of _ "take (Suc n) ?cs"]) (auto simp only: is_ok.simps if_False simp_thms)
  qed
qed

section \<open>Notifications reach the queues\<close>

text \<open>What the triggers of \<open>trigger_sql\<close> send.\<close>

datatype job_change = Inserted int | Updated int

fun change_id :: "job_change \<Rightarrow> int" where
  "change_id (Inserted i) = i"
| "change_id (Updated i) = i"

fun change_payload :: "job_change \<Rightarrow> string" where
  "change_payload (Inserted i) = ''insert:'' @ int_digits i"
| "change_payload (Updated i) = ''update:'' @ int_digits i"

fun inserted_of :: "job_change list \<Rightarrow> JobInsertNotification list" where
  "inserted_of [] = []"
| "inserted_of (Inserted i # cs) = \<lparr>jn_id = i, jn_generate_missing = False, jn_row_id = None, jn_filter = None\<rparr> # inserted_of cs"
| "inserted_of (Updated i # cs) = inserted_of cs"

fun updated_of :: "job_change list \<Rightarrow> JobUpdateNotification list" where
  "updated_of [] = []"
| "updated_of (Inserted i # cs) = updated_of cs"
| "updated_of (Updated i # cs) = \<lparr>un_id = i, un_generate_missing = True\<rparr> # updated_of cs"

definition in_i32 :: "int \<Rightarrow> bool" where
  "in_i32 i \<longleftrightarrow> - (2 ^ 31) \<le> i \<and> i < 2 ^ 31"

lemma split_payload: "CHR '':'' \<notin> set a \<Longrightarrow> split_char (CHR '':'') (a @ CHR '':'' # int_digits i) = [a, int_digits i]"
  by (simp add: split_char_append_sep split_char_no_sep)

lemma job_notification_payload:
  "in_i32 i \<Longrightarrow> job_notification up (''insert:'' @ int_digits i) =
     Push_Insert \<lparr>jn_id = i, jn_generate_missing = False, jn_row_id = None, jn_filter = None\<rparr>"
  "in_i32 i \<Longrightarrow> job_notification True (''update:'' @ int_digits i) = Push_Update \<lparr>un_id = i, un_generate_missing = True\<rparr>"
  using split_payload[of "''insert''" i] split_payload[of "''update''" i] i32_from_str_digits[of i]
  by (simp_all add: job_notification_def in_i32_def)

text \<open>
  C20. Every insertion into the job table and every update of it reaches its queue, in order and
  with its id, through the payloads of the triggers.
\<close>

theorem listener_delivers:
  assumes "\<forall>c \<in> set cs. in_i32 (change_id c)"
  shows "listener_loop True (map (Notification \<circ> change_payload) cs) q =
    (Inr (), q\<lparr>insert_queue := insert_queue q @ inserted_of cs, update_queue := update_queue q @ updated_of cs\<rparr>)"
  using assms
proof (induction cs arbitrary: q)
  case (Cons c cs)
  then show ?case
    by (cases c) (simp_all add: job_notification_payload del: append_Cons)
qed simp

theorem listener_delivers_witness:
  "listener_loop True (map (Notification \<circ> change_payload) [Inserted 12, Updated (- 3), Inserted 7]) \<lparr>insert_queue = [], update_queue = []\<rparr> =
    (Inr (), \<lparr>insert_queue = inserted_of [Inserted 12, Updated (- 3), Inserted 7], update_queue = updated_of [Inserted 12, Updated (- 3), Inserted 7]\<rparr>)"
  using listener_delivers[of "[Inserted 12, Updated (- 3), Inserted 7]" "\<lparr>insert_queue = [], update_queue = []\<rparr>"]
  by (simp add: in_i32_def)

text \<open>A payload whose second part is not a number kills the listener task, and the listener still returns success.\<close>

lemma listener_dies_quietly:
  "i32_from_str (split_char (CHR '':'') p ! 1) = None \<Longrightarrow> 2 \<le> length (split_char (CHR '':'') p) \<Longrightarrow>
   listener_loop up (Notification p # ms) q = (Inl (Panicked ''called `Result::unwrap()` on an `Err` value''), q)"
  by (simp add: job_notification_def)

theorem startup_hook_atomic_witness:
  "\<exists>(body :: rat db_call list) sent s'. startup_hook (\<lambda>_ _. Done 0) ''jobs'' ''id int'' ''public''
      \<lparr>lock_table_name = Some ''locks'', results_table = (None, None), usage_table = (None, None), failure_table = (None, None), migration = None\<rparr>
      ''chan'' \<lparr>trace = []\<rparr> = (Inr (), s')
    \<and> trace s' = Begin # Execute ''SELECT pg_advisory_xact_lock(1337);'' [] # body @ [Commit] \<and> Commit \<notin> set body"
proof -
  let ?t = "\<lparr>lock_table_name = Some ''locks'', results_table = (None, None), usage_table = (None, None), failure_table = (None, None), migration = None\<rparr>"
  let ?p = "startup_hook (\<lambda>_ _. Done 0) ''jobs'' ''id int'' ''public'' ?t ''chan'' :: (rat world, unit) prog"
  have ok: "for_each (do_call (\<lambda>_ _. Done 0)) cs s = (Inr (), s\<lparr>trace := trace s @ cs\<rparr>)" for cs and s :: "rat world"
    by (induction cs arbitrary: s) (simp_all add: seq_ok_iff do_call_ok_iff)
  obtain s' where s': "?p \<lparr>trace = []\<rparr> = (Inr (), s')" unfolding startup_hook_def ok by simp
  show ?thesis using startup_hook_atomic[OF s'] s' by auto
qed

section \<open>Handlers\<close>

lemma notify_after_set:
  "snd (notify_job j msg (snd (set_job_handle j tx s))) =
    s\<lparr>handlers := AList.update j tx (handlers s), hd_sent := hd_sent s @ [(tx, msg)]\<rparr>"
  by (simp add: notify_job_def set_job_handle_def AList.update_conv')

lemma notify_after_remove:
  "distinct (map fst (handlers s)) \<Longrightarrow> hd_sent (snd (notify_job j msg (snd (remove_job_handle j s)))) = hd_sent s"
  by (simp add: notify_job_def remove_job_handle_def AList.delete_conv' split: option.split)

lemma cancel_all_jobs_reaches:
  "(j, tx) \<in> set (handlers s) \<Longrightarrow> (tx, Errored JOB_CANCELLED_MESSAGE) \<in> set (hd_sent (snd (cancel_all_jobs s))) \<and> handlers (snd (cancel_all_jobs s)) = []"
  by (force simp: cancel_all_jobs_def)

end
