(* ===== verification/Embedding_Jobs.thy ===== *)
theory Embedding_Jobs
  imports Daemon_Helpers
begin

text \<open>
  \<^verbatim>\<open>lantern_cli/src/daemon/embedding_jobs.rs\<close>: the jobs as read from the job table, the row locks, the
  streaming of the rows of a job to the embedding worker, the worker, and the treatment of updates of
  the job table. What the embedding pipeline returns for a batch, and what arrives on the channel of a
  job, are arguments: they are decided by other tasks.
\<close>

section \<open>Jobs\<close>

definition EMB_USAGE_TABLE_NAME :: string where
  "EMB_USAGE_TABLE_NAME = ''embedding_usage_info''"

definition EMB_FAILURE_TABLE_NAME :: string where
  "EMB_FAILURE_TABLE_NAME = ''embedding_failure_info''"

definition EMB_LOCK_TABLE_NAME :: string where
  "EMB_LOCK_TABLE_NAME = ''_lantern_emb_job_locks''"

record EmbeddingJob =
  ej_id :: int
  ej_is_init :: bool
  ej_db_uri :: string
  ej_schema :: string
  ej_table :: string
  ej_column :: string
  ej_pk :: string
  ej_filter :: "string option"
  ej_label :: "string option"
  ej_job_type :: EmbeddingJobType
  ej_column_type :: string
  ej_out_column :: string
  ej_model :: string
  ej_runtime_params :: string
  ej_runtime :: Runtime
  ej_batch_size :: "nat option"
  ej_row_ids :: "string list option"

fun value_opt_int :: "'f sql_value \<Rightarrow> int option result" where
  "value_opt_int (SInt i) = Inr (Some i)"
| "value_opt_int SNull = Inr None"
| "value_opt_int _ = Inl wrong_column"

definition get_opt_int :: "nat \<Rightarrow> 'f sql_row \<Rightarrow> int option result" where
  "get_opt_int i row = and_then_r (column i row) value_opt_int"

definition or_else :: "'a option \<Rightarrow> 'a \<Rightarrow> 'a" where
  "or_else x d = (case x of Some v \<Rightarrow> v | None \<Rightarrow> d)"

definition job_query_sql :: "string \<Rightarrow> string" where
  "job_query_sql full_table_name =
    ''SELECT id, pk, label, src_column as '' @ quote_ident ''column'' @ '', dst_column, '' @ quote_ident ''table'' @ '', '' @ quote_ident ''schema'' @
    '', embedding_model as model, runtime, runtime_params::text, init_finished_at, job_type, column_type, batch_size FROM '' @ full_table_name"

text \<open>The columns are those of \<open>job_query_sql\<close>, in its order.\<close>

definition embedding_job_new :: "'f sql_row \<Rightarrow> string \<Rightarrow> string \<Rightarrow> EmbeddingJob result" where
  "embedding_job_new row data_path db_uri =
    and_then_r (get_opt_text 8 row) (\<lambda>rt.
    and_then_r (runtime_from_str (or_else rt ''ort'')) (\<lambda>runtime.
    and_then_r (if runtime = Ort
                then Inr (''{ '' @ quote_ident ''data_path'' @ '': '' @ [dquote] @ data_path @ [dquote] @ '' }'')
                else and_then_r (get_opt_text 9 row) (\<lambda>p. Inr (or_else p ''{}''))) (\<lambda>runtime_params.
    and_then_r (get_opt_int 13 row) (\<lambda>batch_size.
    and_then_r (get_int 0 row) (\<lambda>job_id.
    and_then_r (get_text 1 row) (\<lambda>pk.
    and_then_r (get_opt_text 2 row) (\<lambda>label.
    and_then_r (get_text 6 row) (\<lambda>schema.
    and_then_r (get_text 5 row) (\<lambda>table.
    and_then_r (get_text 3 row) (\<lambda>src_column.
    and_then_r (get_text 4 row) (\<lambda>out_column.
    and_then_r (get_text 7 row) (\<lambda>model.
    and_then_r (get_opt_text 11 row) (\<lambda>jt.
    and_then_r (job_type_try_from (or_else jt ''embedding'')) (\<lambda>job_type.
    and_then_r (get_opt_text 12 row) (\<lambda>column_type.
      Inr \<lparr>ej_id = job_id, ej_is_init = True, ej_db_uri = db_uri, ej_schema = schema, ej_table = table, ej_column = src_column, ej_pk = pk,
           ej_filter = None, ej_label = label, ej_job_type = job_type, ej_column_type = or_else column_type ''REAL[]'',
           ej_out_column = out_column, ej_model = get_clean_model_name model runtime, ej_runtime_params = runtime_params,
           ej_runtime = runtime, ej_batch_size = map_option as_usize batch_size, ej_row_ids = None\<rparr>)))))))))))))))"

definition set_filter :: "string \<Rightarrow> EmbeddingJob \<Rightarrow> EmbeddingJob" where
  "set_filter flt job = job\<lparr>ej_filter := Some flt\<rparr>"

definition set_is_init :: "bool \<Rightarrow> EmbeddingJob \<Rightarrow> EmbeddingJob" where
  "set_is_init is_init job = job\<lparr>ej_is_init := is_init\<rparr>"

definition set_row_ids :: "string list \<Rightarrow> EmbeddingJob \<Rightarrow> EmbeddingJob" where
  "set_row_ids row_ids job = job\<lparr>ej_row_ids := Some row_ids\<rparr>"

definition set_ctid_filter :: "string list \<Rightarrow> EmbeddingJob \<Rightarrow> EmbeddingJob" where
  "set_ctid_filter row_ids job =
    set_filter (''ctid IN ('' @ join '','' (map (\<lambda>r. ''currtid2('' @ sq (ej_table job) @ '','' @ sq r @ ''::tid)'') row_ids) @ '')'') job"

definition set_id_filter :: "string list \<Rightarrow> EmbeddingJob \<Rightarrow> EmbeddingJob" where
  "set_id_filter row_ids job =
    set_filter (''id IN ('' @ join '','' (map quote_literal row_ids) @ '') AND '' @ get_common_embedding_ignore_filters (ej_column job)) job"

section \<open>Row locks\<close>

definition attempt :: "('s, 'a) prog \<Rightarrow> ('s, bool) prog" where
  "attempt m s = (case m s of (Inl _, s') \<Rightarrow> (Inr False, s') | (Inr _, s') \<Rightarrow> (Inr True, s'))"

definition lock_call :: "string \<Rightarrow> int \<Rightarrow> string \<Rightarrow> 'f db_call" where
  "lock_call lock_table job_id row_id =
    Execute (''INSERT INTO '' @ lock_table @ '' (job_id, row_id) VALUES ($1, $2)'') [SInt job_id, SText row_id]"

definition lock_row :: "'f server \<Rightarrow> string \<Rightarrow> int \<Rightarrow> string \<Rightarrow> (('f, 'x) world_scheme, bool) prog" where
  "lock_row srv lock_table job_id row_id = attempt (do_call srv (lock_call lock_table job_id row_id))"

definition lock_rows :: "'f server \<Rightarrow> string \<Rightarrow> int \<Rightarrow> string list \<Rightarrow> (('f, 'x) world_scheme, bool) prog" where
  "lock_rows srv lock_table job_id row_ids =
    attempt (do_call srv (Execute
      (''INSERT INTO '' @ lock_table @ '' (job_id, row_id) VALUES '' @
       join '','' (map (\<lambda>i. ''('' @ int_digits job_id @ '', $'' @ nat_digits (i + 1) @ '')'') [0..<length row_ids]))
      (map SText row_ids)))"

definition unlock_call :: "string \<Rightarrow> int \<Rightarrow> string list \<Rightarrow> 'f db_call" where
  "unlock_call lock_table job_id row_ids =
    Execute (''DELETE FROM '' @ lock_table @ '' WHERE job_id=$'' @ nat_digits (length row_ids + 1) @ '' AND row_id IN ('' @
        join '','' (map (\<lambda>i. CHR ''$'' # nat_digits (i + 1)) [0..<length row_ids]) @ '')'')
      (map SText row_ids @ [SInt job_id])"

definition unlock_rows :: "'f server \<Rightarrow> string \<Rightarrow> int \<Rightarrow> string list \<Rightarrow> (('f, 'x) world_scheme, unit) prog" where
  "unlock_rows srv lock_table job_id row_ids =
    seq (attempt (do_call srv (unlock_call lock_table job_id row_ids))) (return ())"

section \<open>Streaming\<close>

text \<open>
  The state the tasks share: the events and handlers of the daemon, the jobs sent to the worker, the
  client jobs switched on and off, the jobs that wait for a retry, the jobs whose streaming has been
  started, the notifications queued for the insert processor, and the rows collected for each job.
  Channel numbers are the ids of the jobs.
\<close>

record 'f stream = "'f dworld" +
  st_queue :: "EmbeddingJob list"
  st_toggled :: "(int \<times> bool) list"
  st_retries :: "EmbeddingJob list"
  st_streams :: "EmbeddingJob list"
  st_inserts :: "JobInsertNotification list"
  st_batching :: "(int \<times> string list) list"

definition toggle :: "int \<Rightarrow> bool \<Rightarrow> (('f, 'x) stream_scheme, unit) prog" where
  "toggle job_id enable s = (Inr (), s\<lparr>st_toggled := st_toggled s @ [(job_id, enable)]\<rparr>)"

definition send_job :: "EmbeddingJob \<Rightarrow> (('f, 'x) stream_scheme, unit) prog" where
  "send_job job s = (Inr (), s\<lparr>st_queue := st_queue s @ [job]\<rparr>)"

definition init_table :: "string \<Rightarrow> EmbeddingJob \<Rightarrow> string" where
  "init_table schema job = get_full_table_name schema (''job_init_'' @ int_digits (ej_id job))"

definition next_rows_sql :: "string \<Rightarrow> EmbeddingJob \<Rightarrow> string" where
  "next_rows_sql schema job =
    ''DELETE FROM '' @ init_table schema job @ '' WHERE ctid IN (SELECT ctid FROM '' @ init_table schema job @ '' LIMIT '' @
    int_digits (as_i32 (int (or_else (ej_batch_size job) (get_default_batch_size (ej_model job))))) @ '') RETURNING '' @
    quote_ident (ej_pk job) @ ''::text;''"

definition stream_setup_sql :: "string \<Rightarrow> EmbeddingJob \<Rightarrow> string" where
  "stream_setup_sql schema job =
    (let tmp_table_name = init_table schema job; pk = quote_ident (ej_pk job)
     in ''DROP TABLE IF EXISTS '' @ tmp_table_name @ ''; CREATE UNLOGGED TABLE '' @ tmp_table_name @ '' AS (SELECT '' @ pk @ '' FROM '' @
        get_full_table_name (ej_schema job) (ej_table job) @ '' WHERE '' @ ej_out_column job @ '' IS NULL AND '' @
        get_common_embedding_ignore_filters (quote_ident (ej_column job)) @ ''); CREATE INDEX ON '' @ tmp_table_name @ '' ('' @ pk @ '');'')"

definition stream_progress :: "(rat \<Rightarrow> rat) \<Rightarrow> nat \<Rightarrow> nat \<Rightarrow> nat" where
  "stream_progress rnd processed_rows total_rows =
    min 255 (nat \<lfloor>rnd (rnd (rnd (of_nat processed_rows) / rnd (of_nat total_rows)) * 100)\<rfloor>)"

text \<open>
  The loop over the rows. \<open>events k\<close> is what the worker sends for the \<open>k\<close>-th batch; it arrives only
  while the handler of the job is registered, otherwise the channel is closed. \<open>removal = Some k\<close> says
  that the other half of \<^verbatim>\<open>stream_job\<close> removes the handler just before the \<open>k\<close>-th event. The result is
  None when the fuel runs out first.
\<close>

definition received :: "(nat \<Rightarrow> JobEvent) \<Rightarrow> EmbeddingJob \<Rightarrow> nat \<Rightarrow> ('f, 'x) stream_scheme \<Rightarrow> JobEvent option" where
  "received events job k s = (if map_of (handlers s) (ej_id job) = None then None else Some (events k))"

definition removed_at :: "nat option \<Rightarrow> EmbeddingJob \<Rightarrow> nat \<Rightarrow> ('f, 'x) stream_scheme \<Rightarrow> ('f, 'x) stream_scheme" where
  "removed_at removal job k s = (if removal = Some k then snd (remove_job_handle (ej_id job) s) else s)"

definition after_batch ::
  "'f server \<Rightarrow> (rat \<Rightarrow> rat) \<Rightarrow> string \<Rightarrow> EmbeddingJob \<Rightarrow> nat \<Rightarrow> nat \<Rightarrow> nat \<Rightarrow> nat \<Rightarrow> (('f, 'x) stream_scheme, nat \<times> nat) prog" where
  "after_batch srv rnd jobs_table_name job total_rows n processed_rows progress =
    (if \<not> ej_is_init job then return (processed_rows, progress)
     else let processed_rows = processed_rows + n; new_progress = stream_progress rnd processed_rows total_rows
          in if new_progress > progress
             then seq (do_call srv (Execute (''UPDATE '' @ jobs_table_name @ '' SET init_progress='' @ nat_digits new_progress @ '' WHERE id=$1'')
                    [SInt (ej_id job)])) (return (processed_rows, new_progress))
             else return (processed_rows, progress))"

fun stream_loop ::
  "nat \<Rightarrow> 'f server \<Rightarrow> (rat \<Rightarrow> rat) \<Rightarrow> (nat \<Rightarrow> JobEvent) \<Rightarrow> nat option \<Rightarrow> string \<Rightarrow> string \<Rightarrow> EmbeddingJob \<Rightarrow> nat \<Rightarrow>
   nat \<Rightarrow> nat \<Rightarrow> nat \<Rightarrow> ('f, 'x) stream_scheme \<Rightarrow> (unit result \<times> ('f, 'x) stream_scheme) option" where
  "stream_loop 0 srv rnd events removal schema jobs_table_name job total_rows k processed_rows progress s = None"
| "stream_loop (Suc fuel) srv rnd events removal schema jobs_table_name job total_rows k processed_rows progress s =
    (case and_then (query srv (next_rows_sql schema job) []) (\<lambda>rows. lift_r (traverse_r (get_text 0) rows)) s of
       (Inl e, s1) \<Rightarrow> Some (Inl e, s1)
     | (Inr row_ids, s1) \<Rightarrow>
         if row_ids = [] then Some (Inr (), s1)
         else let s2 = removed_at removal job k (snd (send_job (set_id_filter row_ids job) s1))
              in (case received events job k s2 of
                    Some (Errored err) \<Rightarrow> Some (Inl (Bail err), s2)
                  | Some Done_Event \<Rightarrow>
                      (case after_batch srv rnd jobs_table_name job total_rows (length row_ids) processed_rows progress s2 of
                         (Inl e, s3) \<Rightarrow> Some (Inl e, s3)
                       | (Inr (pr, pg), s3) \<Rightarrow>
                           stream_loop fuel srv rnd events removal schema jobs_table_name job total_rows (Suc k) pr pg s3)
                  | None \<Rightarrow> stream_loop fuel srv rnd events removal schema jobs_table_name job total_rows (Suc k) processed_rows progress s2))"

definition stream_task ::
  "nat \<Rightarrow> 'f server \<Rightarrow> (rat \<Rightarrow> rat) \<Rightarrow> (nat \<Rightarrow> JobEvent) \<Rightarrow> nat option \<Rightarrow> string \<Rightarrow> string \<Rightarrow> EmbeddingJob \<Rightarrow>
   ('f, 'x) stream_scheme \<Rightarrow> (unit result \<times> ('f, 'x) stream_scheme) option" where
  "stream_task fuel srv rnd events removal schema jobs_table_name job s =
    (case seq (if ej_is_init job then toggle (ej_id job) True else return ())
         (seq (set_job_handle (ej_id job) (nat (ej_id job)))
         (seq (do_call srv (Connect (ej_db_uri job)))
         (seq (do_call srv (BatchExecute (stream_setup_sql schema job)))
         (and_then (query_one srv (''SELECT COUNT(*) FROM '' @ init_table schema job) []) (\<lambda>total_rows.
            lift_r (get_int 0 total_rows)))))) s of
       (Inl e, s1) \<Rightarrow> Some (Inl e, s1)
     | (Inr total_rows, s1) \<Rightarrow>
         if as_usize total_rows = 0 then Some (Inr (), s1)
         else stream_loop fuel srv rnd events removal schema jobs_table_name job (as_usize total_rows) 0 0 0 s1)"

definition stream_end ::
  "'f server \<Rightarrow> string \<Rightarrow> EmbeddingJob \<Rightarrow> unit result \<Rightarrow> (('f, 'x) stream_scheme, unit) prog" where
  "stream_end srv jobs_table_name job r =
    (case r of
       Inl e \<Rightarrow>
         (if ej_is_init job
          then seq (do_call srv (Execute (''UPDATE '' @ jobs_table_name @
                 '' SET init_failed_at=NOW(), updated_at=NOW(), init_failure_reason=$1 WHERE id=$2 AND init_finished_at IS NULL'')
                 [SText (error_text e), SInt (ej_id job)]))
               (toggle (ej_id job) False)
          else return ())
     | Inr _ \<Rightarrow>
         (if ej_is_init job
          then do_call srv (Execute (''UPDATE '' @ jobs_table_name @ '' SET init_finished_at=NOW(), init_progress=100 WHERE id=$1'') [SInt (ej_id job)])
          else return ()))"

text \<open>\<open>removal = None\<close>: the handler is removed before the task registers it, so the registration stays.\<close>

definition stream_job ::
  "nat \<Rightarrow> 'f server \<Rightarrow> (rat \<Rightarrow> rat) \<Rightarrow> (nat \<Rightarrow> JobEvent) \<Rightarrow> nat option \<Rightarrow> string \<Rightarrow> string \<Rightarrow> EmbeddingJob \<Rightarrow>
   ('f, 'x) stream_scheme \<Rightarrow> (unit result \<times> ('f, 'x) stream_scheme) option" where
  "stream_job fuel srv rnd events removal schema jobs_table_name job s =
    (case stream_task fuel srv rnd events removal schema jobs_table_name job
         (if removal = None then snd (remove_job_handle (ej_id job) s) else s) of
       None \<Rightarrow> None
     | Some (Inl (Panicked m), s1) \<Rightarrow> Some (Inl (Panicked m), s1)
     | Some (r, s1) \<Rightarrow>
         Some (seq (stream_end srv jobs_table_name job r)
                 (do_call srv (Execute (''DROP TABLE IF EXISTS '' @ init_table schema job) [])) s1))"

section \<open>The embedding worker\<close>

definition worker_args :: "string \<Rightarrow> EmbeddingJob \<Rightarrow> EmbeddingArgs" where
  "worker_args schema job =
    \<lparr>ea_model = ej_model job, ea_uri = ej_db_uri job, ea_table = ej_table job, ea_schema = ej_schema job, ea_column = ej_column job,
     ea_pk = ej_pk job, ea_out_uri = Some (ej_db_uri job), ea_out_table = Some (ej_table job), ea_out_column = ej_out_column job,
     ea_batch_size = ej_batch_size job, ea_job_type = Some (ej_job_type job), ea_column_type = Some (ej_column_type job),
     ea_runtime = ej_runtime job, ea_runtime_params = ej_runtime_params job, ea_visual = False, ea_filter = ej_filter job, ea_limit = None,
     ea_stream = True, ea_create_column = False, ea_create_cast_fn = False, ea_check_column_type = (ej_job_type job = Completion),
     ea_internal_schema = schema,
     ea_failed_rows_table = (if ej_job_type job = Completion then Some EMB_FAILURE_TABLE_NAME else None), ea_job_id = ej_id job\<rparr>"

definition schedule_job_retry :: "EmbeddingJob \<Rightarrow> (('f, 'x) stream_scheme, unit) prog" where
  "schedule_job_retry job s = (Inr (), s\<lparr>st_retries := st_retries s @ [job]\<rparr>)"

text \<open>One job of the worker; \<open>result\<close> is the answer of the embedding processor, None when it is gone.\<close>

definition embedding_worker_step ::
  "'f server \<Rightarrow> string \<Rightarrow> EmbeddingJob \<Rightarrow> (nat \<times> nat) result option \<Rightarrow> (('f, 'x) stream_scheme, unit) prog" where
  "embedding_worker_step srv schema job result =
    (let usage_table_name = get_full_table_name schema EMB_USAGE_TABLE_NAME
     in seq (case result of
               None \<Rightarrow> throw (Panicked ''called `Option::unwrap()` on a `None` value'')
             | Some (Inr (processed_rows, spent_tokens)) \<Rightarrow>
                 seq (if spent_tokens > 0
                      then attempt (do_call srv (Execute (''INSERT INTO '' @ usage_table_name @ '' (job_id, rows, tokens) VALUES ($1, $2, $3)'')
                             [SInt (ej_id job), SInt (as_i32 (int processed_rows)), SInt (as_i32 (int spent_tokens))]))
                      else return False)
                 (notify_job (ej_id job) Done_Event)
             | Some (Inl e) \<Rightarrow>
                 seq (if \<not> ej_is_init job
                      then seq (schedule_job_retry job)
                        (attempt (do_call srv (Execute (''INSERT INTO '' @ usage_table_name @ '' (job_id, rows, tokens, failed) VALUES ($1, $2, 0, TRUE)'')
                           [SInt (ej_id job), SInt (as_i32 (int (case ej_row_ids job of Some row_ids \<Rightarrow> length row_ids | None \<Rightarrow> 0)))])))
                      else return False)
                 (notify_job (ej_id job) (Errored (error_text e))))
        (case ej_row_ids job of
           Some row_ids \<Rightarrow> unlock_rows srv (get_full_table_name schema EMB_LOCK_TABLE_NAME) (ej_id job) row_ids
         | None \<Rightarrow> return ()))"

section \<open>Job notifications\<close>

definition collect_pending_jobs :: "'f server \<Rightarrow> string \<Rightarrow> (('f, 'x) world_scheme, JobUpdateNotification list) prog" where
  "collect_pending_jobs srv table =
    and_then (query srv (''SELECT id FROM '' @ table @ '' WHERE init_failed_at IS NULL and canceled_at IS NULL ORDER BY id'') []) (\<lambda>rows.
      lift_r (traverse_r (\<lambda>row. and_then_r (get_int 0 row) (\<lambda>i. Inr \<lparr>un_id = i, un_generate_missing = True\<rparr>)) rows))"

definition execute_count :: "'f server \<Rightarrow> 'f db_call \<Rightarrow> (('f, 'x) world_scheme, nat) prog" where
  "execute_count srv c = and_then (call srv c) (\<lambda>r. case r of Done n \<Rightarrow> return n | _ \<Rightarrow> return 0)"

definition start_stream :: "EmbeddingJob \<Rightarrow> (('f, 'x) stream_scheme, unit) prog" where
  "start_stream job s = (Inr (), s\<lparr>st_streams := st_streams s @ [job]\<rparr>)"

text \<open>A notification about a job: a job that cannot be read, or that another daemon has claimed, is passed over.\<close>

definition insert_job ::
  "'f server \<Rightarrow> string \<Rightarrow> string \<Rightarrow> string \<Rightarrow> string \<Rightarrow> JobInsertNotification \<Rightarrow> EmbeddingJob \<Rightarrow> bool \<Rightarrow> (('f, 'x) stream_scheme, unit) prog" where
  "insert_job srv full_table_name daemon_label data_path db_uri notification job is_init =
    (if or_else (ej_label job) [] \<noteq> daemon_label then return ()
     else and_then (if is_init
             then execute_count srv (Execute (''UPDATE '' @ full_table_name @ '' SET init_started_at=NOW() WHERE init_started_at IS NULL AND id=$1'')
                    [SInt (jn_id notification)])
             else return 1) (\<lambda>updated_count.
          if is_init \<and> updated_count = 0 \<and> \<not> jn_generate_missing notification then return ()
          else let job = set_is_init is_init job
               in start_stream (case jn_filter notification of Some flt \<Rightarrow> set_filter flt job | None \<Rightarrow> job)))"

definition job_insert_step ::
  "'f server \<Rightarrow> string \<Rightarrow> string \<Rightarrow> string \<Rightarrow> string \<Rightarrow> JobInsertNotification \<Rightarrow> (('f, 'x) stream_scheme, unit) prog" where
  "job_insert_step srv full_table_name daemon_label data_path db_uri notification s =
    (case query_one srv (job_query_sql full_table_name @ '' WHERE id=$1 AND canceled_at IS NULL'') [SInt (jn_id notification)] s of
       (Inl _, s1) \<Rightarrow> (Inr (), s1)
     | (Inr row, s1) \<Rightarrow>
         (case get_time_set 10 row of
            Inl e \<Rightarrow> (Inl e, s1)
          | Inr finished \<Rightarrow>
              (case embedding_job_new row data_path db_uri of
                 Inl (Panicked m) \<Rightarrow> (Inl (Panicked m), s1)
               | Inl _ \<Rightarrow> (Inr (), s1)
               | Inr job \<Rightarrow> insert_job srv full_table_name daemon_label data_path db_uri notification job (\<not> finished) s1)))"

definition update_query_sql :: "string \<Rightarrow> string" where
  "update_query_sql full_table_name =
    ''SELECT pk, label, dst_column, src_column as '' @ quote_ident ''column'' @ '', '' @ quote_ident ''table'' @ '', '' @ quote_ident ''schema'' @
    '', canceled_at, init_finished_at FROM '' @ full_table_name @ '' WHERE id=$1''"

definition push_insert :: "JobInsertNotification \<Rightarrow> (('f, 'x) stream_scheme, unit) prog" where
  "push_insert n s = (Inr (), s\<lparr>st_inserts := st_inserts s @ [n]\<rparr>)"

definition forget_rows :: "int \<Rightarrow> (('f, 'x) stream_scheme, unit) prog" where
  "forget_rows job_id s = (Inr (), s\<lparr>st_batching := AList.delete job_id (st_batching s)\<rparr>)"

definition job_update_step ::
  "'f server \<Rightarrow> string \<Rightarrow> string \<Rightarrow> JobUpdateNotification \<Rightarrow> (('f, 'x) stream_scheme, unit) prog" where
  "job_update_step srv full_table_name daemon_label notification =
    (let job_id = un_id notification
     in and_then (query_one srv (update_query_sql full_table_name) [SInt job_id]) (\<lambda>row.
        and_then (lift_r (get_text 3 row)) (\<lambda>src_column.
        and_then (lift_r (get_text 2 row)) (\<lambda>out_column.
        and_then (lift_r (get_time_set 6 row)) (\<lambda>canceled.
        and_then (lift_r (get_time_set 7 row)) (\<lambda>finished.
        and_then (lift_r (get_opt_text 1 row)) (\<lambda>label.
        let matching = (or_else label [] = daemon_label)
        in seq (if finished \<and> matching
                then seq (lift_r (traverse_r (\<lambda>i. get_text i row) [0, 3, 2, 4, 5])) (toggle job_id (\<not> canceled))
                else if canceled \<or> \<not> matching
                then seq (notify_job job_id (Errored JOB_CANCELLED_MESSAGE)) (if canceled then forget_rows job_id else return ())
                else return ())
           (if \<not> canceled \<and> un_generate_missing notification \<and> matching
            then push_insert \<lparr>jn_id = job_id, jn_generate_missing = True, jn_row_id = None,
                   jn_filter = Some (get_missing_rows_filter src_column out_column)\<rparr>
            else return ()))))))))"

section \<open>The data directory\<close>

datatype mkdir_result = Created | Already_Exists | Mkdir_Error string

definition create_data_path :: "(string \<Rightarrow> bool) \<Rightarrow> (string \<Rightarrow> mkdir_result) \<Rightarrow> string option \<Rightarrow> string result" where
  "create_data_path path_exists create_dir data_path =
    (let tmp_path = ''/tmp/lantern-daemon''; data_path = or_else data_path ''/var/lib/lantern-daemon''
     in if path_exists data_path then Inr data_path
        else if create_dir data_path = Created then Inr data_path
        else if path_exists tmp_path then Inr tmp_path
        else (case create_dir tmp_path of
                Mkdir_Error e \<Rightarrow> Inl (IoError e)
              | _ \<Rightarrow> Inr tmp_path))"

section \<open>A job streams its whole table\<close>

text \<open>
  What the database promises: the query for the next rows returns the batches one after the other and
  then nothing, the count is the number of rows, and no statement fails.
\<close>

definition asked :: "string \<Rightarrow> 'f db_call list \<Rightarrow> nat" where
  "asked q t = length (filter (\<lambda>c. c = Query q []) t)"

definition serves_batches :: "'f server \<Rightarrow> string \<Rightarrow> EmbeddingJob \<Rightarrow> string list list \<Rightarrow> bool" where
  "serves_batches srv schema job batches \<longleftrightarrow>
    (\<forall>t. srv t (Query (next_rows_sql schema job) []) =
       Rows (let k = asked (next_rows_sql schema job) t in if k < length batches then map (\<lambda>r. [SText r]) (batches ! k) else []))
    \<and> (\<forall>t. srv t (QueryOne (''SELECT COUNT(*) FROM '' @ init_table schema job) []) = Rows [[SInt (int (length (concat batches)))]])
    \<and> (\<forall>t c e. srv t c \<noteq> DbError e)"

lemma asked_append [simp]: "asked q (t @ u) = asked q t + asked q u"
  by (simp add: asked_def)

lemma asked_other [simp]: "c \<noteq> Query q [] \<Longrightarrow> asked q [c] = 0" "asked q [Query q []] = 1"
  by (simp_all add: asked_def)

lemma get_text_rows: "traverse_r (get_text 0) (map (\<lambda>r. [SText r]) rs) = Inr rs"
  by (induction rs) (simp_all add: get_text_def column_def)

lemma next_rows:
  assumes "serves_batches srv schema job batches"
  shows "and_then (query srv (next_rows_sql schema job) []) (\<lambda>rows. lift_r (traverse_r (get_text 0) rows)) s =
    (Inr (let k = asked (next_rows_sql schema job) (trace s) in if k < length batches then batches ! k else []),
     s\<lparr>trace := trace s @ [Query (next_rows_sql schema job) []]\<rparr>)"
  using assms by (simp add: serves_batches_def query_def call_def and_then_def Let_def get_text_rows)

lemma after_batch_ok:
  assumes "serves_batches srv schema job batches"
  shows "\<exists>pr pg t. after_batch srv rnd jt job total_rows n p g s = (Inr (pr, pg), s\<lparr>trace := trace s @ t\<rparr>)
    \<and> asked (next_rows_sql schema job) t = 0"
proof -
  have "do_call srv c s = (Inr (), s\<lparr>trace := trace s @ [c]\<rparr>)" for c
    using assms by (simp add: do_call_ok_iff serves_batches_def)
  moreover have "\<exists>t. s = s\<lparr>trace := trace s @ t\<rparr> \<and> asked (next_rows_sql schema job) t = 0"
    by (intro exI[of _ "[]"]) (simp add: asked_def)
  ultimately show ?thesis by (auto simp: after_batch_def Let_def seq_ok)
qed

text \<open>No failure of the worker is seen: the handler is gone, or the worker reports success.\<close>

definition no_failure_seen :: "(nat \<Rightarrow> JobEvent) \<Rightarrow> nat option \<Rightarrow> nat \<Rightarrow> bool" where
  "no_failure_seen events removal n \<longleftrightarrow>
    (\<forall>k < n. (case removal of Some m \<Rightarrow> k < m | None \<Rightarrow> True) \<longrightarrow> events k = Done_Event)"

definition handler_gone :: "nat option \<Rightarrow> nat \<Rightarrow> bool" where
  "handler_gone removal k \<longleftrightarrow> (case removal of Some m \<Rightarrow> m < k | None \<Rightarrow> False)"

lemma stream_loop_all:
  assumes srv: "serves_batches srv schema job batches" and ne: "[] \<notin> set batches"
    and ok: "no_failure_seen events removal (length batches)"
    and k: "asked (next_rows_sql schema job) (trace s) = k" "k \<le> length batches" "length batches < fuel + k"
    and gone: "handler_gone removal k \<Longrightarrow> map_of (handlers s) (ej_id job) = None"
    and uniq: "distinct (map fst (handlers s))"
  shows "\<exists>s'. stream_loop fuel srv rnd events removal schema jt job total_rows k p g s = Some (Inr (), s')
    \<and> st_queue s' = st_queue s @ map (\<lambda>b. set_id_filter b job) (drop k batches) \<and> st_toggled s' = st_toggled s"
  using k gone uniq
proof (induction fuel arbitrary: k p g s)
  case (Suc fuel)
  let ?q = "next_rows_sql schema job"
  let ?s1 = "s\<lparr>trace := trace s @ [Query ?q []]\<rparr>"
  show ?case
  proof (cases "k < length batches")
    case False
    then show ?thesis using Suc.prems(1,2) by (simp add: next_rows[OF srv])
  next
    case True
    define b where "b = batches ! k"
    have b: "b \<noteq> []" using ne True unfolding b_def by (metis nth_mem)
    define s2 where "s2 = removed_at removal job k (snd (send_job (set_id_filter b job) ?s1))"
    have s2: "st_queue s2 = st_queue s @ [set_id_filter b job]" "asked ?q (trace s2) = Suc k" "st_toggled s2 = st_toggled s"
      "distinct (map fst (handlers s2))"
      using Suc.prems(1,5) by (auto simp: s2_def removed_at_def send_job_def remove_job_handle_def distinct_delete)
    have gone2: "handler_gone removal (Suc k) \<Longrightarrow> map_of (handlers s2) (ej_id job) = None"
      using Suc.prems(4)
      by (cases removal) (auto simp: s2_def removed_at_def send_job_def remove_job_handle_def handler_gone_def less_Suc_eq AList.delete_conv')
    have step: "stream_loop (Suc fuel) srv rnd events removal schema jt job total_rows k p g s =
        (case received events job k s2 of
           Some (Errored err) \<Rightarrow> Some (Inl (Bail err), s2)
         | Some Done_Event \<Rightarrow>
             (case after_batch srv rnd jt job total_rows (length b) p g s2 of
                (Inl e, s3) \<Rightarrow> Some (Inl e, s3)
              | (Inr (pr, pg), s3) \<Rightarrow> stream_loop fuel srv rnd events removal schema jt job total_rows (Suc k) pr pg s3)
         | None \<Rightarrow> stream_loop fuel srv rnd events removal schema jt job total_rows (Suc k) p g s2)"
      using Suc.prems(1) True b unfolding s2_def b_def by (simp add: next_rows[OF srv] Let_def)
    have drop: "drop k batches = b # drop (Suc k) batches" using True by (simp add: b_def Cons_nth_drop_Suc)
    have fuel: "Suc k \<le> length batches" "length batches < fuel + Suc k" using True Suc.prems(3) by auto
    show ?thesis
    proof (cases "map_of (handlers s2) (ej_id job) = None")
      case none: True
      then have "received events job k s2 = None" by (simp add: received_def)
      with Suc.IH[OF s2(2) fuel gone2 s2(4), of p g] show ?thesis unfolding step by (auto simp: s2 drop)
    next
      case here: False
      have "\<not> handler_gone removal (Suc k)" using here gone2 by auto
      then have "events k = Done_Event" using ok True
        by (cases removal) (auto simp: no_failure_seen_def handler_gone_def not_less less_Suc_eq_le)
      then have rec: "received events job k s2 = Some Done_Event" using here by (simp add: received_def)
      obtain pr pg t where ab: "after_batch srv rnd jt job total_rows (length b) p g s2 = (Inr (pr, pg), s2\<lparr>trace := trace s2 @ t\<rparr>)"
        and t: "asked ?q t = 0" using after_batch_ok[OF srv] by blast
      have k3: "asked ?q (trace (s2\<lparr>trace := trace s2 @ t\<rparr>)) = Suc k" using s2(2) t by simp
      from Suc.IH[OF k3 fuel, of pr pg] gone2 s2(4) show ?thesis unfolding step rec ab by (auto simp: s2 drop)
    qed
  qed
qed simp

definition finished_call :: "string \<Rightarrow> EmbeddingJob \<Rightarrow> 'f db_call" where
  "finished_call jobs_table_name job =
    Execute (''UPDATE '' @ jobs_table_name @ '' SET init_finished_at=NOW(), init_progress=100 WHERE id=$1'') [SInt (ej_id job)]"

definition failed_call :: "string \<Rightarrow> EmbeddingJob \<Rightarrow> string \<Rightarrow> 'f db_call" where
  "failed_call jobs_table_name job reason =
    Execute (''UPDATE '' @ jobs_table_name @
      '' SET init_failed_at=NOW(), updated_at=NOW(), init_failure_reason=$1 WHERE id=$2 AND init_finished_at IS NULL'')
      [SText reason, SInt (ej_id job)]"

definition drop_call :: "string \<Rightarrow> EmbeddingJob \<Rightarrow> 'f db_call" where
  "drop_call schema job = Execute (''DROP TABLE IF EXISTS '' @ init_table schema job) []"

text \<open>A database that keeps that promise, a job and an idle daemon, for the examples.\<close>

definition batch_server :: "string \<Rightarrow> EmbeddingJob \<Rightarrow> string list list \<Rightarrow> 'f server" where
  "batch_server schema job batches t c =
    (if c = Query (next_rows_sql schema job) []
     then Rows (let k = asked (next_rows_sql schema job) t in if k < length batches then map (\<lambda>r. [SText r]) (batches ! k) else [])
     else if c = QueryOne (''SELECT COUNT(*) FROM '' @ init_table schema job) [] then Rows [[SInt (int (length (concat batches)))]]
     else Done 0)"

definition sample_job :: EmbeddingJob where
  "sample_job = \<lparr>ej_id = 7, ej_is_init = True, ej_db_uri = ''postgres://h/db'', ej_schema = ''public'', ej_table = ''articles'',
     ej_column = ''body'', ej_pk = ''id'', ej_filter = None, ej_label = None, ej_job_type = EmbeddingGeneration, ej_column_type = ''REAL[]'',
     ej_out_column = ''vec'', ej_model = ''m'', ej_runtime_params = ''{}'', ej_runtime = Ort, ej_batch_size = Some 2, ej_row_ids = None\<rparr>"

definition idle_stream :: "bool stream" where
  "idle_stream = \<lparr>trace = [], handlers = [], hd_sent = [], st_queue = [], st_toggled = [], st_retries = [], st_streams = [],
     st_inserts = [], st_batching = []\<rparr>"

lemma batch_server_serves: "serves_batches (batch_server schema job batches) schema job batches"
  by (simp add: serves_batches_def batch_server_def)

lemma stream_setup:
  assumes srv: "serves_batches srv schema job batches" and init: "ej_is_init job"
  shows "\<exists>t. seq (if ej_is_init job then toggle (ej_id job) True else return ())
         (seq (set_job_handle (ej_id job) (nat (ej_id job)))
         (seq (do_call srv (Connect (ej_db_uri job)))
         (seq (do_call srv (BatchExecute (stream_setup_sql schema job)))
         (and_then (query_one srv (''SELECT COUNT(*) FROM '' @ init_table schema job) []) (\<lambda>total_rows.
            lift_r (get_int 0 total_rows)))))) s =
      (Inr (int (length (concat batches))), s\<lparr>st_toggled := st_toggled s @ [(ej_id job, True)],
         handlers := AList.update (ej_id job) (nat (ej_id job)) (handlers s), trace := trace s @ t\<rparr>)
    \<and> asked (next_rows_sql schema job) t = 0"
proof -
  let ?q = "''SELECT COUNT(*) FROM '' @ init_table schema job"
  let ?t = "[Connect (ej_db_uri job), BatchExecute (stream_setup_sql schema job), QueryOne ?q []]"
  have do_ok: "do_call srv c w = (Inr (), w\<lparr>trace := trace w @ [c]\<rparr>)" for c and w :: "('a, 'b) stream_scheme"
    using srv by (simp add: do_call_ok_iff serves_batches_def)
  have "srv u (QueryOne ?q []) = Rows [[SInt (int (length (concat batches)))]]" for u
    using srv unfolding serves_batches_def by blast
  then have count: "query_one srv ?q [] w = (Inr [SInt (int (length (concat batches)))], w\<lparr>trace := trace w @ [QueryOne ?q []]\<rparr>)"
    for w :: "('a, 'b) stream_scheme"
    unfolding query_one_def by (simp only: and_then_def call_def) simp
  have get: "get_int 0 [SInt n] = Inr n" for n :: int and f :: 'a by (simp add: get_int_def column_def)
  show ?thesis
    by (intro exI[of _ ?t])
      (simp only: init if_True seq_ok_iff and_then_ok_iff toggle_def set_job_handle_def do_ok count lift_r_apply get, simp add: asked_def get_int_def column_def)
qed

lemma stream_job_finished:
  assumes srv: "serves_batches srv schema job batches" and ne: "[] \<notin> set batches" "batches \<noteq> []" "length (concat batches) < 2 ^ 64"
    and ok: "no_failure_seen events removal (length batches)" and init: "ej_is_init job"
    and s: "asked (next_rows_sql schema job) (trace s) = 0" "distinct (map fst (handlers s))" and fuel: "length batches < fuel"
  shows "\<exists>s' t. stream_job fuel srv rnd events removal schema jobs_table_name job s = Some (Inr (), s')
    \<and> st_queue s' = st_queue s @ map (\<lambda>b. set_id_filter b job) batches
    \<and> st_toggled s' = st_toggled s @ [(ej_id job, True)]
    \<and> trace s' = t @ [finished_call jobs_table_name job, drop_call schema job]"
proof -
  define s0 where "s0 = (if removal = None then snd (remove_job_handle (ej_id job) s) else s)"
  have s0: "asked (next_rows_sql schema job) (trace s0) = 0" "distinct (map fst (handlers s0))" "st_queue s0 = st_queue s" "st_toggled s0 = st_toggled s"
    using s by (auto simp: s0_def remove_job_handle_def distinct_delete)
  obtain t where prep: "seq (if ej_is_init job then toggle (ej_id job) True else return ())
         (seq (set_job_handle (ej_id job) (nat (ej_id job)))
         (seq (do_call srv (Connect (ej_db_uri job)))
         (seq (do_call srv (BatchExecute (stream_setup_sql schema job)))
         (and_then (query_one srv (''SELECT COUNT(*) FROM '' @ init_table schema job) []) (\<lambda>total_rows.
            lift_r (get_int 0 total_rows)))))) s0 =
      (Inr (int (length (concat batches))), s0\<lparr>st_toggled := st_toggled s0 @ [(ej_id job, True)],
         handlers := AList.update (ej_id job) (nat (ej_id job)) (handlers s0), trace := trace s0 @ t\<rparr>)"
    and t: "asked (next_rows_sql schema job) t = 0" using stream_setup[OF srv init] by blast
  let ?s1 = "s0\<lparr>st_toggled := st_toggled s0 @ [(ej_id job, True)],
         handlers := AList.update (ej_id job) (nat (ej_id job)) (handlers s0), trace := trace s0 @ t\<rparr>"
  have "concat batches \<noteq> []" using ne(1,2) by (cases batches) auto
  then have tot: "as_usize (int (length (concat batches))) \<noteq> 0" using ne(3) by simp
  have dist1: "distinct (map fst (handlers ?s1))" using s0(2) by (simp add: distinct_update)
  have fuel0: "length batches < fuel + 0" and asked0: "asked (next_rows_sql schema job) (trace ?s1) = 0" using fuel s0(1) t by auto
  have gone0: "handler_gone removal 0 \<Longrightarrow> map_of (handlers ?s1) (ej_id job) = None" by (simp add: handler_gone_def split: option.splits)
  obtain s2 where loop: "stream_loop fuel srv rnd events removal schema jobs_table_name job (as_usize (int (length (concat batches)))) 0 0 0 ?s1 = Some (Inr (), s2)"
    and s2: "st_queue s2 = st_queue ?s1 @ map (\<lambda>b. set_id_filter b job) (drop 0 batches)" "st_toggled s2 = st_toggled ?s1"
    using stream_loop_all[OF srv ne(1) ok asked0 le0 fuel0 gone0 dist1] by blast
  have task: "stream_task fuel srv rnd events removal schema jobs_table_name job s0 = Some (Inr (), s2)"
    unfolding stream_task_def prep using tot loop by simp
  have do_ok: "do_call srv c w = (Inr (), w\<lparr>trace := trace w @ [c]\<rparr>)" for c and w :: "('a, 'b) stream_scheme"
    using srv by (simp add: do_call_ok_iff serves_batches_def)
  have "stream_job fuel srv rnd events removal schema jobs_table_name job s =
      Some (Inr (), s2\<lparr>trace := (trace s2 @ [finished_call jobs_table_name job]) @ [drop_call schema job]\<rparr>)"
    unfolding stream_job_def s0_def[symmetric] task
    by (simp add: stream_end_def init seq_ok do_ok finished_call_def drop_call_def)
  then show ?thesis using s2 s0(3,4) by auto
qed



text \<open>
  When the handler of the job is removed after the streaming task has registered it, a job all of
  whose batches fail is marked as finished all the same.
\<close>

theorem stream_job_ignores_failures:
  assumes "serves_batches srv schema job batches" "[] \<notin> set batches" "batches \<noteq> []" "length (concat batches) < 2 ^ 64"
    and "ej_is_init job" "asked (next_rows_sql schema job) (trace s) = 0" "distinct (map fst (handlers s))" "length batches < fuel"
  shows "\<exists>s' t. stream_job fuel srv rnd (\<lambda>k. Errored err) (Some 0) schema jobs_table_name job s = Some (Inr (), s')
    \<and> trace s' = t @ [finished_call jobs_table_name job, drop_call schema job]"
proof -
  have "no_failure_seen (\<lambda>k. Errored err) (Some 0) (length batches)" by (simp add: no_failure_seen_def)
  from stream_job_finished[OF assms(1-4) this assms(5-8)] show ?thesis by blast
qed

theorem stream_job_ignores_failures_witness:
  "\<exists>s' t. stream_job 3 (batch_server ''l'' sample_job [[''1'', ''2''], [''3'']]) (\<lambda>x. x) (\<lambda>k. Errored ''no quota'') (Some 0) ''l'' ''jobs''
      sample_job idle_stream = Some (Inr (), s')
    \<and> trace s' = t @ [finished_call ''jobs'' sample_job, drop_call ''l'' sample_job]"
  using stream_job_ignores_failures[OF batch_server_serves[of "''l''" sample_job "[[''1'', ''2''], [''3'']]"],
      of idle_stream 3 "\<lambda>x. x" "''no quota''" "''jobs''"]
  by (simp add: idle_stream_def sample_job_def asked_def)

section \<open>The worker settles every batch\<close>

lemma seq_assoc: "seq (seq a b) c = seq a (seq b c)"
  by (auto simp: fun_eq_iff seq_def and_then_def split: prod.splits sum.splits)

lemma attempt_do_call: "\<exists>b t. attempt (do_call srv c) s = (Inr b, s\<lparr>trace := trace s @ t\<rparr>) \<and> t = [c]"
  by (cases "srv (trace s) c") (auto simp: attempt_def do_call_def call_def prog_simps)

lemma attempt_do_call_trace: "\<exists>b. attempt (do_call srv c) s = (Inr b, s\<lparr>trace := trace s @ [c]\<rparr>)"
  using attempt_do_call by blast



end
