(* ===== verification/Row_Batching.thy ===== *)
theory Row_Batching
  imports Embedding_Jobs "HOL-Library.Multiset"
begin

text \<open>
  The path of a changed row through \<^verbatim>\<open>lantern_cli/src/daemon/embedding_jobs.rs\<close>: the notification, the
  lock, the batching map, the collector, the channel to the embedding worker, the worker, the retry.
  The tasks interleave, so the path is a step relation on the rows at each stage. The specification is
  a bag of waiting rows; the steps refine it.
\<close>

section \<open>The tasks\<close>

type_synonym row_key = "int \<times> string"
type_synonym row_map = "(int \<times> string list) list"

text \<open>
  The lock table holds the locks of this daemon and those of the others. \<open>rb_announced\<close>, \<open>rb_served\<close>,
  \<open>rb_dropped\<close> and \<open>rb_failures\<close> record what has happened: the rows announced, the rows of the batches the
  processor has answered with success, the rows passed over or lost with a message in the log, and the
  number of failed batches.
\<close>

record batching =
  rb_pending :: "row_key list"
  rb_locking :: "row_key list"
  rb_locked :: "row_key list"
  rb_map :: row_map
  rb_collecting :: row_map
  rb_sending :: "EmbeddingJob list"
  rb_queue :: "EmbeddingJob list"
  rb_working :: "EmbeddingJob option"
  rb_retries :: "EmbeddingJob list"
  rb_locks :: "row_key list"
  rb_foreign :: "row_key list"
  rb_announced :: "row_key list"
  rb_served :: "row_key list"
  rb_dropped :: "row_key list"
  rb_failures :: nat

definition job_rows :: "EmbeddingJob \<Rightarrow> row_key list" where
  "job_rows job = map (Pair (ej_id job)) (or_else (ej_row_ids job) [])"

definition map_rows :: "row_map \<Rightarrow> row_key list" where
  "map_rows m = concat (map (\<lambda>(j, rs). map (Pair j) rs) m)"

definition extend_rows :: "int \<Rightarrow> string list \<Rightarrow> row_map \<Rightarrow> row_map" where
  "extend_rows j rs m = (case map_of m j of Some v \<Rightarrow> AList.update j (v @ rs) m | None \<Rightarrow> (j, rs) # m)"

text \<open>The notification of a row: a task of its own locks it.\<close>

definition row_received :: "row_key \<Rightarrow> batching \<Rightarrow> batching" where
  "row_received k s = s\<lparr>rb_pending := remove1 k (rb_pending s), rb_locking := k # rb_locking s\<rparr>"

definition row_lock_ok :: "row_key \<Rightarrow> batching \<Rightarrow> batching" where
  "row_lock_ok k s = s\<lparr>rb_locking := remove1 k (rb_locking s), rb_locked := k # rb_locked s, rb_locks := k # rb_locks s\<rparr>"

definition row_lock_failed :: "row_key \<Rightarrow> batching \<Rightarrow> batching" where
  "row_lock_failed k s = s\<lparr>rb_locking := remove1 k (rb_locking s), rb_dropped := k # rb_dropped s\<rparr>"

definition batch_row :: "row_key \<Rightarrow> batching \<Rightarrow> batching" where
  "batch_row k s = s\<lparr>rb_locked := remove1 k (rb_locked s), rb_map := extend_rows (fst k) [snd k] (rb_map s)\<rparr>"

text \<open>The collector.\<close>

definition drain_map :: "batching \<Rightarrow> batching" where
  "drain_map s = s\<lparr>rb_collecting := rb_map s, rb_map := []\<rparr>"

definition collect_failed :: "batching \<Rightarrow> batching" where
  "collect_failed s =
    (case rb_collecting s of
       [] \<Rightarrow> s
     | (j, ids) # rest \<Rightarrow> s\<lparr>rb_collecting := rest, rb_dropped := map (Pair j) ids @ rb_dropped s\<rparr>)"

definition split_batch :: "nat \<Rightarrow> string list \<Rightarrow> string list \<times> string list" where
  "split_batch max_batch_size ids =
    (if length ids > max_batch_size then (take (max_batch_size - 1) ids, drop (max_batch_size - 1) ids) else (ids, []))"

definition rows_job :: "EmbeddingJob \<Rightarrow> string list \<Rightarrow> EmbeddingJob" where
  "rows_job job ids = set_row_ids ids (set_id_filter ids (set_is_init False job))"

definition collect_job :: "EmbeddingJob \<Rightarrow> batching \<Rightarrow> batching" where
  "collect_job job s =
    (case rb_collecting s of
       [] \<Rightarrow> s
     | (j, row_ids) # rest \<Rightarrow>
         (let max_batch_size = get_default_batch_size (ej_model job);
              (ids, extra_ids) = split_batch max_batch_size row_ids
          in s\<lparr>rb_collecting := rest,
               rb_map := (if length row_ids > max_batch_size then extend_rows j extra_ids (rb_map s) else rb_map s),
               rb_sending := rows_job job ids # rb_sending s\<rparr>))"

text \<open>The channel, of capacity one, and the worker.\<close>

definition send_batch :: "EmbeddingJob \<Rightarrow> batching \<Rightarrow> batching" where
  "send_batch job s = s\<lparr>rb_sending := remove1 job (rb_sending s), rb_queue := rb_queue s @ [job]\<rparr>"

definition send_failed :: "EmbeddingJob \<Rightarrow> batching \<Rightarrow> batching" where
  "send_failed job s = s\<lparr>rb_sending := remove1 job (rb_sending s), rb_dropped := job_rows job @ rb_dropped s\<rparr>"

definition send_retry :: "EmbeddingJob \<Rightarrow> batching \<Rightarrow> batching" where
  "send_retry job s = s\<lparr>rb_retries := remove1 job (rb_retries s), rb_queue := rb_queue s @ [job]\<rparr>"

definition send_retry_failed :: "EmbeddingJob \<Rightarrow> batching \<Rightarrow> batching" where
  "send_retry_failed job s = s\<lparr>rb_retries := remove1 job (rb_retries s), rb_dropped := job_rows job @ rb_dropped s\<rparr>"

definition work_start :: "batching \<Rightarrow> batching" where
  "work_start s = (case rb_queue s of [] \<Rightarrow> s | job # rest \<Rightarrow> s\<lparr>rb_queue := rest, rb_working := Some job\<rparr>)"

text \<open>The rows of a batch are deleted from the lock table, whoever has locked them; the statement may fail.\<close>

definition release :: "bool \<Rightarrow> EmbeddingJob \<Rightarrow> batching \<Rightarrow> batching" where
  "release ok job s =
    (if ok then s\<lparr>rb_locks := filter (\<lambda>k. k \<notin> set (job_rows job)) (rb_locks s), rb_foreign := filter (\<lambda>k. k \<notin> set (job_rows job)) (rb_foreign s)\<rparr>
     else s)"

definition work_done :: "bool \<Rightarrow> batching \<Rightarrow> batching" where
  "work_done ok s =
    (case rb_working s of
       None \<Rightarrow> s
     | Some job \<Rightarrow> release ok job (s\<lparr>rb_working := None, rb_served := job_rows job @ rb_served s\<rparr>))"

definition work_failed :: "bool \<Rightarrow> batching \<Rightarrow> batching" where
  "work_failed ok s =
    (case rb_working s of
       None \<Rightarrow> s
     | Some job \<Rightarrow> release ok job
         (if ej_is_init job then s\<lparr>rb_working := None, rb_failures := rb_failures s + 1\<rparr>
          else s\<lparr>rb_working := None, rb_retries := job # rb_retries s, rb_failures := rb_failures s + 1\<rparr>))"

text \<open>The cancellation of a job takes its rows out of the map.\<close>

definition cancel_rows :: "int \<Rightarrow> batching \<Rightarrow> batching" where
  "cancel_rows j s = s\<lparr>rb_map := AList.delete j (rb_map s), rb_dropped := map_rows (filter (\<lambda>e. fst e = j) (rb_map s)) @ rb_dropped s\<rparr>"

text \<open>
  Another daemon unlocks the rows it has locked. Once a batch of its own has failed, it has released the rows of the
  batch and deletes them from the lock table again after the retry, whoever has locked them in between.
\<close>

inductive bstep :: "batching \<Rightarrow> batching \<Rightarrow> bool" where
  announce: "bstep s (s\<lparr>rb_pending := rb_pending s @ [k], rb_announced := k # rb_announced s\<rparr>)"
| receive: "rb_pending s = k # rest \<Longrightarrow> bstep s (row_received k s)"
| lock_ok: "k \<in> set (rb_locking s) \<Longrightarrow> k \<notin> set (rb_locks s) \<Longrightarrow> k \<notin> set (rb_foreign s) \<Longrightarrow> bstep s (row_lock_ok k s)"
| lock_failed: "k \<in> set (rb_locking s) \<Longrightarrow> bstep s (row_lock_failed k s)"
| batch: "k \<in> set (rb_locked s) \<Longrightarrow> bstep s (batch_row k s)"
| drain: "rb_collecting s = [] \<Longrightarrow> bstep s (drain_map s)"
| collect_failed: "bstep s (collect_failed s)"
| collect: "rb_collecting s = (j, ids) # rest \<Longrightarrow> ej_id job = j \<Longrightarrow> bstep s (collect_job job s)"
| send: "job \<in> set (rb_sending s) \<Longrightarrow> rb_queue s = [] \<Longrightarrow> bstep s (send_batch job s)"
| send_failed: "job \<in> set (rb_sending s) \<Longrightarrow> bstep s (send_failed job s)"
| retry: "job \<in> set (rb_retries s) \<Longrightarrow> rb_queue s = [] \<Longrightarrow> bstep s (send_retry job s)"
| retry_failed: "job \<in> set (rb_retries s) \<Longrightarrow> bstep s (send_retry_failed job s)"
| stream: "ej_row_ids job = None \<Longrightarrow> rb_queue s = [] \<Longrightarrow> bstep s (s\<lparr>rb_queue := [job]\<rparr>)"
| work_start: "rb_working s = None \<Longrightarrow> bstep s (work_start s)"
| work_done: "bstep s (work_done ok s)"
| work_failed: "bstep s (work_failed ok s)"
| cancel: "bstep s (cancel_rows j s)"
| foreign_lock: "k \<notin> set (rb_locks s) \<Longrightarrow> k \<notin> set (rb_foreign s) \<Longrightarrow> bstep s (s\<lparr>rb_foreign := k # rb_foreign s\<rparr>)"
| foreign_unlock: "bstep s (s\<lparr>rb_foreign := remove1 k (rb_foreign s)\<rparr>)"
| foreign_retried: "bstep s (s\<lparr>rb_locks := filter (\<lambda>k. k \<notin> set ks) (rb_locks s), rb_foreign := filter (\<lambda>k. k \<notin> set ks) (rb_foreign s),
    rb_failures := rb_failures s + 1\<rparr>)"

definition batching_init :: batching where
  "batching_init = \<lparr>rb_pending = [], rb_locking = [], rb_locked = [], rb_map = [], rb_collecting = [], rb_sending = [], rb_queue = [],
     rb_working = None, rb_retries = [], rb_locks = [], rb_foreign = [], rb_announced = [], rb_served = [], rb_dropped = [], rb_failures = 0\<rparr>"

section \<open>The specification: a bag of rows\<close>

record bag =
  waiting :: "row_key multiset"
  served :: "row_key multiset"
  dropped :: "row_key multiset"
  announced :: "row_key multiset"

inductive bag_step :: "bag \<Rightarrow> bag \<Rightarrow> bool" where
  arrive: "bag_step b (b\<lparr>waiting := add_mset k (waiting b), announced := add_mset k (announced b)\<rparr>)"
| serve: "X \<subseteq># waiting b \<Longrightarrow> bag_step b (b\<lparr>waiting := waiting b - X, served := X + served b\<rparr>)"
| drop: "X \<subseteq># waiting b \<Longrightarrow> bag_step b (b\<lparr>waiting := waiting b - X, dropped := X + dropped b\<rparr>)"
| skip: "bag_step b b"

definition jobs_rows :: "EmbeddingJob list \<Rightarrow> row_key multiset" where
  "jobs_rows js = mset (concat (map job_rows js))"

text \<open>The rows in flight are those this daemon has locked and not settled; before them are the rows not yet locked.\<close>

definition flight :: "batching \<Rightarrow> row_key multiset" where
  "flight s = mset (rb_locked s) + mset (map_rows (rb_map s)) + mset (map_rows (rb_collecting s)) + jobs_rows (rb_sending s) + jobs_rows (rb_queue s)
    + (case rb_working s of Some job \<Rightarrow> mset (job_rows job) | None \<Rightarrow> {#}) + jobs_rows (rb_retries s)"

definition bag_of :: "batching \<Rightarrow> bag" where
  "bag_of s = \<lparr>waiting = mset (rb_pending s) + mset (rb_locking s) + flight s, served = mset (rb_served s), dropped = mset (rb_dropped s),
     announced = mset (rb_announced s)\<rparr>"

text \<open>Every batch with rows is a batch of changes, not of an initial run, and fits the model.\<close>

definition batch_ok :: "EmbeddingJob \<Rightarrow> bool" where
  "batch_ok job = (case ej_row_ids job of None \<Rightarrow> True | Some ids \<Rightarrow> \<not> ej_is_init job \<and> length ids \<le> get_default_batch_size (ej_model job))"

definition batches_of :: "batching \<Rightarrow> EmbeddingJob list" where
  "batches_of s = rb_sending s @ rb_queue s @ (case rb_working s of Some job \<Rightarrow> [job] | None \<Rightarrow> []) @ rb_retries s"

definition batching_wf :: "batching \<Rightarrow> bool" where
  "batching_wf s \<longleftrightarrow> distinct (map fst (rb_map s)) \<and> distinct (map fst (rb_collecting s)) \<and> (\<forall>job \<in> set (batches_of s). batch_ok job)"

lemma jobs_rows_simps [simp]:
  "jobs_rows [] = {#}" "jobs_rows (j # js) = mset (job_rows j) + jobs_rows js" "jobs_rows (js @ ks) = jobs_rows js + jobs_rows ks"
  by (simp_all add: jobs_rows_def)

lemma jobs_rows_remove1: "job \<in> set js \<Longrightarrow> jobs_rows js = mset (job_rows job) + jobs_rows (remove1 job js)"
  by (induction js) auto

lemma mset_remove1_split: "k \<in> set ks \<Longrightarrow> mset ks = add_mset k (mset (remove1 k ks))"
  by simp

lemma map_rows_simps [simp]: "map_rows [] = []" "map_rows ((j, rs) # m) = map (Pair j) rs @ map_rows m" "map_rows (m @ n) = map_rows m @ map_rows n"
  by (simp_all add: map_rows_def)

lemma map_rows_update:
  "distinct (map fst m) \<Longrightarrow> map_of m j = Some v \<Longrightarrow> mset (map_rows (AList.update j (v @ rs) m)) = mset (map_rows m) + mset (map (Pair j) rs)"
  by (induction m) (auto split: if_splits)

lemma map_rows_extend: "distinct (map fst m) \<Longrightarrow> mset (map_rows (extend_rows j rs m)) = mset (map_rows m) + mset (map (Pair j) rs)"
  by (auto simp: extend_rows_def map_rows_update split: option.splits)

lemma distinct_extend: "distinct (map fst m) \<Longrightarrow> distinct (map fst (extend_rows j rs m))"
  by (auto simp: extend_rows_def distinct_update map_of_eq_None_iff split: option.splits)

lemma map_rows_delete: "mset (map_rows m) = mset (map_rows (filter (\<lambda>e. fst e = j) m)) + mset (map_rows (AList.delete j m))"
  by (induction m) (auto simp: AList.delete_eq)

lemma rows_job_rows [simp]: "job_rows (rows_job job ids) = map (Pair (ej_id job)) ids"
  by (simp add: rows_job_def job_rows_def set_row_ids_def set_id_filter_def set_filter_def set_is_init_def or_else_def)

lemma split_batch_size: "length (fst (split_batch n ids)) \<le> n"
  by (auto simp: split_batch_def)

lemma split_batch_append: "fst (split_batch n ids) @ snd (split_batch n ids) = ids"
  by (auto simp: split_batch_def)

lemma collect_job_eq:
  assumes "rb_collecting s = (j, row_ids) # rest"
  shows "collect_job job s =
    (let b = split_batch (get_default_batch_size (ej_model job)) row_ids
     in s\<lparr>rb_collecting := rest, rb_map := (if snd b = [] then rb_map s else extend_rows j (snd b) (rb_map s)),
          rb_sending := rows_job job (fst b) # rb_sending s\<rparr>)"
  using assms by (auto simp: collect_job_def split_batch_def Let_def)

lemma rows_job_ok: "length ids \<le> get_default_batch_size (ej_model job) \<Longrightarrow> batch_ok (rows_job job ids)"
  by (simp add: rows_job_def batch_ok_def set_row_ids_def set_id_filter_def set_filter_def set_is_init_def)

lemmas batching_ops = row_received_def row_lock_ok_def row_lock_failed_def batch_row_def drain_map_def collect_failed_def collect_job_def send_batch_def
  send_failed_def send_retry_def send_retry_failed_def work_start_def release_def work_done_def work_failed_def cancel_rows_def

lemma batching_wf_step: "bstep s s' \<Longrightarrow> batching_wf s \<Longrightarrow> batching_wf s'"
proof (induction rule: bstep.induct)
  case (collect s j ids rest job)
  then show ?case
    using rows_job_ok[OF split_batch_size, of job ids]
    by (auto simp: batching_wf_def batches_of_def collect_job_eq Let_def distinct_extend)
qed (auto simp: batching_wf_def batches_of_def batching_ops distinct_extend distinct_delete batch_ok_def
      split: list.splits option.splits prod.splits if_splits dest: notin_set_remove1)

lemma bag_dropI: "X \<subseteq># waiting b \<Longrightarrow> b' = b\<lparr>waiting := waiting b - X, dropped := X + dropped b\<rparr> \<Longrightarrow> bag_step b b'"
  by (simp add: bag_step.drop)

lemma bag_serveI: "X \<subseteq># waiting b \<Longrightarrow> b' = b\<lparr>waiting := waiting b - X, served := X + served b\<rparr> \<Longrightarrow> bag_step b b'"
  by (simp add: bag_step.serve)

lemma bag_skipI: "b = b' \<Longrightarrow> bag_step b b'"
  by (simp add: bag_step.skip)

lemma release_bag [simp]: "bag_of (release ok job s) = bag_of s"
  by (simp add: release_def bag_of_def flight_def)

lemma bag_refines: "bstep s s' \<Longrightarrow> batching_wf s \<Longrightarrow> bag_step (bag_of s) (bag_of s')"
proof (induction rule: bstep.induct)
  case (announce s k)
  show ?case using bag_step.arrive[of "bag_of s" k] by (simp add: bag_of_def flight_def)
next
  case (receive s k rest)
  then show ?case by (intro bag_skipI) (simp add: bag_of_def row_received_def flight_def)
next
  case (lock_ok k s)
  then show ?case by (intro bag_skipI) (simp add: bag_of_def row_lock_ok_def flight_def mset_remove1_split del: mset_remove1)
next
  case (lock_failed k s)
  then show ?case
    by (intro bag_dropI[of "{#k#}"]) (auto simp: bag_of_def row_lock_failed_def flight_def mset_remove1_split simp del: mset_remove1)
next
  case (batch k s)
  then show ?case
    by (intro bag_skipI) (auto simp: bag_of_def batch_row_def flight_def batching_wf_def map_rows_extend mset_remove1_split simp del: mset_remove1)
next
  case (drain s)
  then show ?case by (intro bag_skipI) (simp add: bag_of_def drain_map_def flight_def)
next
  case (collect_failed s)
  show ?case
  proof (cases "rb_collecting s")
    case (Cons e rest)
    then show ?thesis
      by (cases e, intro bag_dropI[of "mset (map (Pair (fst e)) (snd e))"]) (auto simp: bag_of_def collect_failed_def flight_def)
  qed (simp add: collect_failed_def bag_step.skip)
next
  case (collect s j ids rest job)
  let ?b = "split_batch (get_default_batch_size (ej_model job)) ids"
  have "mset (map (Pair j) ids) = mset (map (Pair j) (fst ?b)) + mset (map (Pair j) (snd ?b))"
    using split_batch_append[of "get_default_batch_size (ej_model job)" ids] by (metis map_append mset_append)
  with collect show ?case by (intro bag_skipI) (auto simp: bag_of_def collect_job_eq Let_def flight_def batching_wf_def map_rows_extend)
next
  case (send job s)
  then show ?case using jobs_rows_remove1[of job "rb_sending s"] by (intro bag_skipI) (simp add: bag_of_def send_batch_def flight_def)
next
  case (send_failed job s)
  then show ?case using jobs_rows_remove1[of job "rb_sending s"]
    by (intro bag_dropI[of "mset (job_rows job)"]) (auto simp: bag_of_def send_failed_def flight_def)
next
  case (retry job s)
  then show ?case using jobs_rows_remove1[of job "rb_retries s"] by (intro bag_skipI) (simp add: bag_of_def send_retry_def flight_def)
next
  case (retry_failed job s)
  then show ?case using jobs_rows_remove1[of job "rb_retries s"]
    by (intro bag_dropI[of "mset (job_rows job)"]) (auto simp: bag_of_def send_retry_failed_def flight_def)
next
  case (stream job s)
  then show ?case by (intro bag_skipI) (simp add: bag_of_def flight_def job_rows_def or_else_def)
next
  case (work_start s)
  then show ?case by (intro bag_skipI) (auto simp: bag_of_def work_start_def flight_def split: list.splits)
next
  case (work_done s ok)
  show ?case
  proof (cases "rb_working s")
    case (Some job)
    then show ?thesis
      by (intro bag_serveI[of "mset (job_rows job)"]) (auto simp: work_done_def, auto simp: bag_of_def flight_def)
  qed (simp add: work_done_def bag_step.skip)
next
  case (work_failed s ok)
  then show ?case
    by (intro bag_skipI, cases "rb_working s")
      (auto simp: work_failed_def batching_wf_def batches_of_def batch_ok_def,
       auto simp: bag_of_def flight_def job_rows_def or_else_def split: option.splits)
next
  case (cancel s j)
  show ?case using map_rows_delete[of "rb_map s" j]
    by (intro bag_dropI[of "mset (map_rows (filter (\<lambda>e. fst e = j) (rb_map s)))"]) (auto simp: bag_of_def cancel_rows_def flight_def)
next
  case (foreign_lock k s)
  show ?case by (intro bag_skipI) (simp add: bag_of_def flight_def)
next
  case (foreign_unlock s k)
  show ?case by (intro bag_skipI) (simp add: bag_of_def flight_def)
next
  case (foreign_retried s ks)
  show ?case by (intro bag_skipI) (simp add: bag_of_def flight_def)
qed

lemma bag_conserved: "bag_step\<^sup>*\<^sup>* b b' \<Longrightarrow> announced b = waiting b + served b + dropped b \<Longrightarrow> announced b' = waiting b' + served b' + dropped b'"
proof (induction rule: rtranclp_induct)
  case (step b' b'')
  then have "announced b' = waiting b' + served b' + dropped b'" by blast
  with step.hyps(2) show ?case by (cases rule: bag_step.cases) (auto simp: subset_mset.le_iff_add ac_simps)
qed simp

section \<open>Rows and locks\<close>

text \<open>As long as no batch has failed, every row in flight is there once and is locked by this daemon, and by no other.\<close>

definition locks_ok :: "batching \<Rightarrow> bool" where
  "locks_ok s \<longleftrightarrow> flight s \<subseteq># mset (rb_locks s) \<and> distinct (rb_locks s) \<and> set (rb_locks s) \<inter> set (rb_foreign s) = {}"

lemma bstep_failures: "bstep s s' \<Longrightarrow> rb_failures s \<le> rb_failures s'"
  by (cases rule: bstep.cases, assumption) (auto simp: batching_ops Let_def split: list.splits option.splits prod.splits)

lemma locks_ok_smaller:
  "flight s' \<subseteq># flight s \<Longrightarrow> rb_locks s' = rb_locks s \<Longrightarrow> rb_foreign s' = rb_foreign s \<Longrightarrow> locks_ok s \<Longrightarrow> locks_ok s'"
  unfolding locks_ok_def using subset_mset.order_trans by auto

lemma released_subset:
  fixes B :: "'a multiset"
  assumes "A \<subseteq># B" "X \<subseteq># A" "\<And>x. count B x \<le> 1"
  shows "A - X \<subseteq># filter_mset (\<lambda>k. k \<notin># X) B"
proof (rule mset_subset_eqI)
  fix x
  have "count A x \<le> count B x" "count X x \<le> count A x" "count B x \<le> 1" using assms by (auto intro: mset_subset_eq_count)
  then have "x \<notin># X \<or> count A x = count X x" "count A x \<le> count B x" unfolding not_in_iff by linarith+
  then show "count (A - X) x \<le> count (filter_mset (\<lambda>k. k \<notin># X) B) x" by auto
qed

lemma locks_ok_release:
  assumes "locks_ok s" "mset (job_rows job) \<subseteq># flight s" "flight s' = flight s - mset (job_rows job)"
    "rb_locks s' = rb_locks s" "rb_foreign s' = rb_foreign s"
  shows "locks_ok (release ok job s')"
proof (cases ok)
  case True
  have "count (mset (rb_locks s)) k \<le> 1" for k using assms(1) unfolding locks_ok_def distinct_count_atmost_1 by (cases k) simp
  then have "flight s - mset (job_rows job) \<subseteq># filter_mset (\<lambda>k. k \<notin># mset (job_rows job)) (mset (rb_locks s))"
    using assms(1,2) by (intro released_subset) (auto simp: locks_ok_def)
  then show ?thesis using True assms by (auto simp: locks_ok_def release_def flight_def)
next
  case False
  then have "release ok job s' = s'" by (simp add: release_def)
  moreover have "flight s' \<subseteq># flight s" using assms(3) by simp
  ultimately show ?thesis using assms locks_ok_smaller by metis
qed

lemma flight_shrinks:
  assumes "bstep s s'" "batching_wf s" "rb_pending s' = rb_pending s" "rb_locking s' = rb_locking s" "rb_announced s' = rb_announced s"
  shows "flight s' \<subseteq># flight s"
proof -
  have "waiting (bag_of s') \<subseteq># waiting (bag_of s)"
    using bag_refines[OF assms(1,2)]
  proof (cases rule: bag_step.cases)
    case (arrive k)
    then have "announced (bag_of s') = add_mset k (announced (bag_of s))" by simp
    then show ?thesis using assms(5) by (simp add: bag_of_def)
  qed (auto simp: subset_mset.le_iff_add)
  then show ?thesis using assms(3,4) by (simp add: bag_of_def)
qed

lemma locks_ok_other:
  assumes "bstep s s'" "batching_wf s" "locks_ok s" "rb_pending s' = rb_pending s" "rb_locking s' = rb_locking s" "rb_announced s' = rb_announced s"
    "rb_locks s' = rb_locks s" "rb_foreign s' = rb_foreign s"
  shows "locks_ok s'"
  using locks_ok_smaller[OF flight_shrinks] assms by blast

lemma locks_ok_step:
  assumes "bstep s s'" "rb_failures s' = 0" "batching_wf s" "locks_ok s"
  shows "locks_ok s'"
  using assms(1)
proof (cases rule: bstep.cases)
  case (lock_ok k)
  have "flight s' = add_mset k (flight s)" using lock_ok(1) by (simp add: row_lock_ok_def flight_def)
  then show ?thesis using lock_ok assms(4) by (auto simp: locks_ok_def row_lock_ok_def)
next
  case (foreign_lock k)
  then show ?thesis using assms(4) by (auto simp: locks_ok_def flight_def)
next
  case (foreign_unlock k)
  moreover have "flight s' = flight s" using foreign_unlock by (simp add: flight_def)
  ultimately show ?thesis using assms(4) set_remove1_subset[of k "rb_foreign s"] by (auto simp: locks_ok_def)
next
  case (foreign_retried ks)
  then show ?thesis using assms(2) by simp
next
  case (work_done ok)
  show ?thesis
  proof (cases "rb_working s")
    case (Some job)
    then show ?thesis unfolding work_done(1) work_done_def
      by (simp, intro locks_ok_release[OF assms(4)]) (simp_all add: flight_def)
  qed (use work_done assms(4) in \<open>simp add: work_done_def\<close>)
next
  case (work_failed ok)
  then show ?thesis using assms(2,4) by (cases "rb_working s") (auto simp: work_failed_def release_def split: if_splits)
next
  case (announce k)
  then show ?thesis using assms(4) by (simp add: locks_ok_def flight_def)
next
  case (receive k rest)
  then show ?thesis using assms(4) by (simp add: locks_ok_def flight_def row_received_def)
next
  case (lock_failed k)
  then show ?thesis using assms(4) by (simp add: locks_ok_def flight_def row_lock_failed_def)
next
  case (collect j ids rest job)
  show ?thesis by (rule locks_ok_other[OF assms(1,3,4)]) (use collect in \<open>simp_all add: collect_job_eq Let_def\<close>)
qed (rule locks_ok_other[OF assms(1,3,4)]; auto simp: batching_ops split: list.splits option.splits)+

lemma reachable_batching:
  assumes "bstep\<^sup>*\<^sup>* batching_init s"
  shows "batching_wf s" "bag_step\<^sup>*\<^sup>* (bag_of batching_init) (bag_of s)" "rb_failures s = 0 \<Longrightarrow> locks_ok s"
proof -
  have "batching_wf s \<and> bag_step\<^sup>*\<^sup>* (bag_of batching_init) (bag_of s) \<and> (rb_failures s = 0 \<longrightarrow> locks_ok s)"
    using assms
  proof (induction rule: rtranclp_induct)
    case base
    show ?case by (simp add: batching_init_def batching_wf_def batches_of_def locks_ok_def flight_def)
  next
    case (step s s')
    then show ?case
      using batching_wf_step[of s s'] bag_refines[of s s'] locks_ok_step[of s s'] bstep_failures[of s s']
      by (auto intro: rtranclp.rtrancl_into_rtrancl)
  qed
  then show "batching_wf s" "bag_step\<^sup>*\<^sup>* (bag_of batching_init) (bag_of s)" "rb_failures s = 0 \<Longrightarrow> locks_ok s" by auto
qed

section \<open>Runs\<close>

text \<open>A row is announced, locked and put into the map; its batch is collected and taken by the worker.\<close>

definition row_batched :: "row_key \<Rightarrow> batching \<Rightarrow> batching" where
  "row_batched k s = batch_row k (row_lock_ok k (row_received k (s\<lparr>rb_pending := rb_pending s @ [k], rb_announced := k # rb_announced s\<rparr>)))"

definition batch_taken :: "EmbeddingJob \<Rightarrow> batching \<Rightarrow> batching" where
  "batch_taken job s =
    (let s1 = collect_job job (drain_map s) in work_start (case rb_sending s1 of [] \<Rightarrow> s1 | b # _ \<Rightarrow> send_batch b s1))"

lemma row_batched_run:
  assumes "rb_pending s = []" "k \<notin> set (rb_locks s)" "k \<notin> set (rb_foreign s)"
  shows "bstep\<^sup>*\<^sup>* s (row_batched k s)"
proof -
  define s1 where "s1 = s\<lparr>rb_pending := rb_pending s @ [k], rb_announced := k # rb_announced s\<rparr>"
  have "bstep s s1" unfolding s1_def by (rule bstep.announce)
  moreover have "rb_pending s1 = [k]" using assms(1) by (simp add: s1_def)
  moreover have "bstep s1 (row_received k s1)" by (rule bstep.receive[of _ _ "[]"]) fact
  moreover have "bstep (row_received k s1) (row_lock_ok k (row_received k s1))"
    by (rule bstep.lock_ok) (use assms in \<open>simp_all add: row_received_def s1_def\<close>)
  moreover have "bstep (row_lock_ok k (row_received k s1)) (batch_row k (row_lock_ok k (row_received k s1)))"
    by (rule bstep.batch) (simp add: row_lock_ok_def)
  ultimately show ?thesis unfolding row_batched_def s1_def[symmetric] by (meson converse_rtranclp_into_rtranclp rtranclp.rtrancl_refl)
qed

lemma batch_taken_run:
  assumes "rb_collecting s = []" "rb_map s = [(ej_id job, ids)]" "rb_queue s = []" "rb_working s = None"
  shows "bstep\<^sup>*\<^sup>* s (batch_taken job s)"
proof -
  define b where "b = rows_job job (fst (split_batch (get_default_batch_size (ej_model job)) ids))"
  define s1 where "s1 = collect_job job (drain_map s)"
  have s1: "rb_sending s1 = b # rb_sending s" "rb_queue s1 = []" "rb_working s1 = None"
    using assms by (simp_all add: s1_def b_def drain_map_def collect_job_eq Let_def)
  have "bstep s (drain_map s)" using assms(1) by (rule bstep.drain)
  moreover have "bstep (drain_map s) s1"
    unfolding s1_def by (rule bstep.collect[of _ "ej_id job" ids "[]"]) (use assms(2) in \<open>simp_all add: drain_map_def\<close>)
  moreover have "bstep s1 (send_batch b s1)" by (rule bstep.send) (use s1 in simp_all)
  moreover have "bstep (send_batch b s1) (work_start (send_batch b s1))"
    by (rule bstep.work_start) (use s1 in \<open>simp add: send_batch_def\<close>)
  ultimately show ?thesis using s1(1) unfolding batch_taken_def s1_def[symmetric] Let_def
    by simp
qed

definition one_batched :: batching where
  "one_batched = row_batched (7, ''1'') batching_init"

definition one_taken :: batching where
  "one_taken = batch_taken sample_job one_batched"

lemma sample_limit: "get_default_batch_size (ej_model sample_job) = 100"
  by (simp add: sample_job_def get_default_batch_size_def)

lemma one_batched_eq:
  "one_batched = batching_init\<lparr>rb_map := [(7, [''1''])], rb_locks := [(7, ''1'')], rb_announced := [(7, ''1'')]\<rparr>"
  by (simp add: one_batched_def row_batched_def batching_init_def batching_ops extend_rows_def)

lemma one_taken_eq:
  "one_taken = batching_init\<lparr>rb_working := Some (rows_job sample_job [''1'']), rb_locks := [(7, ''1'')], rb_announced := [(7, ''1'')]\<rparr>"
  by (simp add: one_taken_def batch_taken_def one_batched_eq batching_init_def drain_map_def collect_job_eq split_batch_def sample_limit
      send_batch_def work_start_def)

lemma one_batched_reachable: "bstep\<^sup>*\<^sup>* batching_init one_batched"
  unfolding one_batched_def by (rule row_batched_run) (simp_all add: batching_init_def)

lemma one_taken_reachable: "bstep\<^sup>*\<^sup>* batching_init one_taken"
  unfolding one_taken_def
  by (rule rtranclp_trans[OF one_batched_reachable], rule batch_taken_run[of _ _ "[''1'']"])
    (simp_all add: one_batched_eq batching_init_def sample_job_def)

lemma served_by_worker:
  assumes "bstep s s'" "rb_served s' \<noteq> rb_served s"
  shows "\<exists>job ok. rb_working s = Some job \<and> s' = work_done ok s \<and> rb_served s' = job_rows job @ rb_served s"
  using assms
proof (cases rule: bstep.cases)
  case (work_done ok)
  show ?thesis
  proof (cases "rb_working s")
    case (Some job)
    from Some have "rb_served s' = job_rows job @ rb_served s" by (simp add: work_done work_done_def release_def)
    with Some work_done(1) show ?thesis by (intro exI[of _ job] exI[of _ ok] conjI)
  qed (use work_done assms(2) in \<open>simp add: work_done_def\<close>)
next
  case (collect j ids rest job)
  then show ?thesis using assms(2) by (simp add: collect_job_eq Let_def)
next
  case (collect_failed)
  then show ?thesis using assms(2) by (auto simp: collect_failed_def split: list.splits)
next
  case (work_start)
  then show ?thesis using assms(2) by (auto simp: work_start_def split: list.splits)
next
  case (work_failed ok)
  then show ?thesis using assms(2) by (auto simp: work_failed_def release_def split: option.splits if_splits)
qed (use assms(2) in \<open>simp_all add: row_received_def row_lock_ok_def row_lock_failed_def batch_row_def drain_map_def send_batch_def
  send_failed_def send_retry_def send_retry_failed_def cancel_rows_def\<close>)

text \<open>
  C4. The tasks implement the bag of rows step by step: in every reachable state, whichever task moves next, its step is
  one step of the specification. A row waits only from its announcement on, leaves the waiting rows only to be served or
  dropped and never comes back from there; rows are served by the worker alone, at the end of a batch, and then exactly
  the rows of that batch.
\<close>

theorem batching_refines_bag:
  assumes "bstep\<^sup>*\<^sup>* batching_init s" "bstep s s'"
  shows "bag_step (bag_of s) (bag_of s')
    \<and> (rb_served s' \<noteq> rb_served s \<longrightarrow>
        (\<exists>job ok. rb_working s = Some job \<and> s' = work_done ok s \<and> served (bag_of s') = mset (job_rows job) + served (bag_of s)))"
proof (intro conjI impI)
  show "bag_step (bag_of s) (bag_of s')" by (rule bag_refines[OF assms(2) reachable_batching(1)[OF assms(1)]])
  assume "rb_served s' \<noteq> rb_served s"
  from served_by_worker[OF assms(2) this] obtain job ok
    where job: "rb_working s = Some job" "s' = work_done ok s" "rb_served s' = job_rows job @ rb_served s" by (elim exE conjE)
  from job(3) have "served (bag_of s') = mset (job_rows job) + served (bag_of s)" by (simp add: bag_of_def)
  with job(1,2) show "\<exists>job ok. rb_working s = Some job \<and> s' = work_done ok s \<and> served (bag_of s') = mset (job_rows job) + served (bag_of s)"
    by (intro exI[of _ job] exI[of _ ok] conjI)
qed

theorem batching_refines_bag_witness:
  "bag_step (bag_of one_taken) (bag_of (work_done True one_taken)) \<and> served (bag_of (work_done True one_taken)) = {#(7, ''1'')#}"
proof
  show "bag_step (bag_of one_taken) (bag_of (work_done True one_taken))"
    by (rule batching_refines_bag[OF one_taken_reachable bstep.work_done, THEN conjunct1])
  show "served (bag_of (work_done True one_taken)) = {#(7, ''1'')#}"
    by (simp add: one_taken_eq batching_init_def work_done_def release_def bag_of_def sample_job_def)
qed

text \<open>
  C22. No announced row vanishes: in every reachable state each announcement is waiting at one stage, served,
  or dropped.
\<close>

theorem rows_accounted:
  assumes "bstep\<^sup>*\<^sup>* batching_init s"
  shows "mset (rb_announced s) = mset (rb_pending s) + mset (rb_locking s) + flight s + mset (rb_served s) + mset (rb_dropped s)"
proof -
  have "announced (bag_of batching_init) = waiting (bag_of batching_init) + served (bag_of batching_init) + dropped (bag_of batching_init)"
    by (simp add: bag_of_def flight_def batching_init_def)
  from bag_conserved[OF reachable_batching(2)[OF assms] this] show ?thesis by (simp add: bag_of_def)
qed

theorem rows_accounted_witness: "mset (rb_announced one_taken) = {#(7, ''1'')#} \<and> flight one_taken = {#(7, ''1'')#}"
  using rows_accounted[OF one_taken_reachable] by (simp add: one_taken_eq batching_init_def)

text \<open>
  C5. As long as no batch has failed, of this daemon or of another, a row is in flight at most once, this daemon holds its
  lock, and no other daemon does.
\<close>

theorem row_in_flight_once:
  assumes "bstep\<^sup>*\<^sup>* batching_init s" "rb_failures s = 0" "k \<in># flight s"
  shows "count (flight s) k = 1 \<and> k \<in> set (rb_locks s) \<and> k \<notin> set (rb_foreign s)"
proof -
  have ok: "locks_ok s" using reachable_batching(3)[OF assms(1,2)] .
  then have "count (flight s) k \<le> count (mset (rb_locks s)) k" by (simp add: locks_ok_def mset_subset_eq_count)
  moreover have "count (mset (rb_locks s)) k \<le> 1" using ok unfolding locks_ok_def distinct_count_atmost_1 by (cases k) simp
  moreover have "0 < count (flight s) k" using assms(3) by simp
  ultimately have "count (flight s) k = 1" "k \<in># mset (rb_locks s)" by linarith (use \<open>0 < count (flight s) k\<close> ok in \<open>auto simp: locks_ok_def dest: mset_subset_eqD\<close>)
  then show ?thesis using ok by (auto simp: locks_ok_def)
qed

theorem row_in_flight_once_witness: "count (flight one_taken) (7, ''1'') = 1 \<and> (7, ''1'') \<in> set (rb_locks one_taken)"
  using row_in_flight_once[OF one_taken_reachable, of "(7, ''1'')"]
  by (simp add: one_taken_eq batching_init_def flight_def sample_job_def)

text \<open>
  C24. Every batch of rows on its way to the embedding processor, a retried one included, is at most as large
  as the batch size of its model.
\<close>

theorem batch_within_limit:
  assumes "bstep\<^sup>*\<^sup>* batching_init s" "job \<in> set (batches_of s)" "ej_row_ids job = Some ids"
  shows "length ids \<le> get_default_batch_size (ej_model job)"
  using reachable_batching(1)[OF assms(1)] assms(2,3) by (auto simp: batching_wf_def batch_ok_def)

theorem batch_within_limit_witness: "length [''1''] \<le> get_default_batch_size (ej_model (rows_job sample_job [''1'']))"
  by (rule batch_within_limit[OF one_taken_reachable])
    (simp_all add: one_taken_eq batching_init_def batches_of_def rows_job_def set_row_ids_def)


text \<open>
  A row that is dropped after it was locked stays locked: nothing is left of it in any task, and every later
  change of the row is turned away by its own lock.
\<close>

theorem dropped_row_stays_locked:
  "\<exists>s. bstep\<^sup>*\<^sup>* batching_init s \<and> waiting (bag_of s) = {#} \<and> (7, ''1'') \<in> set (rb_dropped s) \<and> (7, ''1'') \<in> set (rb_locks s)
    \<and> rb_failures s = 0"
proof -
  have "bstep\<^sup>*\<^sup>* batching_init (cancel_rows 7 one_batched)" by (rule rtranclp.rtrancl_into_rtrancl[OF one_batched_reachable bstep.cancel])
  then show ?thesis by (rule exI[of _ "cancel_rows 7 one_batched", OF conjI])
    (simp add: cancel_rows_def one_batched_eq batching_init_def bag_of_def flight_def)
qed

end
