(* ===== verification/Client_Jobs.thy ===== *)
theory Client_Jobs
  imports Row_Batching
begin

text \<open>
  \<^verbatim>\<open>lantern_cli/src/daemon/client_embedding_jobs.rs\<close>: the triggers on the table of a job, the listener that turns
  a changed row into a notification for the insert processor, and the tasks that start, restart and
  stop it. A listener and the task that serves its signals are numbered by the call that started them.
\<close>

section \<open>Names and triggers\<close>

datatype ClientJobSignal = Stop_Signal | Restart_Signal

definition get_trigger_name :: "int \<Rightarrow> string \<Rightarrow> string" where
  "get_trigger_name job_id operation = ''trigger_lantern_jobs_v2_'' @ operation @ ''_'' @ int_digits job_id"

definition get_function_name :: "int \<Rightarrow> string" where
  "get_function_name job_id = ''notify_insert_lantern_daemon_v2_'' @ int_digits job_id"

definition get_notification_channel_name :: "int \<Rightarrow> string" where
  "get_notification_channel_name job_id = ''lantern_client_notifications_v2_'' @ int_digits job_id"

definition client_trigger_sql :: "int \<Rightarrow> string \<Rightarrow> string \<Rightarrow> string \<Rightarrow> string \<Rightarrow> string \<Rightarrow> string" where
  "client_trigger_sql job_id pk src_column table schema channel =
    (let full_table_name = get_full_table_name schema table; column_name = quote_ident src_column; pk = quote_ident pk;
         function_name = get_full_table_name schema (get_function_name job_id);
         insert_trigger_name = get_trigger_name job_id ''insert''; update_trigger_name = get_trigger_name job_id ''update''
     in ''CREATE OR REPLACE FUNCTION '' @ function_name @ ''() RETURNS TRIGGER AS $$ BEGIN IF ('' @
        get_common_embedding_ignore_filters (''NEW.'' @ column_name) @ '') THEN PERFORM pg_notify('' @ sq channel @ '', NEW.'' @ pk @
        ''::TEXT || '' @ sq '':'' @ '' || '' @ sq (int_digits job_id) @ ''); END IF; RETURN NULL; END; $$ LANGUAGE plpgsql; '' @
        ''CREATE OR REPLACE TRIGGER '' @ insert_trigger_name @ '' AFTER INSERT ON '' @ full_table_name @
        '' FOR EACH ROW EXECUTE PROCEDURE '' @ function_name @ ''(); '' @
        ''CREATE OR REPLACE TRIGGER '' @ update_trigger_name @ '' AFTER UPDATE OF '' @ column_name @ '' ON '' @ full_table_name @
        '' FOR EACH ROW EXECUTE PROCEDURE '' @ function_name @ ''();'')"

definition setup_client_triggers ::
  "'f server \<Rightarrow> int \<Rightarrow> string \<Rightarrow> string \<Rightarrow> string \<Rightarrow> string \<Rightarrow> string \<Rightarrow> (('f, 'x) world_scheme, unit) prog" where
  "setup_client_triggers srv job_id pk src_column table schema channel =
    seq (check_table_exists srv (get_full_table_name schema table))
        (do_call srv (BatchExecute (client_trigger_sql job_id pk src_column table schema channel)))"

definition drop_triggers_sql :: "int \<Rightarrow> string \<Rightarrow> string \<Rightarrow> string" where
  "drop_triggers_sql job_id table schema =
    (let full_table_name = get_full_table_name schema table
     in ''DROP TRIGGER IF EXISTS '' @ get_trigger_name job_id ''insert'' @ '' ON '' @ full_table_name @
        ''; DROP TRIGGER IF EXISTS '' @ get_trigger_name job_id ''update'' @ '' ON '' @ full_table_name @
        ''; DROP FUNCTION IF EXISTS '' @ get_full_table_name schema (get_function_name job_id) @ '';'')"

definition remove_client_triggers :: "'f server \<Rightarrow> string \<Rightarrow> int \<Rightarrow> string \<Rightarrow> string \<Rightarrow> (('f, 'x) world_scheme, unit) prog" where
  "remove_client_triggers srv db_uri job_id table schema =
    seq (do_call srv (Connect db_uri)) (do_call srv (BatchExecute (drop_triggers_sql job_id table schema)))"

section \<open>The listener\<close>

text \<open>
  What the listener task does with the messages of its connection: the notifications it queues, whether
  it asks for a restart, and the panic that ends it.
\<close>

datatype client_message_step = Push_Row JobInsertNotification | Ignore_Message | Ask_Restart | Crash error

definition client_notification :: "string \<Rightarrow> client_message_step" where
  "client_notification payload =
    (let parts = split_char (CHR '':'') payload
     in if length parts < 2 then Ignore_Message
        else (case i32_from_str (parts ! 1) of
                None \<Rightarrow> Crash (Panicked ''called `Result::unwrap()` on an `Err` value'')
              | Some job_id \<Rightarrow> Push_Row \<lparr>jn_id = job_id, jn_generate_missing = False, jn_row_id = Some (parts ! 0), jn_filter = None\<rparr>))"

fun client_message :: "db_message \<Rightarrow> client_message_step" where
  "client_message (Message_Error e) = Ask_Restart"
| "client_message Other_Message = Ignore_Message"
| "client_message (Notification payload) = client_notification payload"

fun client_listener_loop :: "db_message list \<Rightarrow> JobInsertNotification list \<Rightarrow> JobInsertNotification list \<times> bool \<times> unit result" where
  "client_listener_loop [] q = (q, False, Inr ())"
| "client_listener_loop (m # ms) q =
    (case client_message m of
       Push_Row n \<Rightarrow> client_listener_loop ms (q @ [n])
     | Ignore_Message \<Rightarrow> client_listener_loop ms q
     | Ask_Restart \<Rightarrow> (q, True, Inr ())
     | Crash e \<Rightarrow> (q, False, Inl e))"

section \<open>Starting and stopping\<close>

text \<open>
  The shared state: \<open>cj_map\<close> the signal channels of the running jobs, \<open>cj_signals\<close> the signals in each channel
  that its task has not yet taken, \<open>cj_tasks\<close> the tasks that take signals with the listener each will
  cancel, \<open>cj_listeners\<close> the listeners that run with the channel they report to, \<open>cj_inserts\<close> the queue of the insert processor.
\<close>

record client_listener =
  cl_job :: int
  cl_channel :: nat

record signal_task =
  sk_job :: int
  sk_listener :: nat
  sk_interval :: nat
  sk_filter :: string
  sk_uri :: string

record 'f clients = "'f world" +
  cj_next :: nat
  cj_map :: "(int \<times> nat) list"
  cj_signals :: "(nat \<times> ClientJobSignal) list"
  cj_tasks :: "(nat \<times> signal_task) list"
  cj_listeners :: "(nat \<times> client_listener) list"
  cj_inserts :: "JobInsertNotification list"

definition fresh :: "(('f, 'x) clients_scheme, nat) prog" where
  "fresh s = (Inr (cj_next s), s\<lparr>cj_next := Suc (cj_next s)\<rparr>)"

definition send_signal :: "nat \<Rightarrow> ClientJobSignal \<Rightarrow> (('f, 'x) clients_scheme, unit) prog" where
  "send_signal ch sig s = (Inr (), s\<lparr>cj_signals := cj_signals s @ [(ch, sig)]\<rparr>)"

definition run_listener :: "nat \<Rightarrow> client_listener \<Rightarrow> (('f, 'x) clients_scheme, unit) prog" where
  "run_listener l cl s = (Inr (), s\<lparr>cj_listeners := (l, cl) # cj_listeners s\<rparr>)"

text \<open>
  The listener task is spawned before the LISTEN statement; when the statement fails the client is
  dropped, its connection ends, and the task ends with it.
\<close>

definition client_notification_listener :: "'f server \<Rightarrow> string \<Rightarrow> int \<Rightarrow> nat \<Rightarrow> (('f, 'x) clients_scheme, nat) prog" where
  "client_notification_listener srv db_uri job_id ch =
    seq (do_call srv (Connect (append_params_to_uri db_uri ''connect_timeout=10'')))
    (seq (do_call srv (BatchExecute (''LISTEN '' @ get_notification_channel_name job_id @ '';'')))
    (and_then fresh (\<lambda>l. seq (run_listener l \<lparr>cl_job = job_id, cl_channel = ch\<rparr>) (return l))))"

definition take_job :: "int \<Rightarrow> (('f, 'x) clients_scheme, nat option) prog" where
  "take_job job_id s = (Inr (map_of (cj_map s) job_id), s\<lparr>cj_map := AList.delete job_id (cj_map s)\<rparr>)"

definition task_alive :: "nat \<Rightarrow> (('f, 'x) clients_scheme, bool) prog" where
  "task_alive ch s = (Inr (map_of (cj_tasks s) ch \<noteq> None), s)"

definition stop_client_job ::
  "'f server \<Rightarrow> string \<Rightarrow> int \<Rightarrow> string \<Rightarrow> string \<Rightarrow> bool \<Rightarrow> (('f, 'x) clients_scheme, unit) prog" where
  "stop_client_job srv db_uri job_id table schema remove =
    seq (if remove then attempt (remove_client_triggers srv db_uri job_id table schema) else return False)
    (and_then (take_job job_id) (\<lambda>job.
       case job of
         None \<Rightarrow> return ()
       | Some ch \<Rightarrow> and_then (task_alive ch) (\<lambda>alive. if alive then send_signal ch Stop_Signal else throw (Bail ''channel closed''))))"

definition register_job :: "int \<Rightarrow> nat \<Rightarrow> (('f, 'x) clients_scheme, unit) prog" where
  "register_job job_id ch s = (Inr (), s\<lparr>cj_map := AList.update job_id ch (cj_map s)\<rparr>)"

definition run_signal_task :: "nat \<Rightarrow> signal_task \<Rightarrow> (('f, 'x) clients_scheme, unit) prog" where
  "run_signal_task ch t s = (Inr (), s\<lparr>cj_tasks := (ch, t) # cj_tasks s\<rparr>)"

definition is_active :: "int \<Rightarrow> (('f, 'x) clients_scheme, bool) prog" where
  "is_active job_id s = (Inr (map_of (cj_map s) job_id \<noteq> None), s)"

definition start_client_job ::
  "'f server \<Rightarrow> int \<Rightarrow> string \<Rightarrow> string \<Rightarrow> string \<Rightarrow> string \<Rightarrow> string \<Rightarrow> string \<Rightarrow> (('f, 'x) clients_scheme, unit) prog" where
  "start_client_job srv job_id pk db_uri src_column out_column table schema =
    and_then (is_active job_id) (\<lambda>active.
    seq (if active then stop_client_job srv db_uri job_id table schema False else return ())
    (and_then fresh (\<lambda>ch.
    seq (do_call srv (Connect db_uri))
    (seq (setup_client_triggers srv job_id pk src_column table schema (get_notification_channel_name job_id))
    (seq (register_job job_id ch)
    (and_then (client_notification_listener srv db_uri job_id ch) (\<lambda>l.
      run_signal_task ch \<lparr>sk_job = job_id, sk_listener = l, sk_interval = 10,
        sk_filter = get_missing_rows_filter src_column out_column, sk_uri = db_uri\<rparr>)))))))"

definition toggle_client_job ::
  "'f server \<Rightarrow> int \<Rightarrow> string \<Rightarrow> string \<Rightarrow> string \<Rightarrow> string \<Rightarrow> string \<Rightarrow> string \<Rightarrow> bool \<Rightarrow> (('f, 'x) clients_scheme, unit) prog" where
  "toggle_client_job srv job_id db_uri pk src_column out_column table schema enable =
    seq (attempt (if enable then start_client_job srv job_id pk db_uri src_column out_column table schema
                  else stop_client_job srv db_uri job_id table schema True)) (return ())"

definition stop_all_client_jobs :: "'f server \<Rightarrow> string \<Rightarrow> string \<Rightarrow> (('f, 'x) clients_scheme, unit) prog" where
  "stop_all_client_jobs srv db_uri schema s =
    for_each (\<lambda>job_id. seq (attempt (stop_client_job srv db_uri job_id [] schema False)) (return ())) (map fst (cj_map s)) s"

section \<open>The tasks\<close>

definition end_listener :: "nat \<Rightarrow> ('f, 'x) clients_scheme \<Rightarrow> ('f, 'x) clients_scheme" where
  "end_listener l s = s\<lparr>cj_listeners := AList.delete l (cj_listeners s)\<rparr>"

text \<open>One message of the connection of a listener; None is the end of the stream.\<close>

definition listener_message :: "nat \<Rightarrow> client_listener \<Rightarrow> db_message option \<Rightarrow> ('f, 'x) clients_scheme \<Rightarrow> ('f, 'x) clients_scheme" where
  "listener_message l cl m s =
    (case m of
       None \<Rightarrow> end_listener l s
     | Some m \<Rightarrow>
         (case client_message m of
            Push_Row n \<Rightarrow> s\<lparr>cj_inserts := cj_inserts s @ [n]\<rparr>
          | Ignore_Message \<Rightarrow> s
          | Ask_Restart \<Rightarrow> snd (send_signal (cl_channel cl) Restart_Signal (end_listener l s))
          | Crash e \<Rightarrow> end_listener l s))"

fun first_signal :: "nat \<Rightarrow> (nat \<times> ClientJobSignal) list \<Rightarrow> ClientJobSignal option" where
  "first_signal ch [] = None"
| "first_signal ch ((c, sig) # rest) = (if c = ch then Some sig else first_signal ch rest)"

fun drop_signal :: "nat \<Rightarrow> (nat \<times> ClientJobSignal) list \<Rightarrow> (nat \<times> ClientJobSignal) list" where
  "drop_signal ch [] = []"
| "drop_signal ch ((c, sig) # rest) = (if c = ch then rest else (c, sig) # drop_signal ch rest)"

definition stop_task :: "nat \<Rightarrow> signal_task \<Rightarrow> ('f, 'x) clients_scheme \<Rightarrow> ('f, 'x) clients_scheme" where
  "stop_task ch t s =
    (end_listener (sk_listener t) s)\<lparr>cj_tasks := AList.delete ch (cj_tasks s), cj_signals := filter (\<lambda>e. fst e \<noteq> ch) (cj_signals s)\<rparr>"

definition restart_task :: "'f server \<Rightarrow> nat \<Rightarrow> signal_task \<Rightarrow> ('f, 'x) clients_scheme \<Rightarrow> ('f, 'x) clients_scheme" where
  "restart_task srv ch t s =
    (case client_notification_listener srv (sk_uri t) (sk_job t) ch s of
       (Inr l, s') \<Rightarrow> s'\<lparr>cj_signals := drop_signal ch (cj_signals s'), cj_tasks := AList.update ch (t\<lparr>sk_listener := l, sk_interval := 10\<rparr>) (cj_tasks s'),
            cj_inserts := cj_inserts s' @ [\<lparr>jn_id = sk_job t, jn_generate_missing = True, jn_row_id = None, jn_filter = Some (sk_filter t)\<rparr>]\<rparr>
     | (Inl e, s') \<Rightarrow> s'\<lparr>cj_tasks := AList.update ch (t\<lparr>sk_interval := 2 * sk_interval t\<rparr>) (cj_tasks s')\<rparr>)"

definition signal_step :: "'f server \<Rightarrow> nat \<Rightarrow> signal_task \<Rightarrow> ('f, 'x) clients_scheme \<Rightarrow> ('f, 'x) clients_scheme" where
  "signal_step srv ch t s =
    (case first_signal ch (cj_signals s) of
       None \<Rightarrow> s
     | Some Stop_Signal \<Rightarrow> stop_task ch t s
     | Some Restart_Signal \<Rightarrow> restart_task srv ch t s)"

inductive cstep :: "'f server \<Rightarrow> 'f clients \<Rightarrow> 'f clients \<Rightarrow> bool" for srv where
  toggled: "cstep srv s (snd (toggle_client_job srv job_id db_uri pk src_column out_column table schema enable s))"
| stopped_all: "cstep srv s (snd (stop_all_client_jobs srv db_uri schema s))"
| message: "map_of (cj_listeners s) l = Some cl \<Longrightarrow> cstep srv s (listener_message l cl m s)"
| ping_failed: "cstep srv s (end_listener l s)"
| signal: "map_of (cj_tasks s) ch = Some t \<Longrightarrow> cstep srv s (signal_step srv ch t s)"

definition clients_init :: "'f clients" where
  "clients_init = \<lparr>trace = [], cj_next = 0, cj_map = [], cj_signals = [], cj_tasks = [], cj_listeners = [], cj_inserts = []\<rparr>"

section \<open>Rows reach the queue\<close>

lemma client_notification_payload:
  assumes "CHR '':'' \<notin> set pk" "in_i32 job_id"
  shows "client_notification (pk @ '':'' @ int_digits job_id) =
    Push_Row \<lparr>jn_id = job_id, jn_generate_missing = False, jn_row_id = Some pk, jn_filter = None\<rparr>"
  using assms split_payload[of pk job_id] i32_from_str_digits[of job_id] by (simp add: client_notification_def in_i32_def)

text \<open>
  C25. Every row a trigger announces arrives in the queue of the insert processor once, in order, with its key and
  its job, as long as the keys have no colon.
\<close>

theorem client_rows_delivered:
  assumes "\<forall>r \<in> set rows. CHR '':'' \<notin> set r" "in_i32 job_id"
  shows "client_listener_loop (map (\<lambda>r. Notification (r @ '':'' @ int_digits job_id)) rows) q =
    (q @ map (\<lambda>r. \<lparr>jn_id = job_id, jn_generate_missing = False, jn_row_id = Some r, jn_filter = None\<rparr>) rows, False, Inr ())"
  using assms
proof (induction rows arbitrary: q)
  case (Cons r rows)
  then show ?case using client_notification_payload[of r job_id] by simp
qed simp

theorem client_rows_delivered_witness:
  "client_listener_loop (map (\<lambda>r. Notification (r @ '':'' @ int_digits 7)) [''12'', ''x y'']) [] =
    ([\<lparr>jn_id = 7, jn_generate_missing = False, jn_row_id = Some ''12'', jn_filter = None\<rparr>,
      \<lparr>jn_id = 7, jn_generate_missing = False, jn_row_id = Some ''x y'', jn_filter = None\<rparr>], False, Inr ())"
  using client_rows_delivered[of "[''12'', ''x y'']" 7 "[]"] by (simp add: in_i32_def)

text \<open>A key with a colon is cut at it: its second part is taken for the job, or ends the listener.\<close>

lemma client_row_misrouted: "client_notification (''a:5'' @ '':'' @ int_digits 7) =
    Push_Row \<lparr>jn_id = 5, jn_generate_missing = False, jn_row_id = Some ''a'', jn_filter = None\<rparr>"
  by (simp add: client_notification_def i32_from_str_def)

section \<open>Every listener is under control\<close>

definition listeners_ok :: "('f, 'x) clients_scheme \<Rightarrow> bool" where
  "listeners_ok s \<longleftrightarrow> (\<forall>l cl. map_of (cj_listeners s) l = Some cl \<longrightarrow>
     (\<exists>t. map_of (cj_tasks s) (cl_channel cl) = Some t \<and> sk_listener t = l \<and> sk_job t = cl_job cl) \<and> (cl_channel cl, Restart_Signal) \<notin> set (cj_signals s))"

definition tasks_ok :: "('f, 'x) clients_scheme \<Rightarrow> bool" where
  "tasks_ok s \<longleftrightarrow> (\<forall>ch t. map_of (cj_tasks s) ch = Some t \<longrightarrow>
     ch < cj_next s \<and> sk_listener t < cj_next s \<and> (map_of (cj_map s) (sk_job t) = Some ch \<or> (ch, Stop_Signal) \<in> set (cj_signals s)))"

definition map_ok :: "('f, 'x) clients_scheme \<Rightarrow> bool" where
  "map_ok s \<longleftrightarrow> (\<forall>j ch. map_of (cj_map s) j = Some ch \<longrightarrow> ch < cj_next s \<and> (\<forall>t. map_of (cj_tasks s) ch = Some t \<longrightarrow> sk_job t = j)
     \<and> (\<forall>i. map_of (cj_map s) i = Some ch \<longrightarrow> i = j))"

definition signals_ok :: "('f, 'x) clients_scheme \<Rightarrow> bool" where
  "signals_ok s \<longleftrightarrow> (\<forall>e \<in> set (cj_signals s). map_of (cj_tasks s) (fst e) \<noteq> None)
     \<and> (\<forall>ch. length (filter (\<lambda>e. e = (ch, Restart_Signal)) (cj_signals s)) \<le> 1)"

definition clients_ok :: "('f, 'x) clients_scheme \<Rightarrow> bool" where
  "clients_ok s \<longleftrightarrow> listeners_ok s \<and> tasks_ok s \<and> map_ok s \<and> signals_ok s"

lemmas clients_ok_defs = clients_ok_def listeners_ok_def tasks_ok_def map_ok_def signals_ok_def

lemma clients_ok_frame [simp]:
  "clients_ok (s\<lparr>trace := t\<rparr>) = clients_ok s" "clients_ok (s\<lparr>cj_inserts := q\<rparr>) = clients_ok s"
  by (simp_all add: clients_ok_defs)

lemma appends_keeps: "appends m \<Longrightarrow> (\<And>s t. P s \<Longrightarrow> P (s\<lparr>trace := t\<rparr>)) \<Longrightarrow> keeps P m"
  unfolding triple_def by (metis appendsD)

lemma attempt_snd: "snd (attempt m s) = snd (m s)"
  by (simp add: attempt_def split: prod.splits sum.splits)

lemma keepsD:
  assumes "keeps P m" "P s"
  shows "P (snd (m s))"
  by (rule tripleD[OF assms, of "fst (m s)"]) simp_all

lemma keepsI:
  assumes "\<And>s. P s \<Longrightarrow> P (snd (m s))"
  shows "keeps P m"
  unfolding triple_def
proof (intro conjI allI impI; elim conjE)
  show "P s'" if "P s" "m s = (Inr x, s')" for s x s' using assms[OF that(1)] that(2) by simp
  show "P s'" if "P s" "m s = (Inl e, s')" for s e s' using assms[OF that(1)] that(2) by simp
qed

lemma attempt_keeps: "keeps P m \<Longrightarrow> keeps P (attempt m)"
  by (rule keepsI) (simp add: attempt_snd keepsD)

lemma clients_ok_end:
  assumes "clients_ok s"
  shows "clients_ok (end_listener l s)"
proof -
  have "listeners_ok (end_listener l s)"
    using assms unfolding clients_ok_def listeners_ok_def end_listener_def by (simp add: AList.delete_conv')
  then show ?thesis
    using assms by (simp add: clients_ok_def tasks_ok_def map_ok_def signals_ok_def end_listener_def)
qed

lemma clients_okI: "listeners_ok s \<Longrightarrow> tasks_ok s \<Longrightarrow> map_ok s \<Longrightarrow> signals_ok s \<Longrightarrow> clients_ok s"
  by (simp add: clients_ok_def)

lemma listener_task:
  assumes "clients_ok s" "map_of (cj_listeners s) l = Some cl"
  obtains t where "map_of (cj_tasks s) (cl_channel cl) = Some t" "sk_listener t = l" "sk_job t = cl_job cl"
    "(cl_channel cl, Restart_Signal) \<notin> set (cj_signals s)"
  using assms unfolding clients_ok_def listeners_ok_def by blast

lemma clients_ok_restart_signal:
  assumes ok: "clients_ok s" and l: "map_of (cj_listeners s) l = Some cl"
  shows "clients_ok (snd (send_signal (cl_channel cl) Restart_Signal (end_listener l s)))" (is "clients_ok ?s")
proof -
  obtain t where t: "map_of (cj_tasks s) (cl_channel cl) = Some t" "sk_listener t = l"
    and free: "(cl_channel cl, Restart_Signal) \<notin> set (cj_signals s)" using listener_task[OF ok l] by metis
  have none: "filter (\<lambda>e. e = (cl_channel cl, Restart_Signal)) (cj_signals s) = []" using free by (auto simp: filter_empty_conv)
  have "listeners_ok ?s"
    unfolding listeners_ok_def
  proof (intro allI impI)
    fix l' cl' assume "map_of (cj_listeners ?s) l' = Some cl'"
    then have l': "l' \<noteq> l" "map_of (cj_listeners s) l' = Some cl'"
      by (auto simp: send_signal_def end_listener_def AList.delete_conv' split: if_splits)
    obtain t' where "map_of (cj_tasks s) (cl_channel cl') = Some t'" "sk_listener t' = l'" "sk_job t' = cl_job cl'"
      "(cl_channel cl', Restart_Signal) \<notin> set (cj_signals s)" using listener_task[OF ok l'(2)] by metis
    moreover from this have "cl_channel cl' \<noteq> cl_channel cl" using t l'(1) by auto
    ultimately show "(\<exists>t. map_of (cj_tasks ?s) (cl_channel cl') = Some t \<and> sk_listener t = l' \<and> sk_job t = cl_job cl')
        \<and> (cl_channel cl', Restart_Signal) \<notin> set (cj_signals ?s)"
      by (simp add: send_signal_def end_listener_def)
  qed
  moreover have "tasks_ok ?s" "map_ok ?s"
    using ok unfolding clients_ok_def tasks_ok_def map_ok_def by (simp_all add: send_signal_def end_listener_def)
  moreover have "signals_ok ?s"
    using ok t(1) none by (auto simp: clients_ok_def signals_ok_def send_signal_def end_listener_def)
  ultimately show ?thesis by (rule clients_okI)
qed

lemma clients_ok_message:
  assumes "clients_ok s" "map_of (cj_listeners s) l = Some cl"
  shows "clients_ok (listener_message l cl m s)"
proof (cases m)
  case (Some m')
  then show ?thesis using assms clients_ok_end clients_ok_restart_signal
    by (cases "client_message m'") (simp_all add: listener_message_def)
qed (simp add: listener_message_def clients_ok_end assms)

lemma clients_ok_stop_task:
  assumes ok: "clients_ok s" and t: "map_of (cj_tasks s) ch = Some t"
  shows "clients_ok (stop_task ch t s)" (is "clients_ok ?s")
proof -
  have "listeners_ok ?s"
    unfolding listeners_ok_def
  proof (intro allI impI)
    fix l cl assume "map_of (cj_listeners ?s) l = Some cl"
    then have l: "l \<noteq> sk_listener t" "map_of (cj_listeners s) l = Some cl"
      by (auto simp: stop_task_def end_listener_def AList.delete_conv' split: if_splits)
    obtain t' where t': "map_of (cj_tasks s) (cl_channel cl) = Some t'" "sk_listener t' = l" "sk_job t' = cl_job cl"
      "(cl_channel cl, Restart_Signal) \<notin> set (cj_signals s)" using listener_task[OF ok l(2)] by metis
    then have "cl_channel cl \<noteq> ch" using t l(1) by auto
    then show "(\<exists>t. map_of (cj_tasks ?s) (cl_channel cl) = Some t \<and> sk_listener t = l \<and> sk_job t = cl_job cl)
        \<and> (cl_channel cl, Restart_Signal) \<notin> set (cj_signals ?s)"
      using t' by (simp add: stop_task_def end_listener_def AList.delete_conv')
  qed
  moreover have "tasks_ok ?s"
    using ok by (auto simp: clients_ok_def tasks_ok_def stop_task_def end_listener_def AList.delete_conv' split: if_splits)
  moreover have "map_ok ?s"
    using ok unfolding clients_ok_def map_ok_def by (simp add: stop_task_def end_listener_def AList.delete_conv')
  moreover have "length (filter (\<lambda>e. e = (c, Restart_Signal)) (filter (\<lambda>e. fst e \<noteq> ch) (cj_signals s))) \<le> 1" for c
  proof -
    have "filter (\<lambda>e. e = (c, Restart_Signal)) (filter (\<lambda>e. fst e \<noteq> ch) (cj_signals s)) =
        filter (\<lambda>e. fst e \<noteq> ch) (filter (\<lambda>e. e = (c, Restart_Signal)) (cj_signals s))" by (simp add: conj_commute)
    moreover have "length (filter (\<lambda>e. e = (c, Restart_Signal)) (cj_signals s)) \<le> 1" using ok by (simp add: clients_ok_def signals_ok_def)
    ultimately show ?thesis by (metis length_filter_le le_trans)
  qed
  then have "signals_ok ?s"
    using ok by (auto simp: clients_ok_def signals_ok_def stop_task_def end_listener_def AList.delete_conv')
  ultimately show ?thesis by (rule clients_okI)
qed

text \<open>The calls to the database leave the tables of the tasks alone; a listener that starts has a number of its own.\<close>

lemma client_notification_listener_cases:
  obtains (failed) e t where "client_notification_listener srv u j ch s = (Inl e, s\<lparr>trace := t\<rparr>)"
  | (started) t where "client_notification_listener srv u j ch s =
      (Inr (cj_next s), s\<lparr>trace := t, cj_next := Suc (cj_next s), cj_listeners := (cj_next s, \<lparr>cl_job = j, cl_channel = ch\<rparr>) # cj_listeners s\<rparr>)"
proof -
  let ?m = "seq (do_call srv (Connect (append_params_to_uri u ''connect_timeout=10'')))
      (do_call srv (BatchExecute (''LISTEN '' @ get_notification_channel_name j @ '';'')))"
  let ?k = "and_then fresh (\<lambda>l. seq (run_listener l \<lparr>cl_job = j, cl_channel = ch\<rparr>) (return l))"
  have eq: "client_notification_listener srv u j ch = seq ?m ?k" by (simp add: client_notification_listener_def seq_assoc)
  have "appends ?m" by (intro appends_intros)
  then obtain t where t: "snd (?m s) = s\<lparr>trace := trace s @ t\<rparr>" unfolding appends_def by blast
  show ?thesis
  proof (cases "fst (?m s)")
    case (Inl e)
    then have "?m s = (Inl e, s\<lparr>trace := trace s @ t\<rparr>)" using t by (metis prod.collapse)
    then show ?thesis by (intro failed[of e "trace s @ t"]) (simp add: eq seq_err)
  next
    case (Inr x)
    then have "?m s = (Inr x, s\<lparr>trace := trace s @ t\<rparr>)" using t by (metis prod.collapse)
    then show ?thesis
      by (intro started[of "trace s @ t"]) (simp add: eq seq_ok and_then_def fresh_def run_listener_def return_def)
  qed
qed

lemma filter_drop_signal: "length (filter P (drop_signal ch sigs)) \<le> length (filter P sigs)"
  by (induction ch sigs rule: drop_signal.induct) auto

lemma set_drop_signal: "set (drop_signal ch sigs) \<subseteq> set sigs"
  by (induction ch sigs rule: drop_signal.induct) auto

lemma drop_signal_other: "e \<in> set sigs \<Longrightarrow> first_signal ch sigs = Some Restart_Signal \<Longrightarrow> e \<noteq> (ch, Restart_Signal) \<Longrightarrow> e \<in> set (drop_signal ch sigs)"
  by (induction ch sigs rule: drop_signal.induct) (auto split: if_splits)

lemma first_signal_in: "first_signal ch sigs = Some sig \<Longrightarrow> (ch, sig) \<in> set sigs"
  by (induction ch sigs rule: first_signal.induct) (auto split: if_splits)

lemma drop_signal_last:
  "first_signal ch sigs = Some Restart_Signal \<Longrightarrow> length (filter (\<lambda>e. e = (ch, Restart_Signal)) sigs) \<le> 1 \<Longrightarrow> (ch, Restart_Signal) \<notin> set (drop_signal ch sigs)"
  by (induction ch sigs rule: drop_signal.induct) (auto simp: filter_empty_conv split: if_splits)

lemma map_ok_update:
  assumes "map_ok s" "map_of (cj_tasks s) ch = Some t" "sk_job t' = sk_job t"
    and s': "cj_map s' = cj_map s" "cj_next s \<le> cj_next s'" "cj_tasks s' = AList.update ch t' (cj_tasks s)"
  shows "map_ok s'"
  unfolding map_ok_def
proof (intro allI impI)
  fix j c assume "map_of (cj_map s') j = Some c"
  then have "c < cj_next s" "\<forall>t. map_of (cj_tasks s) c = Some t \<longrightarrow> sk_job t = j" "\<forall>i. map_of (cj_map s) i = Some c \<longrightarrow> i = j"
    using assms(1) s'(1) unfolding map_ok_def by metis+
  then show "c < cj_next s' \<and> (\<forall>t. map_of (cj_tasks s') c = Some t \<longrightarrow> sk_job t = j) \<and> (\<forall>i. map_of (cj_map s') i = Some c \<longrightarrow> i = j)"
    using assms(2,3) s' by (cases "c = ch") (simp_all add: update_conv')
qed

lemma clients_ok_interval:
  assumes "clients_ok s" "map_of (cj_tasks s) ch = Some t"
  shows "clients_ok (s\<lparr>cj_tasks := AList.update ch (t\<lparr>sk_interval := n\<rparr>) (cj_tasks s)\<rparr>)" (is "clients_ok ?s")
proof (rule clients_okI)
  show "listeners_ok ?s"
    unfolding listeners_ok_def
  proof (intro allI impI)
    fix l cl assume "map_of (cj_listeners ?s) l = Some cl"
    then have "map_of (cj_listeners s) l = Some cl" by simp
    from listener_task[OF assms(1) this] obtain t' where "map_of (cj_tasks s) (cl_channel cl) = Some t'" "sk_listener t' = l" "sk_job t' = cl_job cl"
      "(cl_channel cl, Restart_Signal) \<notin> set (cj_signals s)" by metis
    then show "(\<exists>t. map_of (cj_tasks ?s) (cl_channel cl) = Some t \<and> sk_listener t = l \<and> sk_job t = cl_job cl)
        \<and> (cl_channel cl, Restart_Signal) \<notin> set (cj_signals ?s)"
      using assms(2) by (cases "cl_channel cl = ch") (auto simp: update_conv')
  qed
  show "tasks_ok ?s" using assms unfolding clients_ok_def tasks_ok_def by (auto simp: update_conv')
  show "map_ok ?s" by (rule map_ok_update[OF _ assms(2)]) (use assms(1) in \<open>simp_all add: clients_ok_def\<close>)
  show "signals_ok ?s" using assms unfolding clients_ok_def signals_ok_def by (auto simp: update_conv')
qed

lemma clients_ok_restarted:
  assumes ok: "clients_ok s" and t: "map_of (cj_tasks s) ch = Some t" and first: "first_signal ch (cj_signals s) = Some Restart_Signal"
  shows "clients_ok (s\<lparr>cj_next := Suc (cj_next s), cj_listeners := (cj_next s, \<lparr>cl_job = sk_job t, cl_channel = ch\<rparr>) # cj_listeners s,
    cj_signals := drop_signal ch (cj_signals s), cj_tasks := AList.update ch (t\<lparr>sk_listener := cj_next s, sk_interval := 10\<rparr>) (cj_tasks s)\<rparr>)"
    (is "clients_ok ?s")
proof -
  have one: "length (filter (\<lambda>e. e = (c, Restart_Signal)) (cj_signals s)) \<le> 1" for c using ok by (simp add: clients_ok_def signals_ok_def)
  have "listeners_ok ?s"
    unfolding listeners_ok_def
  proof (intro allI impI)
    fix l cl assume l: "map_of (cj_listeners ?s) l = Some cl"
    show "(\<exists>t. map_of (cj_tasks ?s) (cl_channel cl) = Some t \<and> sk_listener t = l \<and> sk_job t = cl_job cl)
        \<and> (cl_channel cl, Restart_Signal) \<notin> set (cj_signals ?s)"
    proof (cases "l = cj_next s")
      case True
      then show ?thesis using l drop_signal_last[OF first one] by (auto simp: update_conv')
    next
      case False
      then have old: "map_of (cj_listeners s) l = Some cl" using l by simp
      obtain t' where t': "map_of (cj_tasks s) (cl_channel cl) = Some t'" "sk_listener t' = l" "sk_job t' = cl_job cl"
        "(cl_channel cl, Restart_Signal) \<notin> set (cj_signals s)" using listener_task[OF ok old] by metis
      then have "cl_channel cl \<noteq> ch" using first_signal_in[OF first] by auto
      then show ?thesis using t' set_drop_signal[of ch "cj_signals s"] by (auto simp: update_conv')
    qed
  qed
  moreover have "tasks_ok ?s"
    using ok t drop_signal_other[OF _ first] unfolding clients_ok_def tasks_ok_def by (auto simp: update_conv' less_Suc_eq)
  moreover have "map_ok ?s" by (rule map_ok_update[OF _ t]) (use ok in \<open>simp_all add: clients_ok_def\<close>)
  moreover have "length (filter (\<lambda>e. e = (c, Restart_Signal)) (drop_signal ch (cj_signals s))) \<le> 1" for c
    using filter_drop_signal one le_trans by blast
  then have "signals_ok ?s"
    using ok set_drop_signal[of ch "cj_signals s"] unfolding clients_ok_def signals_ok_def by (auto simp: update_conv')
  ultimately show ?thesis by (rule clients_okI)
qed

lemma clients_ok_restart:
  assumes ok: "clients_ok s" and t: "map_of (cj_tasks s) ch = Some t" and first: "first_signal ch (cj_signals s) = Some Restart_Signal"
  shows "clients_ok (restart_task srv ch t s)"
proof (cases rule: client_notification_listener_cases[of srv "sk_uri t" "sk_job t" ch s])
  case (failed e tr)
  have "clients_ok (s\<lparr>trace := tr\<rparr>)" using ok by simp
  from clients_ok_interval[OF this] t show ?thesis by (simp add: restart_task_def failed)
next
  case (started tr)
  have "clients_ok (s\<lparr>trace := tr\<rparr>)" using ok by simp
  from clients_ok_restarted[OF this, of ch t] t first show ?thesis
    by (simp add: restart_task_def started)
qed

lemma clients_ok_signal: "clients_ok s \<Longrightarrow> map_of (cj_tasks s) ch = Some t \<Longrightarrow> clients_ok (signal_step srv ch t s)"
  by (simp add: signal_step_def clients_ok_restart clients_ok_stop_task split: option.splits ClientJobSignal.splits)

text \<open>Taking a job out of the map and telling its task to stop, as one step.\<close>

lemma tasks_ok_taken:
  assumes ok: "clients_ok s" and ch: "map_of (cj_map s) j = Some ch" and sigs: "set (cj_signals s) \<subseteq> set sigs"
    and stop: "map_of (cj_tasks s) ch \<noteq> None \<Longrightarrow> (ch, Stop_Signal) \<in> set sigs"
  shows "tasks_ok (s\<lparr>cj_map := AList.delete j (cj_map s), cj_signals := sigs\<rparr>)" (is "tasks_ok ?s")
  unfolding tasks_ok_def
proof (intro allI impI)
  fix c t assume "map_of (cj_tasks ?s) c = Some t"
  then have t: "map_of (cj_tasks s) c = Some t" by simp
  then have "c < cj_next s" "sk_listener t < cj_next s" "map_of (cj_map s) (sk_job t) = Some c \<or> (c, Stop_Signal) \<in> set (cj_signals s)"
    using ok by (auto simp: clients_ok_def tasks_ok_def)
  then show "c < cj_next ?s \<and> sk_listener t < cj_next ?s \<and> (map_of (cj_map ?s) (sk_job t) = Some c \<or> (c, Stop_Signal) \<in> set (cj_signals ?s))"
    using sigs stop ch t by (cases "sk_job t = j") (auto simp: AList.delete_conv')
qed

lemma clients_ok_taken:
  assumes ok: "clients_ok s" and ch: "map_of (cj_map s) j = Some ch"
  shows "map_of (cj_tasks s) ch \<noteq> None \<Longrightarrow> clients_ok (s\<lparr>cj_map := AList.delete j (cj_map s), cj_signals := cj_signals s @ [(ch, Stop_Signal)]\<rparr>)"
    and "map_of (cj_tasks s) ch = None \<Longrightarrow> clients_ok (s\<lparr>cj_map := AList.delete j (cj_map s)\<rparr>)"
proof -
  have rest: "listeners_ok (s\<lparr>cj_map := AList.delete j (cj_map s), cj_signals := cj_signals s @ sigs\<rparr>)"
    "map_ok (s\<lparr>cj_map := AList.delete j (cj_map s), cj_signals := cj_signals s @ sigs\<rparr>)"
    if "\<forall>e \<in> set sigs. snd e = Stop_Signal" for sigs
    using ok that by (fastforce simp: clients_ok_def listeners_ok_def, simp add: clients_ok_def map_ok_def AList.delete_conv')
  have one: "length (filter (\<lambda>e. e = (c, Restart_Signal)) (cj_signals s)) \<le> 1" for c using ok by (simp add: clients_ok_def signals_ok_def)
  have alive: "\<forall>e \<in> set (cj_signals s). map_of (cj_tasks s) (fst e) \<noteq> None" using ok by (simp add: clients_ok_def signals_ok_def)
  show "clients_ok (s\<lparr>cj_map := AList.delete j (cj_map s), cj_signals := cj_signals s @ [(ch, Stop_Signal)]\<rparr>)"
    if "map_of (cj_tasks s) ch \<noteq> None"
    using rest[of "[(ch, Stop_Signal)]"] tasks_ok_taken[OF ok ch, of "cj_signals s @ [(ch, Stop_Signal)]"] one alive that
    by (intro clients_okI) (simp_all add: signals_ok_def subset_insertI)
  show "clients_ok (s\<lparr>cj_map := AList.delete j (cj_map s)\<rparr>)" if "map_of (cj_tasks s) ch = None"
    using rest[of "[]"] tasks_ok_taken[OF ok ch, of "cj_signals s"] one alive that by (intro clients_okI) (simp_all add: signals_ok_def)
qed

definition stop_registered :: "int \<Rightarrow> (('f, 'x) clients_scheme, unit) prog" where
  "stop_registered job_id = and_then (take_job job_id) (\<lambda>job.
     case job of
       None \<Rightarrow> return ()
     | Some ch \<Rightarrow> and_then (task_alive ch) (\<lambda>alive. if alive then send_signal ch Stop_Signal else throw (Bail ''channel closed'')))"

lemma stop_registered_ok:
  assumes ok: "clients_ok s"
  shows "clients_ok (snd (stop_registered j s))"
proof (cases "map_of (cj_map s) j")
  case None
  then have "AList.delete j (cj_map s) = cj_map s" by (simp add: delete_idem map_of_eq_None_iff)
  then show ?thesis using None ok by (simp add: stop_registered_def and_then_def take_job_def return_def)
next
  case (Some ch)
  then show ?thesis using clients_ok_taken[OF ok Some]
    by (cases "map_of (cj_tasks s) ch") (simp_all add: stop_registered_def and_then_def take_job_def task_alive_def send_signal_def throw_def)
qed

lemma stop_client_job_keeps: "keeps clients_ok (stop_client_job srv u j tb sc rm)"
proof -
  have "keeps clients_ok (stop_registered j)" by (rule keepsI) (rule stop_registered_ok)
  moreover have "appends (remove_client_triggers srv u j tb sc)" unfolding remove_client_triggers_def by (intro appends_intros)
  then have "keeps clients_ok (remove_client_triggers srv u j tb sc)" by (rule appends_keeps) simp
  ultimately show ?thesis
    unfolding stop_client_job_def stop_registered_def[symmetric]
    by (cases rm) (auto intro!: keeps_seq attempt_keeps triple_return)
qed

lemma clients_ok_next: "clients_ok s \<Longrightarrow> clients_ok (s\<lparr>cj_next := Suc (cj_next s)\<rparr>)"
  unfolding clients_ok_def listeners_ok_def tasks_ok_def map_ok_def signals_ok_def by (simp add: less_Suc_eq)

lemma fresh_channel:
  assumes "clients_ok s"
  shows "map_of (cj_tasks s) (cj_next s) = None" "(cj_next s, sig) \<notin> set (cj_signals s)" "map_of (cj_listeners s) l = Some cl \<Longrightarrow> cl_channel cl \<noteq> cj_next s"
proof -
  show t: "map_of (cj_tasks s) (cj_next s) = None"
    using assms unfolding clients_ok_def tasks_ok_def by (metis less_irrefl not_Some_eq)
  show "(cj_next s, sig) \<notin> set (cj_signals s)" using assms t unfolding clients_ok_def signals_ok_def by force
  show "map_of (cj_listeners s) l = Some cl \<Longrightarrow> cl_channel cl \<noteq> cj_next s" using listener_task[OF assms] t by (metis option.discI)
qed

lemma clients_ok_registered:
  assumes ok: "clients_ok s" and free: "map_of (cj_map s) j = None"
  shows "clients_ok (s\<lparr>cj_next := Suc (cj_next s), cj_map := AList.update j (cj_next s) (cj_map s)\<rparr>)" (is "clients_ok ?s")
proof (rule clients_okI)
  show "listeners_ok ?s" "signals_ok ?s" using ok by (simp_all add: clients_ok_def listeners_ok_def signals_ok_def)
  have "map_of (cj_map s) i \<noteq> Some (cj_next s)" for i using ok by (force simp: clients_ok_def map_ok_def)
  then show "map_ok ?s" using ok fresh_channel(1)[OF ok] by (simp add: clients_ok_def map_ok_def update_conv' less_Suc_eq) metis
  show "tasks_ok ?s"
    unfolding tasks_ok_def
  proof (intro allI impI)
    fix c t assume "map_of (cj_tasks ?s) c = Some t"
    then have "c < cj_next s" "sk_listener t < cj_next s" "map_of (cj_map s) (sk_job t) = Some c \<or> (c, Stop_Signal) \<in> set (cj_signals s)"
      using ok by (auto simp: clients_ok_def tasks_ok_def)
    then show "c < cj_next ?s \<and> sk_listener t < cj_next ?s \<and> (map_of (cj_map ?s) (sk_job t) = Some c \<or> (c, Stop_Signal) \<in> set (cj_signals ?s))"
      using free by (auto simp: update_conv')
  qed
qed

lemma clients_ok_running:
  assumes ok: "clients_ok s" and ch: "map_of (cj_map s) j = Some ch" and free: "map_of (cj_tasks s) ch = None"
    and t: "sk_job t = j" "sk_listener t = cj_next s"
  shows "clients_ok (s\<lparr>cj_next := Suc (cj_next s), cj_listeners := (cj_next s, \<lparr>cl_job = j, cl_channel = ch\<rparr>) # cj_listeners s,
    cj_tasks := (ch, t) # cj_tasks s\<rparr>)" (is "clients_ok ?s")
proof (rule clients_okI)
  have ch_lt: "ch < cj_next s" and "\<forall>e \<in> set (cj_signals s). fst e \<noteq> ch"
    using ok ch free by (auto simp: clients_ok_def map_ok_def signals_ok_def)
  then have no_sig: "(ch, sig) \<notin> set (cj_signals s)" for sig by auto
  show "listeners_ok ?s"
    unfolding listeners_ok_def
  proof (intro allI impI)
    fix l cl assume l: "map_of (cj_listeners ?s) l = Some cl"
    show "(\<exists>t. map_of (cj_tasks ?s) (cl_channel cl) = Some t \<and> sk_listener t = l \<and> sk_job t = cl_job cl)
        \<and> (cl_channel cl, Restart_Signal) \<notin> set (cj_signals ?s)"
    proof (cases "l = cj_next s")
      case False
      then have "map_of (cj_listeners s) l = Some cl" using l by simp
      from listener_task[OF ok this] free show ?thesis by (metis (no_types, lifting) clients.select_convs(3,4) clients.surjective
            clients.update_convs(1,4,5) fun_upd_apply map_of.simps(2) option.discI fst_conv)
    qed (use l t no_sig in auto)
  qed
  show "tasks_ok ?s" using ok ch t ch_lt by (simp add: clients_ok_def tasks_ok_def less_Suc_eq)
  show "map_ok ?s"
    unfolding map_ok_def
  proof (intro allI impI)
    fix i c assume "map_of (cj_map ?s) i = Some c"
    then have i: "map_of (cj_map s) i = Some c" by simp
    have "c < cj_next s" "\<forall>t. map_of (cj_tasks s) c = Some t \<longrightarrow> sk_job t = i" "\<forall>k. map_of (cj_map s) k = Some c \<longrightarrow> k = i"
      using ok i by (auto simp: clients_ok_def map_ok_def)
    then show "c < cj_next ?s \<and> (\<forall>t. map_of (cj_tasks ?s) c = Some t \<longrightarrow> sk_job t = i) \<and> (\<forall>k. map_of (cj_map ?s) k = Some c \<longrightarrow> k = i)"
      using ch t by auto
  qed
  show "signals_ok ?s" using ok by (auto simp: clients_ok_def signals_ok_def)
qed

definition start_registered ::
  "'f server \<Rightarrow> int \<Rightarrow> string \<Rightarrow> string \<Rightarrow> string \<Rightarrow> string \<Rightarrow> string \<Rightarrow> string \<Rightarrow> (('f, 'x) clients_scheme, unit) prog" where
  "start_registered srv job_id pk db_uri src_column out_column table schema =
    and_then fresh (\<lambda>ch.
    seq (seq (do_call srv (Connect db_uri)) (setup_client_triggers srv job_id pk src_column table schema (get_notification_channel_name job_id)))
    (seq (register_job job_id ch)
    (and_then (client_notification_listener srv db_uri job_id ch) (\<lambda>l.
      run_signal_task ch \<lparr>sk_job = job_id, sk_listener = l, sk_interval = 10,
        sk_filter = get_missing_rows_filter src_column out_column, sk_uri = db_uri\<rparr>))))"

lemma appends_setup: "appends (setup_client_triggers srv j pk c tb sc chan)"
proof -
  have "snd (check_table_exists srv n s) = snd (do_call srv (Execute (''SELECT ctid FROM '' @ n @ '' LIMIT 1'') []) s)" for n and s :: "('a, 'b) world_scheme"
    by (simp add: check_table_exists_def split: prod.splits sum.splits)
  then have "appends (check_table_exists srv n :: (('a, 'b) world_scheme, unit) prog)" for n
    using appends_do_call[of srv] by (simp add: appends_def)
  then show ?thesis unfolding setup_client_triggers_def by (intro appends_intros)
qed

lemma start_registered_ok:
  assumes ok: "clients_ok s" and free: "map_of (cj_map s) j = None"
  shows "clients_ok (snd (start_registered srv j pk u c oc tb sc s))"
proof -
  let ?m = "seq (do_call srv (Connect u)) (setup_client_triggers srv j pk c tb sc (get_notification_channel_name j))"
  let ?s1 = "s\<lparr>cj_next := Suc (cj_next s)\<rparr>"
  have "appends ?m" by (intro appends_intros appends_setup)
  then obtain tr where tr: "snd (?m ?s1) = ?s1\<lparr>trace := trace ?s1 @ tr\<rparr>" unfolding appends_def by blast
  show ?thesis
  proof (cases "fst (?m ?s1)")
    case (Inl e)
    then have "?m ?s1 = (Inl e, ?s1\<lparr>trace := trace ?s1 @ tr\<rparr>)" using tr by (metis prod.collapse)
    then show ?thesis using clients_ok_next[OF ok] by (simp add: start_registered_def and_then_def fresh_def seq_err)
  next
    case (Inr x)
    then have m: "?m ?s1 = (Inr x, ?s1\<lparr>trace := trace ?s1 @ tr\<rparr>)" using tr by (metis prod.collapse)
    define s2 where "s2 = s\<lparr>cj_next := Suc (cj_next s), trace := trace s @ tr, cj_map := AList.update j (cj_next s) (cj_map s)\<rparr>"
    have "s2 = s\<lparr>trace := trace s @ tr, cj_next := Suc (cj_next s), cj_map := AList.update j (cj_next s) (cj_map s)\<rparr>"
      by (cases s) (simp add: s2_def)
    then have s2: "clients_ok s2" using clients_ok_registered[of "s\<lparr>trace := trace s @ tr\<rparr>" j] ok free by simp
    have ch: "map_of (cj_map s2) j = Some (cj_next s)" "map_of (cj_tasks s2) (cj_next s) = None"
      using fresh_channel(1)[OF ok] by (simp_all add: s2_def update_conv')
    have eq: "start_registered srv j pk u c oc tb sc s =
        and_then (client_notification_listener srv u j (cj_next s)) (\<lambda>l. run_signal_task (cj_next s)
          \<lparr>sk_job = j, sk_listener = l, sk_interval = 10, sk_filter = get_missing_rows_filter c oc, sk_uri = u\<rparr>) s2"
      unfolding start_registered_def s2_def using m by (simp add: and_then_def[of fresh] fresh_def seq_ok register_job_def)
    show ?thesis
    proof (cases rule: client_notification_listener_cases[of srv u j "cj_next s" s2])
      case (failed e t)
      then show ?thesis using s2 by (simp add: eq and_then_def)
    next
      case (started t)
      have "clients_ok (s2\<lparr>trace := t\<rparr>)" using s2 by simp
      from clients_ok_running[OF this, of j "cj_next s"] ch started show ?thesis by (simp add: eq and_then_def run_signal_task_def)
    qed
  qed
qed

lemma start_client_job_keeps:
  fixes srv :: "'f server"
  shows "keeps (clients_ok :: ('f, 'x) clients_scheme \<Rightarrow> bool) (start_client_job srv j pk u c oc tb sc)"
proof (rule keepsI)
  fix s :: "('f, 'x) clients_scheme" assume ok: "clients_ok s"
  have eq: "start_client_job srv j pk u c oc tb sc s =
      seq (if map_of (cj_map s) j \<noteq> None then stop_client_job srv u j tb sc False else return ()) (start_registered srv j pk u c oc tb sc) s"
    by (simp add: start_client_job_def start_registered_def and_then_def[of "is_active j"] is_active_def seq_assoc)
  show "clients_ok (snd (start_client_job srv j pk u c oc tb sc s))"
  proof (cases "map_of (cj_map s) j")
    case None
    then show ?thesis using start_registered_ok[OF ok None] by (simp add: eq seq_ok return_def)
  next
    case (Some ch)
    obtain r s1 where stop: "stop_client_job srv u j tb sc False s = (r, s1)" by fastforce
    have s1: "clients_ok s1" using keepsD[OF stop_client_job_keeps ok, of srv u j tb sc False] stop by simp
    have stopped: "stop_registered j s = (r, s1)"
      using stop by (simp add: stop_client_job_def stop_registered_def[symmetric] seq_ok[OF return_apply])
    show ?thesis
    proof (cases r)
      case (Inl e)
      then show ?thesis using Some stop s1 by (simp add: eq seq_err)
    next
      case (Inr x)
      have "map_of (cj_map s1) j = None"
        using stopped Some Inr by (cases "map_of (cj_tasks s) ch")
          (auto simp: stop_registered_def and_then_def take_job_def task_alive_def send_signal_def throw_def AList.delete_conv')
      from start_registered_ok[OF s1 this] show ?thesis using Some stop Inr by (simp add: eq seq_ok)
    qed
  qed
qed

lemma toggle_client_job_keeps: "keeps clients_ok (toggle_client_job srv j u pk c oc tb sc enable)"
  unfolding toggle_client_job_def
  by (intro keeps_seq attempt_keeps triple_return) (simp add: start_client_job_keeps stop_client_job_keeps)

lemma for_each_keeps: "(\<And>x. keeps P (f x)) \<Longrightarrow> keeps P (for_each f xs)"
  by (induction xs) (auto intro: triple_return keeps_seq)

lemma stop_all_keeps:
  assumes "clients_ok s"
  shows "clients_ok (snd (stop_all_client_jobs srv u sc s))"
  unfolding stop_all_client_jobs_def
  by (rule keepsD[where P = clients_ok and s = s], intro for_each_keeps keeps_seq attempt_keeps triple_return stop_client_job_keeps) (rule assms)

lemma clients_ok_step:
  assumes "cstep srv s s'" "clients_ok s"
  shows "clients_ok s'"
  using assms(1)
proof (cases rule: cstep.cases)
  case (toggled job_id db_uri pk src_column out_column table schema enable)
  show ?thesis unfolding toggled by (rule keepsD[OF toggle_client_job_keeps assms(2)])
qed (simp_all add: assms(2) stop_all_keeps clients_ok_message clients_ok_end clients_ok_signal)

lemma clients_ok_reachable: "(cstep srv)\<^sup>*\<^sup>* clients_init s \<Longrightarrow> clients_ok s"
proof (induction rule: rtranclp_induct)
  case base
  show ?case by (simp add: clients_ok_def listeners_ok_def tasks_ok_def map_ok_def signals_ok_def clients_init_def)
qed (rule clients_ok_step)


definition quiet_server :: "bool server" where
  "quiet_server t c = Done 0"

definition client_started :: "bool clients" where
  "client_started = snd (toggle_client_job quiet_server 7 ''postgres://h/db'' ''id'' ''body'' ''vec'' ''articles'' ''public'' True clients_init)"

lemma client_started_reachable: "(cstep quiet_server)\<^sup>*\<^sup>* clients_init client_started"
  unfolding client_started_def by (intro r_into_rtranclp cstep.toggled)

lemma client_started_eq:
  "cj_listeners client_started = [(1, \<lparr>cl_job = 7, cl_channel = 0\<rparr>)]" "cj_signals client_started = []" "cj_map client_started = [(7, 0)]"
  "map fst (cj_tasks client_started) = [0]"
  by (simp_all add: client_started_def toggle_client_job_def start_client_job_def is_active_def clients_init_def fresh_def
      setup_client_triggers_def check_table_exists_def register_job_def client_notification_listener_def run_listener_def run_signal_task_def
      attempt_def do_call_def call_def quiet_server_def and_then_def seq_def)



end
