(* ===== verification/Autotune_Jobs.thy ===== *)
theory Autotune_Jobs
  imports Client_Jobs Autotune
begin

text \<open>
  \<^verbatim>\<open>lantern_cli/src/daemon/autotune_jobs.rs\<close>, and the start of both kinds of jobs: the autotune jobs as read
  from the job table, the processor, the worker with its cancellation, and the insertion of jobs. The
  worker runs the job of the theory Autotune; its two databases and the daemon's own are separate.
\<close>

section \<open>Jobs\<close>

definition AUTOTUNE_JOB_TABLE_DEFINITION :: string where
  "AUTOTUNE_JOB_TABLE_DEFINITION =
    quote_ident ''id'' @ '' SERIAL PRIMARY KEY, '' @ quote_ident ''schema'' @ '' text NOT NULL DEFAULT '' @ sq ''public'' @ '', '' @
    quote_ident ''table'' @ '' text NOT NULL, '' @ quote_ident ''column'' @ '' text NOT NULL, '' @ quote_ident ''operator'' @ '' text NOT NULL, '' @
    quote_ident ''target_recall'' @ '' DOUBLE PRECISION NOT NULL, '' @ quote_ident ''embedding_model'' @ '' text NULL, '' @
    quote_ident ''k'' @ '' int NOT NULL, '' @ quote_ident ''n'' @ '' int NOT NULL, '' @ quote_ident ''create_index'' @ '' bool NOT NULL, '' @
    quote_ident ''created_at'' @ '' timestamp NOT NULL DEFAULT CURRENT_TIMESTAMP, '' @
    quote_ident ''updated_at'' @ '' timestamp NOT NULL DEFAULT CURRENT_TIMESTAMP, '' @
    quote_ident ''canceled_at'' @ '' timestamp, '' @ quote_ident ''started_at'' @ '' timestamp, '' @ quote_ident ''progress'' @ '' INT2 DEFAULT 0, '' @
    quote_ident ''finished_at'' @ '' timestamp, '' @ quote_ident ''failed_at'' @ '' timestamp, '' @ quote_ident ''failure_reason'' @ '' text''"

definition RESULT_TABLE_DEFINITION :: string where
  "RESULT_TABLE_DEFINITION =
    ''id SERIAL PRIMARY KEY, experiment_id INT NOT NULL, ef INT NOT NULL, efc INT NOT NULL, m INT NOT NULL, '' @
    ''recall DOUBLE PRECISION NOT NULL, latency DOUBLE PRECISION NOT NULL, build_time DOUBLE PRECISION NULL''"

record AutotuneJob =
  aj_id :: int
  aj_is_init :: bool
  aj_db_uri :: string
  aj_schema :: string
  aj_table :: string
  aj_column :: string
  aj_metric_kind :: string
  aj_model_name :: "string option"
  aj_recall :: f64
  aj_k :: nat
  aj_sample_size :: nat
  aj_create_index :: bool

definition as_u16 :: "int \<Rightarrow> nat" where
  "as_u16 i = nat (i mod 2 ^ 16)"

definition autotune_job_query_sql :: "string \<Rightarrow> string" where
  "autotune_job_query_sql full_table_name =
    ''SELECT id, '' @ quote_ident ''column'' @ '',  '' @ quote_ident ''table'' @ '', '' @ quote_ident ''schema'' @
    '', embedding_model as model, target_recall, k, n as sample_size, create_index, operator as metric_kind, finished_at  FROM '' @ full_table_name"

text \<open>The columns are those of \<open>autotune_job_query_sql\<close>, in its order.\<close>

definition autotune_job_new :: "f64 sql_row \<Rightarrow> string \<Rightarrow> AutotuneJob result" where
  "autotune_job_new row db_uri =
    and_then_r (get_int 0 row) (\<lambda>job_id.
    and_then_r (get_text 3 row) (\<lambda>schema.
    and_then_r (get_text 2 row) (\<lambda>table.
    and_then_r (get_text 1 row) (\<lambda>src_column.
    and_then_r (get_text 9 row) (\<lambda>metric_kind.
    and_then_r (get_opt_text 4 row) (\<lambda>model_name.
    and_then_r (get_double 5 row) (\<lambda>recall.
    and_then_r (get_int 6 row) (\<lambda>k.
    and_then_r (get_int 7 row) (\<lambda>sample_size.
    and_then_r (get_bool 8 row) (\<lambda>create_index.
      Inr \<lparr>aj_id = job_id, aj_is_init = True, aj_db_uri = db_uri, aj_schema = schema, aj_table = table, aj_column = src_column,
           aj_metric_kind = metric_kind, aj_model_name = model_name, aj_recall = recall, aj_k = as_u16 k,
           aj_sample_size = as_usize sample_size, aj_create_index = create_index\<rparr>))))))))))"

definition autotune_args :: "string \<Rightarrow> string \<Rightarrow> string \<Rightarrow> string \<Rightarrow> AutotuneJob \<Rightarrow> IndexAutotuneArgs result" where
  "autotune_args export_db_uri schema table result_table job =
    and_then_r (from_ops (aj_metric_kind job)) (\<lambda>metric_kind.
      Inr \<lparr>ia_uri = aj_db_uri job, ia_schema = aj_schema job, ia_table = aj_table job, ia_column = aj_column job, ia_recall = aj_recall job,
           ia_k = aj_k job, ia_test_data_size = aj_sample_size job, ia_metric_kind = metric_kind, ia_create_index = aj_create_index job,
           ia_job_id = Some (aj_id job), ia_export_db_uri = Some export_db_uri, ia_export_schema_name = schema,
           ia_export_table_name = Some result_table, ia_job_schema_name = schema, ia_job_table_name = Some table,
           ia_model_name = aj_model_name job\<rparr>)"

section \<open>The worker\<close>

text \<open>
  The state: the daemon's own connection and handlers, the databases of the job that runs, the queue
  of jobs. \<open>cancel_at = Some n\<close> says that the cancellation message arrives so that the job sees it from
  its \<open>n\<close>-th variant on; None that the first event is the end of the job.
\<close>

record tuner = "f64 dworld" +
  tn_job :: autotune
  tn_queue :: "AutotuneJob list"

definition cancelled_from :: "nat option \<Rightarrow> nat \<Rightarrow> bool" where
  "cancelled_from cancel_at i = (case cancel_at of Some n \<Rightarrow> n \<le> i | None \<Rightarrow> False)"

definition autotune_job_processor :: "autotune_env \<Rightarrow> IndexAutotuneArgs \<Rightarrow> bool \<Rightarrow> nat option \<Rightarrow> (autotune, unit) prog" where
  "autotune_job_processor env args progress_callback cancel_at =
    autotune_index (env\<lparr>ae_callback := progress_callback, ae_cancelled := cancelled_from cancel_at\<rparr>) args"

definition progress_call :: "string \<Rightarrow> AutotuneJob \<Rightarrow> byte \<Rightarrow> f64 db_call" where
  "progress_call jobs_table_name job progress =
    Execute (''UPDATE '' @ jobs_table_name @ '' SET progress='' @ nat_digits (unat progress) @ '' WHERE id=$1'') [SInt (aj_id job)]"

definition progress_callback :: "f64 server \<Rightarrow> string \<Rightarrow> AutotuneJob \<Rightarrow> byte \<Rightarrow> ((f64, 'x) world_scheme, unit) prog" where
  "progress_callback srv jobs_table_name job progress =
    seq (attempt (do_call srv (progress_call jobs_table_name job progress))) (return ())"

definition job_finished_call :: "string \<Rightarrow> AutotuneJob \<Rightarrow> f64 db_call" where
  "job_finished_call jobs_table_name job =
    Execute (''UPDATE '' @ jobs_table_name @ '' SET finished_at=NOW(), updated_at=NOW() WHERE id=$1'') [SInt (aj_id job)]"

definition job_failed_call :: "string \<Rightarrow> AutotuneJob \<Rightarrow> string \<Rightarrow> f64 db_call" where
  "job_failed_call jobs_table_name job reason =
    Execute (''UPDATE '' @ jobs_table_name @ '' SET failed_at=NOW(), updated_at=NOW(), failure_reason=$1 WHERE id=$2'') [SText reason, SInt (aj_id job)]"

definition run_autotune_job :: "autotune_env \<Rightarrow> IndexAutotuneArgs \<Rightarrow> AutotuneJob \<Rightarrow> nat option \<Rightarrow> (tuner, unit result \<times> byte list) prog" where
  "run_autotune_job env args job cancel_at s =
    (case autotune_job_processor env args (aj_is_init job) cancel_at ((tn_job s)\<lparr>au_reported := []\<rparr>) of
       (r, w) \<Rightarrow> (Inr (r, au_reported w), s\<lparr>tn_job := w\<rparr>))"

text \<open>
  One job. A panic of the job ends the processor, which then sends no result. The progress is reported
  while the worker waits for the result.
\<close>

definition autotune_worker_step ::
  "f64 server \<Rightarrow> autotune_env \<Rightarrow> string \<Rightarrow> string \<Rightarrow> string \<Rightarrow> string \<Rightarrow> (AutotuneJob \<Rightarrow> nat option) \<Rightarrow> AutotuneJob \<Rightarrow> (tuner, unit) prog" where
  "autotune_worker_step srv env export_db_uri schema table result_table cancel_at job =
    (let jobs_table_name = get_full_table_name schema table
     in and_then (lift_r (autotune_args export_db_uri schema table result_table job)) (\<lambda>args.
        seq (set_job_handle (aj_id job) (nat (aj_id job)))
        (and_then (run_autotune_job env args job (cancel_at job)) (\<lambda>(result, reported).
        seq (for_each (progress_callback srv jobs_table_name job) reported)
        (case result of
           Inr _ \<Rightarrow> seq (remove_job_handle (aj_id job)) (do_call srv (job_finished_call jobs_table_name job))
         | Inl (Panicked m) \<Rightarrow> throw (Panicked ''called `Option::unwrap()` on a `None` value'')
         | Inl e \<Rightarrow> seq (remove_job_handle (aj_id job)) (do_call srv (job_failed_call jobs_table_name job (error_text e))))))))"

definition autotune_worker ::
  "f64 server \<Rightarrow> autotune_env \<Rightarrow> string \<Rightarrow> string \<Rightarrow> string \<Rightarrow> string \<Rightarrow> (AutotuneJob \<Rightarrow> nat option) \<Rightarrow> AutotuneJob list \<Rightarrow> (tuner, unit) prog" where
  "autotune_worker srv env export_db_uri schema table result_table cancel_at =
    for_each (autotune_worker_step srv env export_db_uri schema table result_table cancel_at)"

section \<open>New jobs\<close>

definition push_job :: "AutotuneJob \<Rightarrow> (tuner, unit) prog" where
  "push_job job s = (Inr (), s\<lparr>tn_queue := tn_queue s @ [job]\<rparr>)"

definition autotune_started_call :: "string \<Rightarrow> int \<Rightarrow> f64 db_call" where
  "autotune_started_call full_table_name job_id =
    Execute (''UPDATE '' @ full_table_name @ '' SET started_at=NOW() WHERE started_at IS NULL AND id=$1'') [SInt job_id]"

definition autotune_insert_step :: "f64 server \<Rightarrow> string \<Rightarrow> string \<Rightarrow> JobInsertNotification \<Rightarrow> (tuner, unit) prog" where
  "autotune_insert_step srv full_table_name db_uri notification s =
    (case query_one srv (autotune_job_query_sql full_table_name @ '' WHERE id=$1 AND canceled_at IS NULL'') [SInt (jn_id notification)] s of
       (Inl _, s1) \<Rightarrow> (Inr (), s1)
     | (Inr row, s1) \<Rightarrow>
         and_then (lift_r (get_time_set 10 row)) (\<lambda>finished.
         and_then (if \<not> finished then execute_count srv (autotune_started_call full_table_name (jn_id notification)) else return 1) (\<lambda>updated_count.
           if \<not> finished \<and> updated_count = 0 \<and> \<not> jn_generate_missing notification then return ()
           else and_then (lift_r (autotune_job_new row db_uri)) push_job)) s1)"

definition autotune_insert_processor :: "f64 server \<Rightarrow> string \<Rightarrow> string \<Rightarrow> JobInsertNotification list \<Rightarrow> (tuner, unit) prog" where
  "autotune_insert_processor srv full_table_name db_uri = for_each (autotune_insert_step srv full_table_name db_uri)"

section \<open>Starting the jobs of a database\<close>

text \<open>
  What both start functions do before their tasks run: the set-up, and the query for the jobs that are
  pending, whose notifications are the first in the queue.
\<close>

record JobRunArgs =
  jr_uri :: string
  jr_schema :: string
  jr_table_name :: string
  jr_label :: "string option"
  jr_data_path :: "string option"

definition autotune_start :: "f64 server \<Rightarrow> JobRunArgs \<Rightarrow> ((f64, 'x) world_scheme, JobInsertNotification list) prog" where
  "autotune_start srv args =
    seq (do_call srv (Connect (jr_uri args)))
    (seq (startup_hook srv (jr_table_name args) AUTOTUNE_JOB_TABLE_DEFINITION (jr_schema args)
       \<lparr>lock_table_name = None, results_table = (Some ''autotune_results'', Some RESULT_TABLE_DEFINITION), usage_table = (None, None),
        failure_table = (None, None), migration = None\<rparr> ''lantern_cloud_autotune_jobs_v2'')
    (seq (do_call srv (Connect (jr_uri args)))
    (collect_pending_index_jobs srv (get_full_table_name (jr_schema args) (jr_table_name args)))))"

definition JOB_TABLE_DEFINITION :: string where
  "JOB_TABLE_DEFINITION =
    quote_ident ''id'' @ '' SERIAL PRIMARY KEY, '' @ quote_ident ''schema'' @ '' text NOT NULL DEFAULT '' @ sq ''public'' @ '', '' @
    quote_ident ''table'' @ '' text NOT NULL, '' @ quote_ident ''pk'' @ '' text NOT NULL DEFAULT '' @ sq ''id'' @ '', '' @
    quote_ident ''label'' @ '' text NULL, '' @ quote_ident ''job_type'' @ '' text DEFAULT '' @ sq ''embedding_generation'' @ '', '' @
    quote_ident ''column_type'' @ '' text DEFAULT '' @ sq ''REAL[]'' @ '', '' @ quote_ident ''runtime'' @ '' text NOT NULL DEFAULT '' @ sq ''ort'' @ '', '' @
    quote_ident ''runtime_params'' @ '' jsonb, '' @ quote_ident ''batch_size'' @ '' int NULL, '' @ quote_ident ''src_column'' @ '' text NOT NULL, '' @
    quote_ident ''dst_column'' @ '' text NOT NULL, '' @ quote_ident ''embedding_model'' @ '' text NOT NULL, '' @
    quote_ident ''created_at'' @ '' timestamp NOT NULL DEFAULT CURRENT_TIMESTAMP, '' @
    quote_ident ''updated_at'' @ '' timestamp NOT NULL DEFAULT CURRENT_TIMESTAMP, '' @ quote_ident ''canceled_at'' @ '' timestamp, '' @
    quote_ident ''init_started_at'' @ '' timestamp, '' @ quote_ident ''init_finished_at'' @ '' timestamp, '' @ quote_ident ''init_failed_at'' @ '' timestamp, '' @
    quote_ident ''init_failure_reason'' @ '' text, '' @ quote_ident ''init_progress'' @ '' int2 DEFAULT 0''"

definition USAGE_TABLE_DEFINITION :: string where
  "USAGE_TABLE_DEFINITION =
    quote_ident ''id'' @ '' SERIAL PRIMARY KEY, '' @ quote_ident ''job_id'' @ '' INT NOT NULL, '' @ quote_ident ''rows'' @ '' INT NOT NULL, '' @
    quote_ident ''tokens'' @ '' INT NOT NULL, '' @ quote_ident ''failed'' @ '' BOOL NOT NULL DEFAULT FALSE, '' @
    quote_ident ''created_at'' @ '' timestamp NOT NULL DEFAULT CURRENT_TIMESTAMP''"

definition FAILURE_TABLE_DEFINITION :: string where
  "FAILURE_TABLE_DEFINITION =
    quote_ident ''id'' @ '' SERIAL PRIMARY KEY, '' @ quote_ident ''job_id'' @ '' INT NOT NULL, '' @ quote_ident ''row_id'' @ '' INT NOT NULL, '' @
    quote_ident ''value'' @ '' TEXT, '' @ quote_ident ''created_at'' @ '' timestamp NOT NULL DEFAULT CURRENT_TIMESTAMP''"

definition embedding_start ::
  "'f server \<Rightarrow> (string \<Rightarrow> bool) \<Rightarrow> (string \<Rightarrow> mkdir_result) \<Rightarrow> JobRunArgs \<Rightarrow> (('f, 'x) world_scheme, string \<times> JobUpdateNotification list) prog" where
  "embedding_start srv path_exists create_dir args =
    seq (do_call srv (Connect (jr_uri args)))
    (and_then (lift_r (create_data_path path_exists create_dir (jr_data_path args))) (\<lambda>data_path.
    seq (startup_hook srv (jr_table_name args) JOB_TABLE_DEFINITION (jr_schema args)
       \<lparr>lock_table_name = Some EMB_LOCK_TABLE_NAME, results_table = (None, None),
        usage_table = (Some EMB_USAGE_TABLE_NAME, Some USAGE_TABLE_DEFINITION),
        failure_table = (Some EMB_FAILURE_TABLE_NAME, Some FAILURE_TABLE_DEFINITION), migration = None\<rparr> ''lantern_cloud_embedding_jobs_v2'')
    (seq (do_call srv (Connect (jr_uri args)))
    (and_then (collect_pending_jobs srv (get_full_table_name (jr_schema args) (jr_table_name args))) (\<lambda>pending.
      return (data_path, pending))))))"

section \<open>A job is settled once\<close>

lemma tuner_trace [simp]: "trace (s\<lparr>tn_job := w\<rparr>) = trace (s :: tuner)" "handlers (s\<lparr>tn_job := w\<rparr>) = handlers (s :: tuner)"
  by (cases s; simp)+

lemma progress_callbacks:
  "for_each (progress_callback srv tbl job) ps s = (Inr (), s\<lparr>trace := trace s @ map (progress_call tbl job) ps\<rparr>)"
proof (induction ps arbitrary: s)
  case (Cons p ps)
  have "progress_callback srv tbl job p s = (Inr (), s\<lparr>trace := trace s @ [progress_call tbl job p]\<rparr>)"
    using attempt_do_call_trace[of srv "progress_call tbl job p" s] by (auto simp: progress_callback_def seq_ok)
  then show ?case using Cons.IH by (simp add: seq_ok)
qed simp

lemma try_variant_cancelled: "ae_cancelled env i \<Longrightarrow> isl (fst (try_variant env args n tbl j gt i v s))"
  by (simp add: try_variant_def seq_def and_then_def throw_def split: prod.splits sum.splits)

lemma variant_loop_cancelled:
  assumes "ae_cancelled env 0"
  shows "isl (fst (variant_loop env (try_variant env args n tbl j gt) p 0 index_variants f [] s))"
proof -
  obtain v vs where vs: "index_variants = v # vs" by (simp add: index_variants_def)
  obtain e s1 where "try_variant env args n tbl j gt 0 v s = (Inl e, s1)"
    using try_variant_cancelled[OF assms, of args n tbl j gt v s] by (metis isl_def prod.collapse)
  then show ?thesis by (simp add: vs and_then_err)
qed

lemma autotune_index_cancelled:
  assumes "ia_model_name args = None" "ae_cancelled env 0"
  shows "isl (fst (autotune_index env args s))"
proof (rule ccontr)
  assume "\<not> isl (fst (autotune_index env args s))"
  then obtain u s' where "autotune_index env args s = (Inr u, s')" by (metis isl_def old.sum.exhaust prod.collapse)
  then have run: "autotune_index env args s = (Inr (), s')" by simp
  let ?loop = "\<lambda>gt. variant_loop env (try_variant env args (index_name_of env) (tmp_table_of args) (case ia_job_id args of Some j \<Rightarrow> j | None \<Rightarrow> ae_uuid env) gt)
    ((100 - 5 - 30) div word_of_nat (length index_variants)) 0 index_variants 5 []"
  obtain u p j x0 x3 x5 gt sz s0 s1 s2 s3 s4 s5 s6 existing rs where
    c: "do_call (ae_server env) u s = (Inr x0, s0)"
    and 1: "create_test_table (ae_server env) (tmp_table_of args) (get_full_table_name (ia_schema args) (ia_table args))
        (ia_column args) (ia_test_data_size args) s0 = (Inr sz, s1)"
    and 2: "calculate_ground_truth (ae_server env) (tmp_table_of args) (truth_table_of args)
        (sql_function (ia_metric_kind args)) (ia_k args) s1 = (Inr gt, s2)"
    and 3: "on_export p s2 = (Inr (x3 :: unit), s3)"
    and 4: "existing_results env args j sz s3 = (Inr existing, s4)"
    and 5: "autotune_report_progress (ae_callback env) 5 s4 = (Inr x5, s5)"
    and 6: "(if existing = [] then ?loop gt else return existing) s5 = (Inr rs, s6)"
    and 7: "finish_autotune env args (index_name_of env) rs s6 = (Inr (), s')"
    using run unfolding autotune_index_def Let_def seq_ok_iff and_then_ok_iff
    by (elim exE conjE) (rule that, assumption+)
  have "existing = []" using existing_results_no_model[OF assms(1) 4] .
  with 6 have "?loop gt s5 = (Inr rs, s6)" by simp
  then show False using variant_loop_cancelled[OF assms(2), of args "index_name_of env" "tmp_table_of args" _ gt _ 5 s5] by (metis fst_conv sum.disc(2))
qed

text \<open>
  C18. A job of the worker is settled by its last statement and by no other: the progress it reported, in order, then
  the mark that it finished when the tuning of the index succeeded, or that it failed with the reason. Its handler is
  removed, and a job that is cancelled before its first variant is never marked as finished.
\<close>

theorem autotune_job_settled:
  assumes "autotune_args export_db_uri schema table result_table job = Inr args"
    and "run_autotune_job env args job (cancel_at job) (s\<lparr>handlers := AList.update (aj_id job) (nat (aj_id job)) (handlers s)\<rparr>) = (Inr (r, reported), s1)"
    and "\<forall>m. r \<noteq> Inl (Panicked m)" "\<forall>t c m. srv t c \<noteq> DbError m"
  shows "\<exists>s' last. autotune_worker_step srv env export_db_uri schema table result_table cancel_at job s = (Inr (), s')
    \<and> trace s' = trace s @ map (progress_call (get_full_table_name schema table) job) reported @ [last]
    \<and> last = (case r of Inr _ \<Rightarrow> job_finished_call (get_full_table_name schema table) job
                     | Inl e \<Rightarrow> job_failed_call (get_full_table_name schema table) job (error_text e))
    \<and> map_of (handlers s') (aj_id job) = None
    \<and> (cancel_at job = Some 0 \<and> aj_model_name job = None \<longrightarrow> isl r)"
proof -
  have do_ok: "do_call srv c w = (Inr (), w\<lparr>trace := trace w @ [c]\<rparr>)" for c and w :: tuner
    using assms(4) by (simp add: do_call_ok_iff)
  let ?s0 = "s\<lparr>handlers := AList.update (aj_id job) (nat (aj_id job)) (handlers s)\<rparr>"
  let ?s2 = "s1\<lparr>trace := trace s1 @ map (progress_call (get_full_table_name schema table) job) reported\<rparr>"
  have s1: "trace s1 = trace s" using assms(2) by (auto simp: run_autotune_job_def split: prod.splits)
  have step: "autotune_worker_step srv env export_db_uri schema table result_table cancel_at job s =
      (case r of
         Inr _ \<Rightarrow> seq (remove_job_handle (aj_id job)) (do_call srv (job_finished_call (get_full_table_name schema table) job))
       | Inl (Panicked m) \<Rightarrow> throw (Panicked ''called `Option::unwrap()` on a `None` value'')
       | Inl e \<Rightarrow> seq (remove_job_handle (aj_id job)) (do_call srv (job_failed_call (get_full_table_name schema table) job (error_text e)))) ?s2"
  proof -
    have 1: "and_then (lift_r (Inr a)) f w = f a w" for a :: IndexAutotuneArgs and f and w :: tuner by (simp add: and_then_def)
    have 2: "seq (set_job_handle i h) m w = m (w\<lparr>handlers := AList.update i h (handlers w)\<rparr>)" for i h m and w :: tuner
      by (simp add: seq_ok set_job_handle_def)
    have 3: "and_then (run_autotune_job env args job (cancel_at job)) k ?s0 = k (r, reported) s1" for k using assms(2) by (simp add: and_then_def)
    have 4: "seq (for_each (progress_callback srv tbl job) ps) m w = m (w\<lparr>trace := trace w @ map (progress_call tbl job) ps\<rparr>)"
      for tbl ps m and w :: tuner by (simp add: seq_ok progress_callbacks)
    show ?thesis unfolding autotune_worker_step_def Let_def assms(1) 1 2 3 prod.case 4 ..
  qed
  have "isl r" if "cancel_at job = Some 0" "aj_model_name job = None"
  proof -
    have "ia_model_name args = None" using assms(1) that(2) by (auto simp: autotune_args_def and_then_r_eq_Inr)
    then show ?thesis
      using assms(2) that(1) autotune_index_cancelled[of args "env\<lparr>ae_callback := aj_is_init job, ae_cancelled := cancelled_from (Some 0)\<rparr>"]
      by (auto simp: run_autotune_job_def autotune_job_processor_def cancelled_from_def split: prod.splits) (metis fst_conv)
  qed
  then show ?thesis unfolding step using assms(3) s1
    by (cases r) (auto simp: seq_ok remove_job_handle_def do_ok AList.delete_conv' split: error.splits)
qed

definition sample_tuning_job :: "string \<Rightarrow> AutotuneJob" where
  "sample_tuning_job op =
    \<lparr>aj_id = 3, aj_is_init = True, aj_db_uri = ''db'', aj_schema = ''public'', aj_table = ''t'', aj_column = ''v'', aj_metric_kind = op,
     aj_model_name = None, aj_recall = Num 99, aj_k = 1, aj_sample_size = 10, aj_create_index = True\<rparr>"

definition offline_env :: autotune_env where
  "offline_env = demo_tuning_env\<lparr>ae_server := (\<lambda>t c. DbError ''connection refused'')\<rparr>"

definition idle_tuner :: tuner where
  "idle_tuner = \<lparr>trace = [], handlers = [], hd_sent = [], tn_job = demo_tuning_start, tn_queue = []\<rparr>"

theorem autotune_job_settled_witness:
  "\<exists>s'. autotune_worker_step (\<lambda>t c. Done 1) offline_env ''db'' ''l'' ''jobs'' ''results'' (\<lambda>j. None) (sample_tuning_job ''dist_cos_ops'') idle_tuner = (Inr (), s')
    \<and> trace s' = [job_failed_call (get_full_table_name ''l'' ''jobs'') (sample_tuning_job ''dist_cos_ops'') ''connection refused'']
    \<and> map_of (handlers s') 3 = None"
proof -
  let ?job = "sample_tuning_job ''dist_cos_ops''"
  obtain args where args: "autotune_args ''db'' ''l'' ''jobs'' ''results'' ?job = Inr args"
    by (simp add: autotune_args_def sample_tuning_job_def from_ops_def)
  obtain s1 where run: "run_autotune_job offline_env args ?job None
      (idle_tuner\<lparr>handlers := AList.update (aj_id ?job) (nat (aj_id ?job)) (handlers idle_tuner)\<rparr>) = (Inr (Inl (IoError ''connection refused''), []), s1)"
    by (simp add: run_autotune_job_def autotune_job_processor_def autotune_index_def offline_env_def do_call_def call_def seq_def and_then_def throw_def
        split: prod.splits)
  from autotune_job_settled[OF args, of offline_env "\<lambda>j. None", OF run, of "\<lambda>t c. Done 1"] show ?thesis
    by (auto simp: idle_tuner_def sample_tuning_job_def)
qed

text \<open>
  A job whose operator class is not known ends the worker before any statement is sent: the job is not marked as
  failed, and the jobs behind it are not run.
\<close>

theorem autotune_worker_poisoned:
  assumes "from_ops (aj_metric_kind job) = Inl e"
  shows "autotune_worker srv env export_db_uri schema table result_table cancel_at (job # jobs) s = (Inl e, s)"
  using assms by (simp add: autotune_worker_def autotune_worker_step_def Let_def autotune_args_def seq_def and_then_def lift_r_def)

theorem autotune_worker_poisoned_witness:
  "\<exists>e. autotune_worker (\<lambda>t c. Done 1) demo_tuning_env ''db'' ''l'' ''jobs'' ''results'' (\<lambda>j. None)
     [sample_tuning_job ''dist_l1_ops'', sample_tuning_job ''dist_cos_ops''] idle_tuner = (Inl e, idle_tuner)"
  using autotune_worker_poisoned[of "sample_tuning_job ''dist_l1_ops''" "Bail ''Invalid ops dist_l1_ops''"]
  by (simp add: sample_tuning_job_def from_ops_def)

end
