(* ===== verification/Ort_Runtime.thy ===== *)
theory Ort_Runtime
  imports Embedding_Runtime Postgres Float64 "HOL-Library.AList"
begin

text \<open>
  \<^verbatim>\<open>lantern_cli/src/embeddings/core/ort_runtime.rs\<close>, the local ONNX runtime: pooling, the table of models,
  the division of a batch by the memory there is, the text and image encoders, the cache of loaded
  models with its memory checks, and the downloads. The tokenizer, the ONNX session, the image decoder,
  the file system, the network and the memory figures are arguments. A tensor is a nested list, batch
  first. No model sets padding or truncation parameters, so these are left out.
\<close>

section \<open>Pooling\<close>

type_synonym 'f tensor = "'f list list list"
type_synonym session_input = "int list list"

text \<open>The operations on \<^verbatim>\<open>f32\<close>; \<open>to_sum\<close> adds in the order of the tensor library.\<close>

record 'f tensor_ops =
  to_of_int :: "int \<Rightarrow> 'f"
  to_add :: "'f \<Rightarrow> 'f \<Rightarrow> 'f"
  to_sub :: "'f \<Rightarrow> 'f \<Rightarrow> 'f"
  to_mul :: "'f \<Rightarrow> 'f \<Rightarrow> 'f"
  to_div :: "'f \<Rightarrow> 'f \<Rightarrow> 'f"
  to_max :: "'f \<Rightarrow> 'f \<Rightarrow> 'f"
  to_ln :: "'f \<Rightarrow> 'f"
  to_sum :: "'f list \<Rightarrow> 'f"
  to_neg_inf :: 'f
  to_eps :: 'f

datatype PoolingStrategy = CLS | Mean | ReluLogMaxPooling

text \<open>Broadcasting of an axis: a length of one is repeated, another mismatch panics.\<close>

definition broadcast :: "nat \<Rightarrow> 'a list \<Rightarrow> 'a list result" where
  "broadcast n xs =
    (if length xs = n then Inr xs
     else case xs of [x] \<Rightarrow> Inr (replicate n x) | _ \<Rightarrow> Inl (Panicked ''could not broadcast array''))"

definition mask_vector :: "'f tensor_ops \<Rightarrow> nat \<Rightarrow> 'f list \<times> int \<Rightarrow> 'f list result" where
  "mask_vector ops output_dims = (\<lambda>(v, m).
    if length v = output_dims \<or> output_dims = 1 then Inr (map (\<lambda>x. to_mul ops x (to_of_int ops m)) v)
    else Inl (Panicked ''could not broadcast array''))"

definition mask_row :: "'f tensor_ops \<Rightarrow> nat \<Rightarrow> 'f list list \<times> int list \<Rightarrow> 'f list list result" where
  "mask_row ops output_dims = (\<lambda>(row, ms).
    and_then_r (broadcast (length row) ms) (\<lambda>ms. traverse_r (mask_vector ops output_dims) (zip row ms)))"

definition apply_mask :: "'f tensor_ops \<Rightarrow> 'f tensor \<Rightarrow> session_input \<Rightarrow> nat \<Rightarrow> 'f tensor result" where
  "apply_mask ops emb attention_mask output_dims =
    and_then_r (broadcast (length emb) attention_mask) (\<lambda>mask. traverse_r (mask_row ops output_dims) (zip emb mask))"

text \<open>The lanes of a row along its token axis, one per dimension.\<close>

definition lanes :: "nat \<Rightarrow> 'f list list \<Rightarrow> 'f list list" where
  "lanes output_dims row =
    map (\<lambda>j. map (\<lambda>v. v ! j) row) [0..<(case row of [] \<Rightarrow> output_dims | v # _ \<Rightarrow> length v)]"

definition relu_log :: "'f tensor_ops \<Rightarrow> 'f \<Rightarrow> 'f" where
  "relu_log ops x = to_ln ops (to_add ops (to_of_int ops 1) (to_max ops x (to_of_int ops 0)))"

definition relu_log_max_pooling :: "'f tensor_ops \<Rightarrow> 'f tensor \<Rightarrow> session_input \<Rightarrow> nat \<Rightarrow> 'f list list result" where
  "relu_log_max_pooling ops emb attention_mask output_dims =
    and_then_r (apply_mask ops (map (map (map (relu_log ops))) emb) attention_mask output_dims) (\<lambda>masked.
      Inr (map (\<lambda>row. map (\<lambda>lane. fold (\<lambda>b a. to_max ops a b) lane (to_neg_inf ops)) (lanes output_dims row)) masked))"

definition cls_pooling :: "'f tensor \<Rightarrow> nat \<Rightarrow> 'f list list result" where
  "cls_pooling emb output_dims =
    and_then_r (traverse_r (\<lambda>row. case row of [] \<Rightarrow> Inl (Panicked ''index out of bounds'') | v # _ \<Rightarrow> Inr v) emb) (\<lambda>firsts.
      if output_dims = 0 then Inl (Panicked ''assertion failed: size != 0'') else Inr (chunks output_dims (concat firsts)))"

definition mask_total :: "'f tensor_ops \<Rightarrow> int list \<Rightarrow> 'f" where
  "mask_total ops ms = to_max ops (to_sum ops (map (to_of_int ops) ms)) (to_eps ops)"

definition mean_pooling :: "'f tensor_ops \<Rightarrow> 'f tensor \<Rightarrow> session_input \<Rightarrow> nat \<Rightarrow> 'f list list result" where
  "mean_pooling ops emb attention_mask output_dims =
    and_then_r (apply_mask ops emb attention_mask output_dims) (\<lambda>masked.
    and_then_r (broadcast (length emb) (map (mask_total ops) attention_mask)) (\<lambda>totals.
      Inr (map (\<lambda>(row, total_weight). map (\<lambda>lane. to_div ops (to_sum ops lane) total_weight) (lanes output_dims row)) (zip masked totals))))"

fun pool :: "'f tensor_ops \<Rightarrow> PoolingStrategy \<Rightarrow> 'f tensor \<Rightarrow> session_input \<Rightarrow> nat \<Rightarrow> 'f list list result" where
  "pool ops CLS emb attention_mask output_dims = cls_pooling emb output_dims"
| "pool ops Mean emb attention_mask output_dims = mean_pooling ops emb attention_mask output_dims"
| "pool ops ReluLogMaxPooling emb attention_mask output_dims = relu_log_max_pooling ops emb attention_mask output_dims"

section \<open>Models\<close>

record ModelParams =
  layer_cnt :: "nat option"
  head_cnt :: "nat option"
  head_dim :: "nat option"
  pooling_strategy :: PoolingStrategy

record EncoderOptions =
  eo_visual :: bool
  eo_use_tokenizer :: bool
  eo_input_image_size :: "nat option"

definition DATA_PATH :: string where
  "DATA_PATH = ''.ldb_extras_data/''"

definition MAX_IMAGE_SIZE :: nat where
  "MAX_IMAGE_SIZE = 1024 * 1024 * 20"

text \<open>What the tokenizer gives for a text, and a loaded model: its session as functions of its inputs.\<close>

record encoding =
  get_ids :: "nat list"
  get_attention_mask :: "nat list"
  get_type_ids :: "nat list"

record 'f ort_session =
  se_inputs :: "string list"
  se_output_dims :: nat
  se_run :: "session_input list \<Rightarrow> 'f tensor result"
  se_run_clip :: "session_input \<Rightarrow> session_input \<Rightarrow> 'f list list result"
  se_run_image :: "'f tensor list \<Rightarrow> 'f list list result"

record 'f EncoderService =
  en_name :: string
  en_model_params :: ModelParams
  en_tokenizer :: "(string list \<Rightarrow> encoding list result) option"
  en_vision_size :: "nat option"
  en_encoder :: "'f ort_session"

record 'f ModelInfo =
  mi_url :: string
  mi_params :: ModelParams
  mi_tokenizer_url :: "string option"
  mi_onnx_data_url :: "string option"
  mi_encoder_args :: EncoderOptions
  mi_encoder :: "'f EncoderService option"

record ModelInfoBuilder =
  mb_base_url :: string
  mb_pooling_strategy :: "PoolingStrategy option"
  mb_use_tokenizer :: "bool option"
  mb_visual :: "bool option"
  mb_input_image_size :: "nat option"
  mb_layer_cnt :: "nat option"
  mb_head_cnt :: "nat option"
  mb_head_dim :: "nat option"
  mb_onnx_data :: bool

definition builder_new :: "string \<Rightarrow> ModelInfoBuilder" where
  "builder_new base_url =
    \<lparr>mb_base_url = base_url, mb_pooling_strategy = None, mb_use_tokenizer = None, mb_visual = None, mb_input_image_size = None,
     mb_layer_cnt = None, mb_head_cnt = None, mb_head_dim = None, mb_onnx_data = False\<rparr>"

definition with_tokenizer :: "bool \<Rightarrow> ModelInfoBuilder \<Rightarrow> ModelInfoBuilder" where
  "with_tokenizer status b = b\<lparr>mb_use_tokenizer := (if status then Some True else None)\<rparr>"

definition with_visual :: "bool \<Rightarrow> ModelInfoBuilder \<Rightarrow> ModelInfoBuilder" where
  "with_visual status b = b\<lparr>mb_visual := (if status then Some True else None)\<rparr>"

definition with_input_image_size :: "nat \<Rightarrow> ModelInfoBuilder \<Rightarrow> ModelInfoBuilder" where
  "with_input_image_size len b = b\<lparr>mb_input_image_size := Some len\<rparr>"

definition with_layer_cnt :: "nat \<Rightarrow> ModelInfoBuilder \<Rightarrow> ModelInfoBuilder" where
  "with_layer_cnt n b = b\<lparr>mb_layer_cnt := Some n\<rparr>"

definition with_head_cnt :: "nat \<Rightarrow> ModelInfoBuilder \<Rightarrow> ModelInfoBuilder" where
  "with_head_cnt n b = b\<lparr>mb_head_cnt := Some n\<rparr>"

definition with_head_dim :: "nat \<Rightarrow> ModelInfoBuilder \<Rightarrow> ModelInfoBuilder" where
  "with_head_dim n b = b\<lparr>mb_head_dim := Some n\<rparr>"

definition with_pooling_strategy :: "PoolingStrategy \<Rightarrow> ModelInfoBuilder \<Rightarrow> ModelInfoBuilder" where
  "with_pooling_strategy strategy b = b\<lparr>mb_pooling_strategy := Some strategy\<rparr>"

definition with_onnx_data :: "bool \<Rightarrow> ModelInfoBuilder \<Rightarrow> ModelInfoBuilder" where
  "with_onnx_data status b = b\<lparr>mb_onnx_data := status\<rparr>"

definition build :: "ModelInfoBuilder \<Rightarrow> 'f ModelInfo" where
  "build b =
    \<lparr>mi_url = mb_base_url b @ ''/model.onnx'',
     mi_params = \<lparr>layer_cnt = mb_layer_cnt b, head_cnt = mb_head_cnt b, head_dim = mb_head_dim b,
       pooling_strategy = (case mb_pooling_strategy b of Some p \<Rightarrow> p | None \<Rightarrow> CLS)\<rparr>,
     mi_tokenizer_url = (if mb_use_tokenizer b \<noteq> None then Some (mb_base_url b @ ''/tokenizer.json'') else None),
     mi_onnx_data_url = (if mb_onnx_data b then Some (mb_base_url b @ ''/model.onnx_data'') else None),
     mi_encoder_args = \<lparr>eo_visual = (mb_visual b \<noteq> None), eo_use_tokenizer = (mb_use_tokenizer b \<noteq> None), eo_input_image_size = mb_input_image_size b\<rparr>,
     mi_encoder = None\<rparr>"

definition hub :: "string \<Rightarrow> ModelInfoBuilder" where
  "hub path = builder_new (''https://huggingface.co/varik77/onnx-models/resolve/main/'' @ path)"

definition sized :: "nat \<Rightarrow> nat \<Rightarrow> nat \<Rightarrow> ModelInfoBuilder \<Rightarrow> ModelInfoBuilder" where
  "sized layers heads hdim b = with_head_dim hdim (with_head_cnt heads (with_layer_cnt layers b))"

definition MODEL_INFO_MAP :: "(string \<times> 'f ModelInfo) list" where
  "MODEL_INFO_MAP = map (\<lambda>(n, b). (n, build b))
    [(''clip/ViT-B-32-textual'', with_tokenizer True (hub ''openai/ViT-B-32/textual'')),
     (''clip/ViT-B-32-visual'', with_input_image_size 224 (with_visual True (hub ''openai/ViT-B-32/visual''))),
     (''BAAI/bge-small-en'', with_tokenizer True (hub ''BAAI/bge-small-en-v1.5'')),
     (''BAAI/bge-base-en'', with_tokenizer True (hub ''BAAI/bge-base-en-v1.5'')),
     (''BAAI/bge-large-en'', with_tokenizer True (hub ''BAAI/bge-large-en-v1.5'')),
     (''BAAI/bge-m3'', sized 8 4 64 (with_onnx_data True (with_tokenizer True (hub ''BAAI/bge-m3'')))),
     (''intfloat/e5-base-v2'', with_tokenizer True (hub ''intfloat/e5-base-v2'')),
     (''intfloat/e5-large-v2'', with_tokenizer True (hub ''intfloat/e5-large-v2'')),
     (''llmrails/ember-v1'', with_tokenizer True (hub ''llmrails/ember-v1'')),
     (''thenlper/gte-base'', with_tokenizer True (hub ''thenlper/gte-base'')),
     (''thenlper/gte-large'', with_tokenizer True (hub ''thenlper/gte-large'')),
     (''microsoft/all-MiniLM-L12-v2'', with_tokenizer True (hub ''microsoft/all-MiniLM-L12-v2'')),
     (''microsoft/all-mpnet-base-v2'', with_tokenizer True (hub ''microsoft/all-mpnet-base-v2'')),
     (''transformers/multi-qa-mpnet-base-dot-v1'', with_tokenizer True (hub ''transformers/multi-qa-mpnet-base-dot-v1'')),
     (''jinaai/jina-embeddings-v2-small-en'', with_pooling_strategy Mean (sized 4 4 64 (with_tokenizer True (hub ''jinaai/jina-embeddings-v2-small-en'')))),
     (''jinaai/jina-embeddings-v2-base-en'', with_pooling_strategy Mean (sized 12 12 64 (with_tokenizer True (hub ''jinaai/jina-embeddings-v2-base-en'')))),
     (''naver/splade-v3'', with_pooling_strategy ReluLogMaxPooling (sized 12 12 64 (with_tokenizer True (hub ''naver/splade-v3''))))]"

section \<open>The encoders\<close>

text \<open>\<^verbatim>\<open>usize\<close> arithmetic wraps; the conversion from a float truncates and saturates.\<close>

definition f64_as_usize :: "f64 \<Rightarrow> nat" where
  "f64_as_usize x = (case x of Num r \<Rightarrow> min (nat (trunc_rat r)) (2 ^ 64 - 1) | Infinite s \<Rightarrow> (if s then 2 ^ 64 - 1 else 0) | NaN \<Rightarrow> 0)"

definition get_required_memory :: "(rat \<Rightarrow> rat) \<Rightarrow> ModelParams \<Rightarrow> nat \<Rightarrow> nat" where
  "get_required_memory rnd model_params seq_length =
    (case (layer_cnt model_params, head_cnt model_params, head_dim model_params) of
       (Some num_layers, Some num_heads, Some hdim) \<Rightarrow>
         let total_memory = ((4 * num_layers * num_heads ^ 2 * hdim ^ 2
               + num_layers * num_heads * seq_length * (seq_length + 2 * hdim)) * 8) mod 2 ^ 64
         in f64_as_usize (f_mul rnd (Num (rnd (of_nat total_memory))) (Num (rnd (12 / 10))))
     | _ \<Rightarrow> 1)"

definition from_shape_vec :: "nat \<Rightarrow> nat \<Rightarrow> int list \<Rightarrow> session_input result" where
  "from_shape_vec rows cols v =
    (if rows * cols \<noteq> length v then Inl (IoError ''incompatible shape'')
     else Inr (if cols = 0 then replicate rows [] else chunks cols v))"

definition push_chunk :: "nat \<Rightarrow> nat \<times> int list \<Rightarrow> session_input list list \<Rightarrow> session_input list list result" where
  "push_chunk token_cnt = (\<lambda>(i, chunk) inputs.
    (let inputs = (if length inputs = i then inputs @ [[]] else inputs)
     in if i < length inputs then and_then_r (from_shape_vec (length chunk div token_cnt) token_cnt chunk) (\<lambda>m. Inr (inputs[i := inputs ! i @ [m]]))
        else Inl (Panicked ''called `Option::unwrap()` on a `None` value'')))"

fun push_chunks :: "nat \<Rightarrow> nat \<Rightarrow> int list list \<Rightarrow> session_input list list \<Rightarrow> session_input list list result" where
  "push_chunks token_cnt i [] inputs = Inr inputs"
| "push_chunks token_cnt i (c # cs) inputs = and_then_r (push_chunk token_cnt (i, c) inputs) (push_chunks token_cnt (Suc i) cs)"

fun push_inputs :: "nat \<Rightarrow> nat \<Rightarrow> int list list \<Rightarrow> session_input list list \<Rightarrow> session_input list list result" where
  "push_inputs token_cnt max_token_cnt [] inputs = Inr inputs"
| "push_inputs token_cnt max_token_cnt (v # vs) inputs =
    and_then_r (push_chunks token_cnt 0 (chunks max_token_cnt v) inputs) (push_inputs token_cnt max_token_cnt vs)"

definition chunk_session_input :: "(rat \<Rightarrow> rat) \<Rightarrow> nat result \<Rightarrow> ModelParams \<Rightarrow> int list list \<Rightarrow> nat \<Rightarrow> session_input list list result" where
  "chunk_session_input rnd get_available_memory model_params vecs batch_size =
    (if vecs = [] then Inl (Panicked ''index out of bounds'')
     else if batch_size = 0 then Inl (Panicked ''attempt to divide by zero'')
     else let token_cnt = length (hd vecs) div batch_size
          in and_then_r get_available_memory (\<lambda>available_memory.
             let memory_needed_for_one_input = get_required_memory rnd model_params token_cnt
             in if memory_needed_for_one_input = 0 then Inl (Panicked ''attempt to divide by zero'')
                else let max_batch_size = min batch_size (max 1 (available_memory div memory_needed_for_one_input));
                         max_token_cnt = max_batch_size * token_cnt
                     in if max_token_cnt = 0 then Inl (Panicked ''chunk size must be non-zero'')
                        else push_inputs token_cnt max_token_cnt vecs []))"

text \<open>The inputs of the session the code knows, in the order the session has them.\<close>

definition input_of :: "string \<Rightarrow> encoding \<Rightarrow> int list option" where
  "input_of name e =
    (if name = ''input_ids'' then Some (map int (get_ids e))
     else if name = ''attention_mask'' then Some (map int (get_attention_mask e))
     else if name = ''token_type_ids'' then Some (map int (get_type_ids e))
     else None)"

definition known_inputs :: "string list \<Rightarrow> string list" where
  "known_inputs names = filter (\<lambda>n. n \<in> {''input_ids'', ''attention_mask'', ''token_type_ids''}) names"

definition input_vec :: "encoding list \<Rightarrow> string \<Rightarrow> int list" where
  "input_vec encs name = concat (map (\<lambda>e. case input_of name e of Some v \<Rightarrow> v | None \<Rightarrow> []) encs)"

fun last_index :: "'a \<Rightarrow> 'a list \<Rightarrow> nat option" where
  "last_index x [] = None"
| "last_index x (y # ys) = (case last_index x ys of Some i \<Rightarrow> Some (Suc i) | None \<Rightarrow> if x = y then Some 0 else None)"

definition embed_chunk :: "'f tensor_ops \<Rightarrow> 'f EncoderService \<Rightarrow> nat \<Rightarrow> session_input list \<Rightarrow> 'f list list result" where
  "embed_chunk ops enc attention_mask_idx chunk =
    and_then_r (se_run (en_encoder enc) chunk) (\<lambda>emb.
      if attention_mask_idx < length chunk
      then pool ops (pooling_strategy (en_model_params enc)) emb (chunk ! attention_mask_idx) (se_output_dims (en_encoder enc))
      else Inl (Panicked ''index out of bounds''))"

definition process_text_bert ::
  "'f tensor_ops \<Rightarrow> (rat \<Rightarrow> rat) \<Rightarrow> nat result \<Rightarrow> 'f EncoderService \<Rightarrow> string list \<Rightarrow> 'f EmbeddingResult result" where
  "process_text_bert ops rnd get_available_memory enc texts =
    (case en_tokenizer enc of
       None \<Rightarrow> Inl (Panicked ''called `Option::unwrap()` on a `None` value'')
     | Some encode_batch \<Rightarrow>
         and_then_r (encode_batch texts) (\<lambda>preprocessed.
         let names = known_inputs (se_inputs (en_encoder enc)); vecs = map (input_vec preprocessed) names
         in case last_index ''attention_mask'' names of
              None \<Rightarrow> Inl (Bail ''Could not get attention_mask_idx from sesssion inputs'')
            | Some attention_mask_idx \<Rightarrow>
                and_then_r (chunk_session_input rnd get_available_memory (en_model_params enc) vecs (length texts)) (\<lambda>input_chunks.
                and_then_r (traverse_r (embed_chunk ops enc attention_mask_idx) input_chunks) (\<lambda>vec_vec.
                  Inr \<lparr>embeddings = concat vec_vec,
                       processed_tokens = (if ''input_ids'' \<in> set names then length (input_vec preprocessed ''input_ids'') else 0)\<rparr>))))"

text \<open>The rows of a two-dimensional output, flattened and cut again at its second dimension.\<close>

definition output_rows :: "nat \<Rightarrow> 'f list list \<Rightarrow> 'f list list" where
  "output_rows output_dims rows = chunks (case rows of [] \<Rightarrow> output_dims | r # _ \<Rightarrow> length r) (concat rows)"

definition process_text_clip :: "'f EncoderService \<Rightarrow> string list \<Rightarrow> 'f EmbeddingResult result" where
  "process_text_clip enc texts =
    (case en_tokenizer enc of
       None \<Rightarrow> Inl (Panicked ''called `Option::unwrap()` on a `None` value'')
     | Some encode_batch \<Rightarrow>
         and_then_r (encode_batch texts) (\<lambda>preprocessed.
         if texts = [] then Inl (Panicked ''attempt to divide by zero'')
         else let v1 = input_vec preprocessed ''input_ids''; v2 = input_vec preprocessed ''attention_mask''
              in and_then_r (from_shape_vec (length texts) (length v1 div length texts) v1) (\<lambda>ids.
                 and_then_r (from_shape_vec (length texts) (length v2 div length texts) v2) (\<lambda>mask.
                 and_then_r (se_run_clip (en_encoder enc) ids mask) (\<lambda>rows.
                   Inr \<lparr>embeddings = output_rows (se_output_dims (en_encoder enc)) rows, processed_tokens = length v1\<rparr>)))))"

definition process_text ::
  "'f tensor_ops \<Rightarrow> (rat \<Rightarrow> rat) \<Rightarrow> nat result \<Rightarrow> 'f EncoderService \<Rightarrow> string list \<Rightarrow> 'f EmbeddingResult result" where
  "process_text ops rnd get_available_memory enc texts =
    (if en_name enc = ''clip/ViT-B-32-textual'' then process_text_clip enc texts
     else process_text_bert ops rnd get_available_memory enc texts)"

text \<open>
  An image decoded and scaled to the size of the model is a function from coordinates to the bytes of a pixel;
  \<open>clip\<close> holds mean and deviation of each channel.
\<close>

definition image_tensor :: "'f tensor_ops \<Rightarrow> ('f \<times> 'f) list \<Rightarrow> nat \<Rightarrow> (nat \<Rightarrow> nat \<Rightarrow> nat list) \<Rightarrow> 'f tensor" where
  "image_tensor ops clip vision_size pixel =
    map (\<lambda>c. map (\<lambda>x. map (\<lambda>y.
        to_div ops (to_sub ops (to_div ops (to_of_int ops (int (pixel x y ! c))) (to_of_int ops 255)) (fst (clip ! c))) (snd (clip ! c)))
      [0..<vision_size]) [0..<vision_size]) [0..<3]"

definition process_image_clip ::
  "'f tensor_ops \<Rightarrow> ('f \<times> 'f) list \<Rightarrow> (bytes \<Rightarrow> nat \<Rightarrow> (nat \<Rightarrow> nat \<Rightarrow> nat list) result) \<Rightarrow> 'f EncoderService \<Rightarrow> bytes list \<Rightarrow> 'f EmbeddingResult result" where
  "process_image_clip ops clip decode enc images_bytes =
    (let vision_size = (case en_vision_size enc of Some n \<Rightarrow> n | None \<Rightarrow> 224)
     in and_then_r (traverse_r (\<lambda>b. decode b vision_size) images_bytes) (\<lambda>images.
        and_then_r (se_run_image (en_encoder enc) (map (image_tensor ops clip vision_size) images)) (\<lambda>rows.
          Inr \<lparr>embeddings = output_rows (se_output_dims (en_encoder enc)) rows,
               processed_tokens = length images_bytes * 3 * vision_size * vision_size\<rparr>)))"

definition process_image ::
  "'f tensor_ops \<Rightarrow> ('f \<times> 'f) list \<Rightarrow> (bytes \<Rightarrow> nat \<Rightarrow> (nat \<Rightarrow> nat \<Rightarrow> nat list) result) \<Rightarrow> 'f EncoderService \<Rightarrow> bytes list \<Rightarrow> 'f EmbeddingResult result" where
  "process_image ops clip decode enc images_bytes = process_image_clip ops clip decode enc images_bytes"

section \<open>The runtime\<close>

text \<open>
  What the runtime gets from outside. A file is its content. The free memory is a function of the number of
  readings made so far; an HTTP answer is its status and its body, and for an image the length it announces.
\<close>

record 'f ort_env =
  oe_ops :: "'f tensor_ops"
  oe_rnd :: "rat \<Rightarrow> rat"
  oe_clip :: "('f \<times> 'f) list"
  oe_get :: "string \<Rightarrow> (nat \<times> string) result"
  oe_create :: "string \<Rightarrow> unit result"
  oe_tokenizer :: "string \<Rightarrow> (string list \<Rightarrow> encoding list result) option"
  oe_session :: "string \<Rightarrow> 'f ort_session result"
  oe_free_memory :: "nat \<Rightarrow> nat"
  oe_percent_gpu_memory_used :: "f64 result"
  oe_available_memory :: "nat result"
  oe_parse_url :: "string \<Rightarrow> string option"
  oe_get_image :: "string \<Rightarrow> (nat option \<times> bytes result) result"
  oe_is_absolute :: "string \<Rightarrow> bool"
  oe_read :: "string \<Rightarrow> bytes result"
  oe_decode :: "bytes \<Rightarrow> nat \<Rightarrow> (nat \<Rightarrow> nat \<Rightarrow> nat list) result"

record 'f ort =
  ort_models :: "(string \<times> 'f ModelInfo) list"
  ort_files :: "(string \<times> string) list"
  ort_readings :: nat

record OrtRuntime =
  rt_cache :: bool
  rt_data_path :: string

definition ort_runtime_new :: "(string option \<times> bool option) result \<Rightarrow> OrtRuntime result" where
  "ort_runtime_new params = and_then_r params (\<lambda>(data_path, cache).
    Inr \<lparr>rt_cache = (case cache of Some c \<Rightarrow> c | None \<Rightarrow> False), rt_data_path = (case data_path of Some p \<Rightarrow> p | None \<Rightarrow> DATA_PATH)\<rparr>)"

definition MEM_PERCENT_THRESHOLD :: f64 where
  "MEM_PERCENT_THRESHOLD = Num 80"

text \<open>The body of the answer is written whatever its status.\<close>

definition download_file :: "'f ort_env \<Rightarrow> string \<Rightarrow> string \<Rightarrow> ('f ort, unit) prog" where
  "download_file env url path s =
    (case and_then_r (oe_get env url) (\<lambda>(status, body). and_then_r (oe_create env path) (\<lambda>_. Inr body)) of
       Inl e \<Rightarrow> (Inl e, s)
     | Inr body \<Rightarrow> (Inr (), s\<lparr>ort_files := AList.update path body (ort_files s)\<rparr>))"

definition clear_model_cache :: "('f ort, unit) prog" where
  "clear_model_cache s = (Inr (), s\<lparr>ort_models := map (\<lambda>(n, m). (n, m\<lparr>mi_encoder := None\<rparr>)) (ort_models s)\<rparr>)"

definition read_free_memory :: "'f ort_env \<Rightarrow> ('f ort, nat) prog" where
  "read_free_memory env s = (Inr (oe_free_memory env (ort_readings s)), s\<lparr>ort_readings := Suc (ort_readings s)\<rparr>)"

definition file_content :: "string \<Rightarrow> ('f ort, string) prog" where
  "file_content path s = (case map_of (ort_files s) path of Some c \<Rightarrow> (Inr c, s) | None \<Rightarrow> (Inl (IoError ''No such file''), s))"

definition percent_of_free_mem :: "(rat \<Rightarrow> rat) \<Rightarrow> nat \<Rightarrow> nat \<Rightarrow> f64" where
  "percent_of_free_mem rnd model_size total_free_mem =
    f_mul rnd (f_div rnd (Num (rnd (of_nat model_size))) (Num (rnd (of_nat total_free_mem)))) (Num 100)"

definition check_available_memory :: "'f ort_env \<Rightarrow> OrtRuntime \<Rightarrow> string \<Rightarrow> ('f ort, unit) prog" where
  "check_available_memory env rt model_path =
    and_then (read_free_memory env) (\<lambda>total_free_mem.
    and_then (file_content model_path) (\<lambda>content.
    let model_size = length content;
        exceeded = f_le MEM_PERCENT_THRESHOLD (percent_of_free_mem (oe_rnd env) model_size total_free_mem)
    in seq (if exceeded
            then seq clear_model_cache (and_then (read_free_memory env) (\<lambda>total_free_mem.
                   if f_le MEM_PERCENT_THRESHOLD (percent_of_free_mem (oe_rnd env) model_size total_free_mem)
                   then throw (Bail ''Not enough free memory to run the model.'') else return ()))
            else return ())
       (if rt_cache rt
        then and_then (lift_r (oe_percent_gpu_memory_used env)) (\<lambda>used.
               if f_le MEM_PERCENT_THRESHOLD used \<and> \<not> exceeded then clear_model_cache else return ())
        else return ())))"

definition encoder_new :: "'f ort_env \<Rightarrow> string \<Rightarrow> ModelParams \<Rightarrow> string \<Rightarrow> EncoderOptions \<Rightarrow> ('f ort, 'f EncoderService) prog" where
  "encoder_new env model_name model_params model_folder args s =
    (let tokenizer = (if eo_use_tokenizer args
           then (case Option.bind (map_of (ort_files s) (model_folder @ ''/tokenizer.json'')) (oe_tokenizer env) of
                   Some t \<Rightarrow> Inr (Some t)
                 | None \<Rightarrow> Inl (Panicked ''called `Result::unwrap()` on an `Err` value''))
           else Inr None)
     in (and_then_r tokenizer (\<lambda>tokenizer.
         and_then_r (fst (file_content (model_folder @ ''/model.onnx'') s)) (\<lambda>content.
         and_then_r (oe_session env content) (\<lambda>session.
           Inr \<lparr>en_name = model_name, en_model_params = model_params, en_tokenizer = tokenizer,
                en_vision_size = eo_input_image_size args, en_encoder = session\<rparr>))), s))"

definition set_encoder :: "string \<Rightarrow> 'f EncoderService option \<Rightarrow> ('f ort, unit) prog" where
  "set_encoder model_name enc s =
    (Inr (), s\<lparr>ort_models := map (\<lambda>(n, m). (n, if n = model_name then m\<lparr>mi_encoder := enc\<rparr> else m)) (ort_models s)\<rparr>)"

definition download_missing :: "'f ort_env \<Rightarrow> string \<Rightarrow> string option \<Rightarrow> ('f ort, unit) prog" where
  "download_missing env path url s =
    (case url of
       Some u \<Rightarrow> if map_of (ort_files s) path = None then download_file env u path s else (Inr (), s)
     | None \<Rightarrow> (Inr (), s))"

definition get_model :: "string \<Rightarrow> ('f ort, 'f ModelInfo option) prog" where
  "get_model model_name s = (Inr (map_of (ort_models s) model_name), s)"

definition check_and_download_files :: "'f ort_env \<Rightarrow> OrtRuntime \<Rightarrow> string \<Rightarrow> ('f ort, unit) prog" where
  "check_and_download_files env rt model_name =
    and_then (get_model model_name) (\<lambda>model_info.
      case model_info of
        None \<Rightarrow> throw (Bail (''Model '' @ [CHR 0x22] @ model_name @ [CHR 0x22] @ '' not found.''))
      | Some model_info \<Rightarrow>
          if mi_encoder model_info \<noteq> None then return ()
          else let model_folder = rt_data_path rt @ ''/'' @ model_name; model_path = model_folder @ ''/model.onnx''
               in seq (download_missing env model_path (Some (mi_url model_info)))
                  (seq (download_missing env (model_folder @ ''/tokenizer.json'') (mi_tokenizer_url model_info))
                  (seq (download_missing env (model_folder @ ''/model.onnx_data'') (mi_onnx_data_url model_info))
                  (seq (check_available_memory env rt model_path)
                  (and_then (encoder_new env model_name (mi_params model_info) model_folder (mi_encoder_args model_info)) (\<lambda>enc.
                    set_encoder model_name (Some enc)))))))"

definition get_image_buffer :: "'f ort_env \<Rightarrow> string \<Rightarrow> bytes result" where
  "get_image_buffer env path_or_url =
    (case oe_parse_url env path_or_url of
       Some url \<Rightarrow> and_then_r (oe_get_image env url) (\<lambda>(content_length, body).
         if (case content_length of Some n \<Rightarrow> n | None \<Rightarrow> MAX_IMAGE_SIZE + 1) > MAX_IMAGE_SIZE
         then Inl (Bail ''[X] Maximum supported image size is 20MB'') else body)
     | None \<Rightarrow>
         if oe_is_absolute env path_or_url
         then (case oe_read env path_or_url of Inl e \<Rightarrow> Inl (Bail (''[X] Error while reading file '' @ path_or_url)) | Inr b \<Rightarrow> Inr b)
         else Inl (Bail (''[X] Expected URL or absolute path got: '' @ path_or_url)))"

text \<open>The downloads run in parallel and arrive in order; one that fails is an empty buffer.\<close>

definition get_images_parallel :: "'f ort_env \<Rightarrow> string list \<Rightarrow> bytes list" where
  "get_images_parallel env paths_or_urls = map (\<lambda>p. case get_image_buffer env p of Inr b \<Rightarrow> b | Inl _ \<Rightarrow> []) paths_or_urls"

fun map_back :: "'f list \<Rightarrow> bytes list \<Rightarrow> 'f list list \<Rightarrow> 'f list list result" where
  "map_back invalid_vec [] vs = Inr []"
| "map_back invalid_vec (b # bs) vs =
    (if b = [] then and_then_r (map_back invalid_vec bs vs) (\<lambda>r. Inr (invalid_vec # r))
     else case vs of
            [] \<Rightarrow> Inl (Panicked ''index out of bounds'')
          | v # vs' \<Rightarrow> and_then_r (map_back invalid_vec bs vs') (\<lambda>r. Inr (v # r)))"

definition process_visual :: "'f ort_env \<Rightarrow> 'f EncoderService \<Rightarrow> string list \<Rightarrow> 'f EmbeddingResult result" where
  "process_visual env enc inputs =
    (let buffers = get_images_parallel env inputs; filtered_buffers = filter (\<lambda>b. b \<noteq> []) buffers
     in and_then_r (if filtered_buffers \<noteq> [] then process_image (oe_ops env) (oe_clip env) (oe_decode env) enc filtered_buffers
                    else Inr \<lparr>embeddings = [], processed_tokens = 0\<rparr>) (\<lambda>model_result.
        and_then_r (map_back (replicate (se_output_dims (en_encoder enc)) (to_of_int (oe_ops env) (- 1))) buffers (embeddings model_result))
          (\<lambda>return_res. Inr \<lparr>embeddings = return_res, processed_tokens = processed_tokens model_result\<rparr>)))"

text \<open>
  The encoder is taken out of the cache after a text, and after images that could be embedded; the error of the
  images is returned before that.
\<close>

definition ort_process :: "'f ort_env \<Rightarrow> OrtRuntime \<Rightarrow> string \<Rightarrow> string list \<Rightarrow> ('f ort, 'f EmbeddingResult) prog" where
  "ort_process env rt model_name inputs =
    seq (check_and_download_files env rt model_name)
    (and_then (get_model model_name) (\<lambda>model_info.
      case model_info of
        None \<Rightarrow> throw (Panicked ''called `Option::unwrap()` on a `None` value'')
      | Some model_info \<Rightarrow>
          (case mi_encoder model_info of
             None \<Rightarrow> throw (Panicked ''called `Option::unwrap()` on a `None` value'')
           | Some enc \<Rightarrow>
               if eo_visual (mi_encoder_args model_info)
               then and_then (lift_r (process_visual env enc inputs)) (\<lambda>result.
                      seq (if rt_cache rt then return () else set_encoder model_name None) (return result))
               else let result = process_text (oe_ops env) (oe_rnd env) (oe_available_memory env) enc inputs
                    in case result of
                         Inl (Panicked m) \<Rightarrow> throw (Panicked m)
                       | _ \<Rightarrow> seq (if rt_cache rt then return () else set_encoder model_name None) (lift_r result))))"

section \<open>A batch cut to the memory gives the same embeddings\<close>

text \<open>What one text gives: its row of each input, and the pooling of its row of the output.\<close>

definition input_row :: "string \<Rightarrow> encoding \<Rightarrow> int list" where
  "input_row name e = (case input_of name e of Some v \<Rightarrow> v | None \<Rightarrow> [])"

definition masked_row :: "'f tensor_ops \<Rightarrow> 'f list list \<Rightarrow> int list \<Rightarrow> 'f list list" where
  "masked_row ops row ms = map2 (\<lambda>v m. map (\<lambda>x. to_mul ops x (to_of_int ops m)) v) row ms"

fun pool_row :: "'f tensor_ops \<Rightarrow> PoolingStrategy \<Rightarrow> nat \<Rightarrow> 'f list list \<Rightarrow> int list \<Rightarrow> 'f list" where
  "pool_row ops CLS d row ms = hd row"
| "pool_row ops Mean d row ms = map (\<lambda>lane. to_div ops (to_sum ops lane) (mask_total ops ms)) (lanes d (masked_row ops row ms))"
| "pool_row ops ReluLogMaxPooling d row ms =
    map (\<lambda>lane. fold (\<lambda>b a. to_max ops a b) lane (to_neg_inf ops)) (lanes d (masked_row ops (map (map (relu_log ops)) row) ms))"

definition text_embedding_of :: "'f tensor_ops \<Rightarrow> 'f EncoderService \<Rightarrow> (int list list \<Rightarrow> 'f list list) \<Rightarrow> encoding \<Rightarrow> 'f list" where
  "text_embedding_of ops enc f e =
    pool_row ops (pooling_strategy (en_model_params enc)) (se_output_dims (en_encoder enc))
      (f (map (\<lambda>n. input_row n e) (known_inputs (se_inputs (en_encoder enc))))) (map int (get_attention_mask e))"

text \<open>
  What is used of the tokenizer and of the session: a batch of texts is padded to one length, the rows of a
  batch do not influence each other, and the output of a row has one vector per token.
\<close>

definition padded :: "nat \<Rightarrow> encoding list \<Rightarrow> bool" where
  "padded token_cnt encs \<longleftrightarrow> 0 < token_cnt \<and>
    (\<forall>e \<in> set encs. length (get_ids e) = token_cnt \<and> length (get_attention_mask e) = token_cnt \<and> length (get_type_ids e) = token_cnt)"

definition rowwise :: "(session_input list \<Rightarrow> 'f tensor result) \<Rightarrow> (int list list \<Rightarrow> 'f list list) \<Rightarrow> bool" where
  "rowwise run f \<longleftrightarrow> (\<forall>ms n. ms \<noteq> [] \<and> (\<forall>m \<in> set ms. length m = n) \<longrightarrow> run ms = Inr (map (\<lambda>i. f (map (\<lambda>m. m ! i) ms)) [0..<n]))"

definition row_shape :: "nat \<Rightarrow> nat \<Rightarrow> (int list list \<Rightarrow> 'f list list) \<Rightarrow> bool" where
  "row_shape token_cnt d f \<longleftrightarrow> 0 < d \<and> (\<forall>rs. (\<forall>r \<in> set rs. length r = token_cnt) \<longrightarrow> length (f rs) = token_cnt \<and> (\<forall>v \<in> set (f rs). length v = d))"

lemma chunks_map: "chunks n (map f xs) = map (map f) (chunks n xs)"
proof (induction n xs rule: chunks.induct)
  case (1 n xs)
  then show ?case by (subst (1 2) chunks.simps) (auto simp: take_map drop_map)
qed

lemma from_shape_rows:
  assumes "0 < n" "\<forall>r \<in> set rows. length r = n"
  shows "from_shape_vec (length (concat rows) div n) n (concat rows) = Inr rows"
proof -
  have "length (concat rows) = length rows * n" using assms(2) by (induction rows) auto
  then show ?thesis using assms chunks_blocks[OF assms] by (simp add: from_shape_vec_def)
qed

lemma push_chunks_later:
  assumes "0 < n" "\<forall>es \<in> set ess. \<forall>e \<in> set es. length (row e) = n"
  shows "push_chunks n (length acc) (map (\<lambda>es. concat (map row es)) ess) (acc @ map G ess) =
    Inr (acc @ map (\<lambda>es. G es @ [map row es]) ess)"
  using assms(2)
proof (induction ess arbitrary: acc)
  case (Cons es ess)
  have "from_shape_vec (length (concat (map row es)) div n) n (concat (map row es)) = Inr (map row es)"
    by (rule from_shape_rows) (use assms(1) Cons.prems in auto)
  then have "push_chunk n (length acc, concat (map row es)) (acc @ map G (es # ess)) = Inr ((acc @ [G es @ [map row es]]) @ map G ess)"
    by (simp add: push_chunk_def Let_def nth_append)
  then show ?case using Cons.IH[of "acc @ [G es @ [map row es]]"] Cons.prems by simp
qed simp

lemma push_chunks_first:
  assumes "0 < n" "\<forall>es \<in> set ess. \<forall>e \<in> set es. length (row e) = n"
  shows "push_chunks n (length acc) (map (\<lambda>es. concat (map row es)) ess) acc = Inr (acc @ map (\<lambda>es. [map row es]) ess)"
  using assms(2)
proof (induction ess arbitrary: acc)
  case (Cons es ess)
  have "from_shape_vec (length (concat (map row es)) div n) n (concat (map row es)) = Inr (map row es)"
    by (rule from_shape_rows) (use assms(1) Cons.prems in auto)
  then have "push_chunk n (length acc, concat (map row es)) acc = Inr (acc @ [[map row es]])"
    by (simp add: push_chunk_def Let_def nth_append)
  then show ?case using Cons.IH[of "acc @ [[map row es]]"] Cons.prems by simp
qed simp

lemma chunks_of_texts:
  assumes "0 < n" "0 < k" "\<forall>e \<in> set encs. length (row e) = n"
  shows "chunks (k * n) (concat (map row encs)) = map (\<lambda>es. concat (map row es)) (chunks k encs)"
  using chunks_concat_blocks[of n k "map row encs"] assms by (simp add: chunks_map comp_def)

lemma in_chunks: "es \<in> set (chunks k xs) \<Longrightarrow> e \<in> set es \<Longrightarrow> e \<in> set xs"
proof (cases "k = 0")
  case False
  then have "concat (chunks k xs) = xs" by simp
  then show "es \<in> set (chunks k xs) \<Longrightarrow> e \<in> set es \<Longrightarrow> e \<in> set xs" by (metis set_concat UN_I)
qed (simp add: chunks.simps)

lemma push_inputs_texts:
  assumes n: "0 < n" "0 < k" and rows: "\<And>r e. r \<in> set rows \<Longrightarrow> e \<in> set encs \<Longrightarrow> length (r e) = n" and ne: "rows \<noteq> []"
  shows "push_inputs n (k * n) (map (\<lambda>r. concat (map r encs)) rows) [] = Inr (map (\<lambda>es. map (\<lambda>r. map r es) rows) (chunks k encs))"
proof -
  have later: "push_inputs n (k * n) (map (\<lambda>r. concat (map r encs)) rs) (map G (chunks k encs)) =
      Inr (map (\<lambda>es. G es @ map (\<lambda>r. map r es) rs) (chunks k encs))" if "set rs \<subseteq> set rows" for rs G
    using that
  proof (induction rs arbitrary: G)
    case (Cons r rs)
    have "\<forall>es \<in> set (chunks k encs). \<forall>e \<in> set es. length (r e) = n" using rows Cons.prems in_chunks by fastforce
    from push_chunks_later[OF n(1) this, of "[]" G] Cons.IH[of "\<lambda>es. G es @ [map r es]"] Cons.prems
    show ?case using rows by (simp add: chunks_of_texts[OF n])
  qed simp
  obtain r rs where r: "rows = r # rs" using ne by (cases rows) auto
  have "\<forall>es \<in> set (chunks k encs). \<forall>e \<in> set es. length (r e) = n" using rows r in_chunks by fastforce
  from push_chunks_first[OF n(1) this, of "[]"] later[of rs "\<lambda>es. [map r es]"]
  show ?thesis using rows r by (simp add: chunks_of_texts[OF n] subset_insertI)
qed

lemma mask_row_ok:
  assumes "length row = length ms" "\<forall>v \<in> set row. length v = d"
  shows "mask_row ops d (row, ms) = Inr (masked_row ops row ms)"
proof -
  have "traverse_r (mask_vector ops d) (zip row ms) = Inr (map (\<lambda>(v, m). map (\<lambda>x. to_mul ops x (to_of_int ops m)) v) (zip row ms))"
    by (rule traverse_r_all_ok) (use assms(2) in \<open>auto simp: mask_vector_def dest!: set_zip_leftD\<close>)
  then show ?thesis using assms(1) by (simp add: mask_row_def broadcast_def masked_row_def)
qed

lemma apply_mask_ok:
  assumes "\<And>e. e \<in> set es \<Longrightarrow> length (F e) = length (M e) \<and> (\<forall>v \<in> set (F e). length v = d)"
  shows "apply_mask ops (map F es) (map M es) d = Inr (map (\<lambda>e. masked_row ops (F e) (M e)) es)"
proof -
  have "traverse_r (mask_row ops d) (map (\<lambda>e. (F e, M e)) es) = Inr (map (\<lambda>p. masked_row ops (fst p) (snd p)) (map (\<lambda>e. (F e, M e)) es))"
    by (rule traverse_r_all_ok) (use assms in \<open>auto simp: mask_row_ok\<close>)
  then show ?thesis by (simp add: apply_mask_def broadcast_def zip_map_map zip_same_conv_map comp_def)
qed

lemma pool_rows:
  assumes rows: "\<And>e. e \<in> set es \<Longrightarrow> length (F e) = length (M e) \<and> F e \<noteq> [] \<and> (\<forall>v \<in> set (F e). length v = d)" and d: "0 < d"
  shows "pool ops st (map F es) (map M es) d = Inr (map (\<lambda>e. pool_row ops st d (F e) (M e)) es)"
proof (cases st)
  case CLS
  have "traverse_r (\<lambda>row. case row of [] \<Rightarrow> Inl (Panicked ''index out of bounds'') | v # _ \<Rightarrow> Inr v) (map F es) = Inr (map hd (map F es))"
    by (rule traverse_r_all_ok) (use rows in \<open>auto split: list.split\<close>)
  moreover have "chunks d (concat (map hd (map F es))) = map hd (map F es)"
    by (rule chunks_blocks[OF d]) (use rows in auto)
  ultimately show ?thesis using CLS d by (simp add: cls_pooling_def comp_def)
next
  case Mean
  have "apply_mask ops (map F es) (map M es) d = Inr (map (\<lambda>e. masked_row ops (F e) (M e)) es)" by (rule apply_mask_ok) (use rows in auto)
  then show ?thesis using Mean by (simp add: mean_pooling_def broadcast_def zip_map_map zip_same_conv_map comp_def)
next
  case ReluLogMaxPooling
  have "apply_mask ops (map (\<lambda>e. map (map (relu_log ops)) (F e)) es) (map M es) d =
      Inr (map (\<lambda>e. masked_row ops (map (map (relu_log ops)) (F e)) (M e)) es)"
    by (rule apply_mask_ok) (use rows in auto)
  then show ?thesis using ReluLogMaxPooling by (simp add: relu_log_max_pooling_def comp_def)
qed

lemma last_index_nth: "last_index x xs = Some i \<Longrightarrow> i < length xs \<and> xs ! i = x"
  by (induction xs arbitrary: i) (auto split: option.splits if_splits)

lemma last_index_in: "x \<in> set xs \<Longrightarrow> \<exists>i. last_index x xs = Some i"
  by (induction xs) (auto split: option.splits)

lemma input_row_length: "padded n encs \<Longrightarrow> name \<in> set (known_inputs names) \<Longrightarrow> e \<in> set encs \<Longrightarrow> length (input_row name e) = n"
  by (auto simp: padded_def known_inputs_def input_row_def input_of_def)

lemma embed_chunk_rows:
  fixes ops :: "'f tensor_ops" and enc :: "'f EncoderService" and f :: "int list list \<Rightarrow> 'f list list"
  defines "names \<equiv> known_inputs (se_inputs (en_encoder enc))"
  assumes run: "rowwise (se_run (en_encoder enc)) f" and shape: "row_shape n (se_output_dims (en_encoder enc)) f"
    and pad: "padded n es" and i: "last_index ''attention_mask'' names = Some i"
  shows "embed_chunk ops enc i (map (\<lambda>name. map (input_row name) es) names) = Inr (map (text_embedding_of ops enc f) es)"
proof -
  let ?F = "\<lambda>e. f (map (\<lambda>name. input_row name e) names)" and ?M = "\<lambda>e. map int (get_attention_mask e)"
  have i': "i < length names" "names ! i = ''attention_mask''" using last_index_nth[OF i] by auto
  then have ne: "names \<noteq> []" by auto
  have "se_run (en_encoder enc) (map (\<lambda>name. map (input_row name) es) names) =
      Inr (map (\<lambda>j. f (map (\<lambda>m. m ! j) (map (\<lambda>name. map (input_row name) es) names))) [0..<length es])"
    by (rule run[unfolded rowwise_def, rule_format]) (use ne in auto)
  also have "map (\<lambda>j. f (map (\<lambda>m. m ! j) (map (\<lambda>name. map (input_row name) es) names))) [0..<length es] = map ?F es"
    by (rule nth_equalityI) (simp_all add: comp_def)
  finally have 1: "se_run (en_encoder enc) (map (\<lambda>name. map (input_row name) es) names) = Inr (map ?F es)" .
  have 2: "map (\<lambda>name. map (input_row name) es) names ! i = map ?M es" using i' by (simp add: input_row_def input_of_def)
  have row: "length (?F e) = length (?M e) \<and> ?F e \<noteq> [] \<and> (\<forall>v \<in> set (?F e). length v = se_output_dims (en_encoder enc))" if e: "e \<in> set es" for e
  proof -
    have "\<forall>r \<in> set (map (\<lambda>name. input_row name e) names). length r = n" using input_row_length[OF pad _ e] by (auto simp: names_def)
    then have "length (?F e) = n \<and> (\<forall>v \<in> set (?F e). length v = se_output_dims (en_encoder enc))" using shape unfolding row_shape_def by blast
    moreover have "0 < n" "length (?M e) = n" using pad e by (auto simp: padded_def)
    ultimately show ?thesis by auto
  qed
  have "0 < se_output_dims (en_encoder enc)" using shape by (simp add: row_shape_def)
  then have "pool ops (pooling_strategy (en_model_params enc)) (map ?F es) (map ?M es) (se_output_dims (en_encoder enc)) =
      Inr (map (\<lambda>e. pool_row ops (pooling_strategy (en_model_params enc)) (se_output_dims (en_encoder enc)) (?F e) (?M e)) es)"
    using row by (intro pool_rows) auto
  also have "\<dots> = Inr (map (text_embedding_of ops enc f) es)" by (simp add: text_embedding_of_def names_def)
  finally show ?thesis using i' unfolding embed_chunk_def 1 by (simp add: 2)
qed

text \<open>
  C8. Whatever memory there is, and so into however many runs of the session a batch of texts is cut, every text
  gets the embedding that its own row gives, in the order of the texts.
\<close>

theorem text_embeddings_any_memory:
  assumes "en_tokenizer enc = Some encode_batch" "encode_batch texts = Inr encs" "length encs = length texts" "texts \<noteq> []" "padded n encs"
    and "rowwise (se_run (en_encoder enc)) f" "row_shape n (se_output_dims (en_encoder enc)) f"
    and "''attention_mask'' \<in> set (se_inputs (en_encoder enc))" "get_required_memory rnd (en_model_params enc) n \<noteq> 0"
  shows "\<exists>tokens. process_text_bert ops rnd (Inr available) enc texts =
    Inr \<lparr>embeddings = map (text_embedding_of ops enc f) encs, processed_tokens = tokens\<rparr>"
proof -
  let ?names = "known_inputs (se_inputs (en_encoder enc))"
  obtain i where i: "last_index ''attention_mask'' ?names = Some i" using last_index_in[of "''attention_mask''" ?names] assms(8) by (auto simp: known_inputs_def)
  have ne: "?names \<noteq> []" using last_index_nth[OF i] by auto
  define k where "k = min (length texts) (max 1 (available div get_required_memory rnd (en_model_params enc) n))"
  have k: "0 < k" "0 < n" using assms(4,5) by (auto simp: k_def padded_def)
  have vecs: "input_vec encs = (\<lambda>name. concat (map (input_row name) encs))" by (simp add: fun_eq_iff input_vec_def input_row_def[abs_def])
  have rows: "length (r e) = n" if "r \<in> set (map input_row ?names)" "e \<in> set encs" for r e using that input_row_length[OF assms(5)] by auto
  have push: "push_inputs n (k * n) (map (input_vec encs) ?names) [] = Inr (map (\<lambda>es. map (\<lambda>name. map (input_row name) es) ?names) (chunks k encs))"
    using push_inputs_texts[OF k(2,1), of "map input_row ?names" encs] rows ne unfolding vecs by (simp add: comp_def)
  have "length (concat (map (input_row (hd ?names)) encs)) = length texts * n"
  proof -
    have "\<forall>e \<in> set encs. length (input_row (hd ?names) e) = n" using input_row_length[OF assms(5) hd_in_set[OF ne]] by blast
    then show ?thesis unfolding assms(3)[symmetric] by (induction encs) auto
  qed
  then have cnt: "length (hd (map (input_vec encs) ?names)) div length texts = n" using ne assms(4) by (simp add: hd_map vecs)
  have chunked: "chunk_session_input rnd (Inr available) (en_model_params enc) (map (input_vec encs) ?names) (length texts) =
      Inr (map (\<lambda>es. map (\<lambda>name. map (input_row name) es) ?names) (chunks k encs))"
    unfolding chunk_session_input_def cnt Let_def and_then_r.simps k_def[symmetric] using ne assms(4,9) k push by simp
  have "traverse_r (embed_chunk ops enc i) (map (\<lambda>es. map (\<lambda>name. map (input_row name) es) ?names) (chunks k encs)) =
      Inr (map (map (text_embedding_of ops enc f)) (chunks k encs))"
  proof -
    have "embed_chunk ops enc i (map (\<lambda>name. map (input_row name) es) ?names) = Inr (map (text_embedding_of ops enc f) es)" if "es \<in> set (chunks k encs)" for es
      by (rule embed_chunk_rows[OF assms(6,7) _ i]) (use assms(5) in_chunks[OF that] in \<open>auto simp: padded_def\<close>)
    then show ?thesis by (induction "chunks k encs") (auto simp: traverse_r_Inr_iff)
  qed
  then show ?thesis
    using assms(1,2) i chunked k(1) by (simp add: process_text_bert_def Let_def map_concat[symmetric])
qed

definition demo_ops :: "int tensor_ops" where
  "demo_ops = \<lparr>to_of_int = (\<lambda>n. n), to_add = (+), to_sub = (-), to_mul = (*), to_div = (div), to_max = max, to_ln = (\<lambda>x. x),
    to_sum = sum_list, to_neg_inf = - 1000, to_eps = 1\<rparr>"

definition demo_row :: "int list list \<Rightarrow> int list list" where
  "demo_row rs = (case rs of [] \<Rightarrow> [[0, 0], [0, 0]] | r # _ \<Rightarrow> map (\<lambda>x. [x, 2 * x]) r)"

definition demo_pixels :: "int list list list \<Rightarrow> int list" where
  "demo_pixels t = [int (length t), 7]"

definition demo_session :: "int ort_session" where
  "demo_session = \<lparr>se_inputs = [''input_ids'', ''attention_mask''], se_output_dims = 2,
    se_run = (\<lambda>ms. Inr (map (\<lambda>i. demo_row (map (\<lambda>m. m ! i) ms)) [0..<(case ms of [] \<Rightarrow> 0 | m # _ \<Rightarrow> length m)])),
    se_run_clip = (\<lambda>ids mask. Inr ids), se_run_image = (\<lambda>ts. Inr (map demo_pixels ts))\<rparr>"

definition demo_encoding :: "string \<Rightarrow> encoding" where
  "demo_encoding t = \<lparr>get_ids = [length t, 5], get_attention_mask = [1, 1], get_type_ids = [0, 0]\<rparr>"

definition demo_encoder :: "int EncoderService" where
  "demo_encoder = \<lparr>en_name = ''m'', en_model_params = \<lparr>layer_cnt = Some 1, head_cnt = Some 1, head_dim = Some 1, pooling_strategy = Mean\<rparr>,
    en_tokenizer = Some (\<lambda>ts. Inr (map demo_encoding ts)), en_vision_size = Some 1, en_encoder = demo_session\<rparr>"

lemma demo_rowwise: "rowwise (se_run demo_session) demo_row"
  unfolding rowwise_def demo_session_def by (auto split: list.splits)

lemma demo_row_shape: "row_shape 2 2 demo_row"
  unfolding row_shape_def demo_row_def by (auto split: list.splits)

theorem text_embeddings_any_memory_witness:
  "\<exists>tokens. process_text_bert demo_ops (\<lambda>r. r) (Inr 100) demo_encoder [''a'', ''bcd''] =
    Inr \<lparr>embeddings = map (text_embedding_of demo_ops demo_encoder demo_row) [demo_encoding ''a'', demo_encoding ''bcd''], processed_tokens = tokens\<rparr>"
  by (rule text_embeddings_any_memory[where n = 2 and encode_batch = "\<lambda>ts. Inr (map demo_encoding ts)"])
    (use demo_rowwise demo_row_shape in
      \<open>auto simp: demo_encoder_def demo_session_def demo_encoding_def padded_def get_required_memory_def f64_as_usize_def trunc_rat_def Let_def\<close>)

lemma demo_batches: "text_embedding_of demo_ops demo_encoder demo_row (demo_encoding ''bcd'') = [4, 8]"
  by code_simp

section \<open>Images\<close>

lemma map_back_filter:
  "map_back invalid_vec bs (map g (filter (\<lambda>b. b \<noteq> []) bs)) = Inr (map (\<lambda>b. if b = [] then invalid_vec else g b) bs)"
  by (induction bs) auto


definition demo_ort_env :: "int ort_env" where
  "demo_ort_env = \<lparr>oe_ops = demo_ops, oe_rnd = (\<lambda>r. r), oe_clip = [(0, 1), (0, 1), (0, 1)], oe_get = (\<lambda>u. Inr (404, ''Not Found'')),
    oe_create = (\<lambda>p. Inr ()), oe_tokenizer = (\<lambda>c. None), oe_session = (\<lambda>c. Inr demo_session), oe_free_memory = (\<lambda>k. 1000 * k + 10),
    oe_percent_gpu_memory_used = Inr (Num 5), oe_available_memory = Inr 100, oe_parse_url = (\<lambda>p. None),
    oe_get_image = (\<lambda>u. Inl (IoError ''offline'')), oe_is_absolute = (\<lambda>p. p \<noteq> [] \<and> hd p = CHR ''/''),
    oe_read = (\<lambda>p. if p = ''/a'' then Inr [1, 2] else Inl (IoError ''missing'')), oe_decode = (\<lambda>b n. Inr (\<lambda>x y. [9, 0, 0]))\<rparr>"


section \<open>Memory and files\<close>


definition demo_ort :: "int ort" where
  "demo_ort = \<lparr>ort_models = MODEL_INFO_MAP, ort_files = [(''m'', ''0123456789'')], ort_readings = 0\<rparr>"


text \<open>
  C29. An answer of the server that is an error page is stored as the file of the model, and since the file then exists
  it is not downloaded again, whatever the server answers later.
\<close>

theorem error_page_stays:
  assumes "oe_get env url = Inr (404, page)" "oe_create env path = Inr ()" "map_of (ort_files s) path = None"
  shows "\<exists>s1. download_missing env path (Some url) s = (Inr (), s1) \<and> map_of (ort_files s1) path = Some page
    \<and> (\<forall>env' url'. download_missing env' path (Some url') s1 = (Inr (), s1))"
  using assms by (simp add: download_missing_def download_file_def update_conv')

theorem error_page_stays_witness:
  "\<exists>s1. download_missing demo_ort_env ''n'' (Some ''u'') demo_ort = (Inr (), s1) \<and> map_of (ort_files s1) ''n'' = Some ''Not Found''
    \<and> (\<forall>env' url'. download_missing env' ''n'' (Some url') s1 = (Inr (), s1))"
  by (rule error_page_stays) (simp_all add: demo_ort_env_def demo_ort_def)

text \<open>An image batch that cannot be embedded leaves the model loaded although the runtime does not cache.\<close>

lemma image_error_keeps_encoder:
  assumes "map_of (ort_models s) model_name = Some mi" "mi_encoder mi = Some enc" "eo_visual (mi_encoder_args mi)"
    "process_visual env enc inputs = Inl e"
  shows "ort_process env rt model_name inputs s = (Inl e, s)"
  using assms by (simp add: ort_process_def check_and_download_files_def get_model_def seq_def and_then_def)

lemma ort_models_distinct: "distinct (map fst (MODEL_INFO_MAP :: (string \<times> 'f ModelInfo) list))"
  by (simp add: MODEL_INFO_MAP_def)

end
