(* ===== verification/Bloom_Filter.thy ===== *)
theory Bloom_Filter
  imports Interfaces
begin

text \<open>
  \<^verbatim>\<open>lantern_extras/src/bloom.rs\<close>: the SQL type \<^verbatim>\<open>bloom\<close>, a byte image of a filter of the crate
  \<^verbatim>\<open>fastbloom\<close>. The crate is not part of the repository: creating, inserting and testing are the
  fields of \<open>fastbloom\<close>, and \<open>filter_laws\<close> is what its documentation promises, that an inserted
  element is always found again. The target is little-endian.
\<close>

definition BLOOM_HASHER_SEED :: nat where "BLOOM_HASHER_SEED = 42"

text \<open>A filter of the crate: its bit words, the number of hashes and the seed of the hasher.\<close>

record BloomFilter =
  bf_words :: "u64 list"
  bf_num_hashes :: u32
  bf_seed :: nat

record 'a fastbloom =
  fb_with_items :: "nat \<Rightarrow> nat \<Rightarrow> BloomFilter"
  fb_insert :: "BloomFilter \<Rightarrow> 'a \<Rightarrow> BloomFilter"
  fb_contains :: "BloomFilter \<Rightarrow> 'a \<Rightarrow> bool"

record Bloom =
  bitmap :: bytes
  num_hashes :: u32

text \<open>\<^verbatim>\<open>From<BloomFilter> for Bloom\<close>: the words reinterpreted as bytes.\<close>

definition bloom_of_filter :: "BloomFilter \<Rightarrow> Bloom" where
  "bloom_of_filter f = \<lparr>bitmap = concat (map u64_to_le_bytes (bf_words f)), num_hashes = bf_num_hashes f\<rparr>"

text \<open>\<^verbatim>\<open>From<Bloom> for BloomFilter\<close>: \<^verbatim>\<open>len / 8\<close> words are read back.\<close>

definition filter_of_bloom :: "Bloom \<Rightarrow> BloomFilter" where
  "filter_of_bloom b =
    \<lparr>bf_words = map u64_from_le_bytes (chunks_exact 8 (bitmap b)), bf_num_hashes = num_hashes b,
     bf_seed = BLOOM_HASHER_SEED\<rparr>"

definition array_to_bloom :: "'a fastbloom \<Rightarrow> 'a list \<Rightarrow> Bloom" where
  "array_to_bloom fb arr =
    bloom_of_filter (fold (\<lambda>i bloom. fb_insert fb bloom i) arr (fb_with_items fb BLOOM_HASHER_SEED (length arr)))"

definition elem_in_bloom :: "'a fastbloom \<Rightarrow> 'a \<Rightarrow> Bloom \<Rightarrow> bool" where
  "elem_in_bloom fb x bloom = fb_contains fb (filter_of_bloom bloom) x"

section \<open>Lemmas\<close>

definition filter_laws :: "'a fastbloom \<Rightarrow> bool" where
  "filter_laws fb \<longleftrightarrow>
    (\<forall>f x. fb_contains fb (fb_insert fb f x) x)
    \<and> (\<forall>f x y. fb_contains fb f y \<longrightarrow> fb_contains fb (fb_insert fb f x) y)
    \<and> (\<forall>f x. bf_seed (fb_insert fb f x) = bf_seed f)
    \<and> (\<forall>s n. bf_seed (fb_with_items fb s n) = s)"

text \<open>The byte image keeps a filter whose hasher has the fixed seed.\<close>

lemma filter_of_bloom_of_filter:
  assumes "bf_seed f = BLOOM_HASHER_SEED"
  shows "filter_of_bloom (bloom_of_filter f) = f"
proof -
  have "chunks_exact 8 (concat (map u64_to_le_bytes (bf_words f)) @ []) = map u64_to_le_bytes (bf_words f)"
    by (rule chunks_exact_blocks) auto
  then show ?thesis using assms by (simp add: filter_of_bloom_def bloom_of_filter_def comp_def)
qed

lemma length_bitmap: "length (bitmap (bloom_of_filter f)) = 8 * length (bf_words f)"
proof -
  have "length (concat (map u64_to_le_bytes ws)) = 8 * length ws" for ws
    by (induction ws) auto
  then show ?thesis by (simp add: bloom_of_filter_def)
qed

lemma fold_insert:
  assumes "filter_laws fb"
  shows "bf_seed (fold (\<lambda>i b. fb_insert fb b i) arr f) = bf_seed f"
    and "x \<in> set arr \<or> fb_contains fb f x \<Longrightarrow> fb_contains fb (fold (\<lambda>i b. fb_insert fb b i) arr f) x"
  using assms by (induction arr arbitrary: f) (auto simp: filter_laws_def)

text \<open>
  A bloom value has no false negatives: every element of the array a filter was made from is
  found in it, also after the filter has been stored as bytes and read back.
\<close>

theorem array_to_bloom_contains:
  assumes "filter_laws fb" "x \<in> set arr"
  shows "elem_in_bloom fb x (array_to_bloom fb arr)"
proof -
  let ?f = "fold (\<lambda>i b. fb_insert fb b i) arr (fb_with_items fb BLOOM_HASHER_SEED (length arr))"
  have "bf_seed ?f = BLOOM_HASHER_SEED"
    using fold_insert(1)[OF assms(1)] assms(1) by (simp add: filter_laws_def)
  then show ?thesis
    using fold_insert(2)[OF assms(1)] assms(2)
    by (simp add: elem_in_bloom_def array_to_bloom_def filter_of_bloom_of_filter)
qed

text \<open>A filter of one word and one hash, the element modulo 64.\<close>

definition one_word_filter :: "nat fastbloom" where
  "one_word_filter =
    \<lparr>fb_with_items = (\<lambda>seed n. \<lparr>bf_words = [0], bf_num_hashes = 1, bf_seed = seed\<rparr>),
     fb_insert = (\<lambda>f x. f\<lparr>bf_words := map (set_bit (x mod 64)) (bf_words f)\<rparr>),
     fb_contains = (\<lambda>f x. list_all (\<lambda>w. bit w (x mod 64)) (bf_words f))\<rparr>"

theorem array_to_bloom_contains_witness: "elem_in_bloom one_word_filter 70 (array_to_bloom one_word_filter [3, 70, 5])"
  by (rule array_to_bloom_contains)
    (auto simp: filter_laws_def one_word_filter_def list_all_iff bit_set_bit_iff)

end
