(* ===== verification/BM25.thy ===== *)
theory BM25
  imports Complex_Main Bloom_Filter Postgres "HOL-Library.AList"
begin

text \<open>
  \<^verbatim>\<open>lantern_extras/src/bm25_agg.rs\<close>: the BM25 score, the aggregate state that adds up scores per
  document, and the selection of the best documents with a bounded heap. \<^verbatim>\<open>f32\<close> is a linearly ordered
  type with the operations the code uses; conversions, the logarithm and the test for NaN are the
  fields of \<open>f32_ops\<close>. A hash map is an association list, and the order in which it is drained is an
  argument, as are the heap (crate \<^verbatim>\<open>binary_heap_plus\<close>), the unstable sort and the bloom test.
\<close>

section \<open>Scores\<close>

record 'f f32_ops =
  fo_of_int :: "int \<Rightarrow> 'f"
  fo_to_int :: "'f \<Rightarrow> int"
  fo_half :: 'f
  fo_ln :: "'f \<Rightarrow> 'f"
  fo_is_nan :: "'f \<Rightarrow> bool"

record 'f bm25_settings =
  BM25_DEFAULT_K1 :: 'f
  BM25_DEFAULT_B :: 'f
  BM25_DEFAULT_APPROXIMATION_THRESHHOLD :: int

definition calculate_bm25 ::
  "'f f32_ops \<Rightarrow> 'f \<Rightarrow> 'f \<Rightarrow> 'f \<Rightarrow> nat \<Rightarrow> 'f \<Rightarrow> 'f \<Rightarrow> 'f \<Rightarrow> ('f::{zero,one,plus,minus,times,inverse,linorder}) result" where
  "calculate_bm25 fo doc_len fq term_freq corpus_size avg_doc_len bm25_k1 bm25_b =
    (let idf = fo_ln fo ((fo_of_int fo (int corpus_size) - term_freq + fo_half fo) / (term_freq + fo_half fo) + 1)
     in if \<not> idf \<ge> 0 then Inl (Panicked ''idf must be non-negative'')
        else
          let bm25 = idf * ((fq * (bm25_k1 + 1)) / (fq + bm25_k1 * (1 - bm25_b + bm25_b * (doc_len / avg_doc_len))))
          in if fo_is_nan fo bm25 then Inl (Bail ''Encountered NaN in BM25 score calculation'') else Inr bm25)"

text \<open>The statements \<^verbatim>\<open>bm25_score\<close> runs; the document and the query are put between quotes as they are.\<close>

definition stem_sql :: "string \<Rightarrow> string" where
  "stem_sql document = ''SELECT text_to_stem_array('' @ [squote] @ document @ [squote] @ '')''"

definition corpus_sql :: "string \<Rightarrow> string" where
  "corpus_sql table_bm25_fqn =
    ''SELECT term_freq AS corpus_size, (doc_ids_len / 100.0)::real AS avg_doc_len FROM '' @
    quote_ident table_bm25_fqn @ '' WHERE term IS NULL;''"

definition terms_sql :: "string \<Rightarrow> string \<Rightarrow> string" where
  "terms_sql table_bm25_fqn qry =
    ''SELECT term, term_freq FROM '' @ quote_ident table_bm25_fqn @ '' WHERE term = ANY(text_to_stem_array('' @
    [squote] @ qry @ [squote] @ ''));''"

fun score_terms ::
  "'f f32_ops \<Rightarrow> 'f bm25_settings \<Rightarrow> string list \<Rightarrow> nat \<Rightarrow> 'f \<Rightarrow> (string \<times> int) list \<Rightarrow> 'f \<Rightarrow>
   ('f::{zero,one,plus,minus,times,inverse,linorder}) result" where
  "score_terms fo st document_stemmed corpus_size avg_doc_len [] bm25 = Inr bm25"
| "score_terms fo st document_stemmed corpus_size avg_doc_len ((word, term_freq) # ts) bm25 =
    (let fq = fo_of_int fo (int (length (filter (\<lambda>x. x = word) document_stemmed)));
         doc_len = fo_of_int fo (int (length document_stemmed));
         common = fo_to_int fo (fo_of_int fo term_freq) > BM25_DEFAULT_APPROXIMATION_THRESHHOLD st;
         fq = (if common then (if fq > 1 then 1 else fq) else fq);
         doc_len = (if common then avg_doc_len else doc_len)
     in and_then_r (calculate_bm25 fo doc_len fq (fo_of_int fo term_freq) corpus_size avg_doc_len
                     (BM25_DEFAULT_K1 st) (BM25_DEFAULT_B st))
          (\<lambda>s. score_terms fo st document_stemmed corpus_size avg_doc_len ts (bm25 + s)))"

text \<open>\<open>stems\<close>, \<open>corpus\<close> and \<open>terms\<close> answer the statements; a null or missing answer panics in the source.\<close>

definition bm25_score ::
  "'f f32_ops \<Rightarrow> 'f bm25_settings \<Rightarrow> (string \<Rightarrow> string list result) \<Rightarrow> (string \<Rightarrow> (int \<times> 'f) result) \<Rightarrow>
   (string \<Rightarrow> (string \<times> int) list result) \<Rightarrow> string \<Rightarrow> string \<Rightarrow> string \<Rightarrow>
   ('f::{zero,one,plus,minus,times,inverse,linorder}) result" where
  "bm25_score fo st stems corpus terms table_fqn document qry =
    and_then_r (stems (stem_sql document)) (\<lambda>document_stemmed.
    let table_bm25_fqn = table_fqn @ ''_bm25''
    in and_then_r (corpus (corpus_sql table_bm25_fqn)) (\<lambda>(corpus_size, avg_doc_len).
       and_then_r (terms (terms_sql table_bm25_fqn qry)) (\<lambda>term_data.
       score_terms fo st document_stemmed (nat (corpus_size mod 2 ^ 64)) avg_doc_len term_data 0)))"

section \<open>The aggregate state\<close>

record ('f, 'b) BM25InternalState =
  bs_data :: "(int \<times> 'f) list option"
  bs_corpus_size :: "nat option"
  bs_avg_doc_len :: "'f option"
  bs_limit :: "nat option"
  bs_k1 :: 'f
  bs_b :: 'f
  bs_blooms :: "('f \<times> 'b) list"

definition bm25_default :: "'f bm25_settings \<Rightarrow> ('f, 'b) BM25InternalState" where
  "bm25_default st =
    \<lparr>bs_data = Some [], bs_corpus_size = None, bs_avg_doc_len = None, bs_limit = None,
     bs_k1 = BM25_DEFAULT_K1 st, bs_b = BM25_DEFAULT_B st, bs_blooms = []\<rparr>"

text \<open>A row of the term table.\<close>

record 'b term_row =
  tr_term_freq :: int
  tr_bloom :: "'b option"
  tr_doc_ids :: "int list"
  tr_fqs :: "int list"
  tr_doc_lens :: "int list"

definition unwrap_r :: "'a option \<Rightarrow> 'a result" where
  "unwrap_r x = (case x of Some v \<Rightarrow> Inr v | None \<Rightarrow> Inl (Panicked ''called `Option::unwrap()` on a `None` value''))"

definition maybe_use_bloom_filter ::
  "'f f32_ops \<Rightarrow> ('f::{zero,one,plus,minus,times,inverse,linorder}, 'b) BM25InternalState \<Rightarrow> 'b term_row \<Rightarrow> 'f \<Rightarrow> nat \<Rightarrow> 'f \<Rightarrow> ('f \<times> 'b) option result" where
  "maybe_use_bloom_filter fo s row avg_doc_len corpus_size term_freq =
    (case tr_bloom row of
       Some bloom \<Rightarrow>
         and_then_r (calculate_bm25 fo avg_doc_len 1 term_freq corpus_size avg_doc_len (bs_k1 s) (bs_b s))
           (\<lambda>bm25. Inr (Some (bm25, bloom)))
     | None \<Rightarrow> Inr None)"

text \<open>\<^verbatim>\<open>entry(doc_id).and_modify(|e| *e += bm25).or_insert(bm25)\<close>\<close>

definition add_score :: "int \<Rightarrow> 'f \<Rightarrow> (int \<times> 'f::plus) list \<Rightarrow> (int \<times> 'f) list" where
  "add_score doc_id bm25 data =
    (case map_of data doc_id of
       Some e \<Rightarrow> AList.update doc_id (e + bm25) data
     | None \<Rightarrow> data @ [(doc_id, bm25)])"

fun add_postings ::
  "(int \<Rightarrow> int \<Rightarrow> 'f result) \<Rightarrow> (int \<times> int \<times> int) list \<Rightarrow> (int \<times> 'f::plus) list \<Rightarrow> (int \<times> 'f) list result" where
  "add_postings score [] data = Inr data"
| "add_postings score ((doc_id, fq, doc_len) # ps) data =
    and_then_r (score doc_len fq) (\<lambda>bm25. add_postings score ps (add_score doc_id bm25 data))"

definition state_base ::
  "'f f32_ops \<Rightarrow> 'b term_row \<Rightarrow> ('f::{zero,one,plus,minus,times,inverse,linorder}, 'b) BM25InternalState \<Rightarrow>
   ('f, 'b) BM25InternalState result" where
  "state_base fo row s =
    and_then_r (unwrap_r (bs_avg_doc_len s)) (\<lambda>avg_doc_len.
    and_then_r (unwrap_r (bs_corpus_size s)) (\<lambda>corpus_size.
    let term_freq = fo_of_int fo (tr_term_freq row) in
    and_then_r (unwrap_r (bs_data s)) (\<lambda>data.
    and_then_r (if length data > 100 then maybe_use_bloom_filter fo s row avg_doc_len corpus_size term_freq else Inr None) (\<lambda>bloom.
    case bloom of
      Some bloom_tuple \<Rightarrow> Inr (s\<lparr>bs_blooms := bs_blooms s @ [bloom_tuple]\<rparr>)
    | None \<Rightarrow>
        and_then_r (add_postings (\<lambda>doc_len fq. calculate_bm25 fo (fo_of_int fo doc_len) (fo_of_int fo fq) term_freq
                                   corpus_size avg_doc_len (bs_k1 s) (bs_b s))
                     (zip (tr_doc_ids row) (zip (tr_fqs row) (tr_doc_lens row))) data)
          (\<lambda>data. Inr (s\<lparr>bs_data := Some data\<rparr>))))))"

text \<open>The state functions of the three overloads of the aggregate.\<close>

definition bm25_agg_base_state ::
  "'f f32_ops \<Rightarrow> 'b term_row \<Rightarrow> ('f::{zero,one,plus,minus,times,inverse,linorder}, 'b) BM25InternalState \<Rightarrow> ('f, 'b) BM25InternalState result" where
  "bm25_agg_base_state fo row inner = state_base fo row inner"

definition check_limit_args :: "'f f32_ops \<Rightarrow> int \<Rightarrow> int \<Rightarrow> 'f::{zero,linorder} \<Rightarrow> unit result" where
  "check_limit_args fo limit_count corpus_size avg_doc_len =
    (if limit_count < 0 then Inl (Bail ''bm25_agg aggregate called with negative limit'')
     else if corpus_size \<le> 0 then Inl (Bail ''bm25_agg aggregate called with negative corpus_size'')
     else if avg_doc_len < 0 then Inl (Bail ''bm25_agg aggregate called with negative avg_doc_len'')
     else if fo_is_nan fo avg_doc_len then Inl (Bail ''bm25_agg aggregate called with NaN avg_doc_len'')
     else Inr ())"

definition bm25_agg_limit_state ::
  "'f f32_ops \<Rightarrow> 'b term_row \<Rightarrow> int \<Rightarrow> int \<Rightarrow> 'f \<Rightarrow> ('f::{zero,one,plus,minus,times,inverse,linorder}, 'b) BM25InternalState \<Rightarrow>
   ('f, 'b) BM25InternalState result" where
  "bm25_agg_limit_state fo row limit_count corpus_size avg_doc_len inner =
    and_then_r (check_limit_args fo limit_count corpus_size avg_doc_len) (\<lambda>_.
    state_base fo row (inner\<lparr>bs_limit := Some (nat limit_count), bs_corpus_size := Some (nat corpus_size),
                             bs_avg_doc_len := Some avg_doc_len\<rparr>))"

definition bm25_agg_limit_bm25params_state ::
  "'f f32_ops \<Rightarrow> 'b term_row \<Rightarrow> int \<Rightarrow> int \<Rightarrow> 'f \<Rightarrow> 'f \<Rightarrow> 'f \<Rightarrow> ('f::{zero,one,plus,minus,times,inverse,linorder}, 'b) BM25InternalState \<Rightarrow>
   ('f, 'b) BM25InternalState result" where
  "bm25_agg_limit_bm25params_state fo row limit_count corpus_size avg_doc_len k1 b inner =
    and_then_r (check_limit_args fo limit_count corpus_size avg_doc_len) (\<lambda>_.
    state_base fo row (inner\<lparr>bs_limit := Some (nat limit_count), bs_corpus_size := Some (nat corpus_size),
                             bs_avg_doc_len := Some avg_doc_len, bs_k1 := k1, bs_b := b\<rparr>))"

section \<open>The best documents\<close>

record ('h, 'e) binary_heap =
  bh_empty :: 'h
  bh_push :: "'h \<Rightarrow> 'e \<Rightarrow> 'h"
  bh_pop :: "'h \<Rightarrow> 'h"
  bh_peek :: "'h \<Rightarrow> 'e option"
  bh_len :: "'h \<Rightarrow> nat"
  bh_into_iter_sorted :: "'h \<Rightarrow> 'e list"

fun keep_best :: "('h, int \<times> 'f::linorder) binary_heap \<Rightarrow> nat \<Rightarrow> (int \<times> 'f) list \<Rightarrow> 'h \<Rightarrow> 'h result" where
  "keep_best H bloom_limit [] heap = Inr heap"
| "keep_best H bloom_limit (e # es) heap =
    (if bh_len H heap < bloom_limit then keep_best H bloom_limit es (bh_push H heap e)
     else and_then_r (unwrap_r (bh_peek H heap)) (\<lambda>top.
       if snd top < snd e then keep_best H bloom_limit es (bh_push H (bh_pop H heap) e)
       else keep_best H bloom_limit es heap))"

definition bloom_bonus :: "('b \<Rightarrow> int \<Rightarrow> bool) \<Rightarrow> ('f::{zero,plus} \<times> 'b) list \<Rightarrow> int \<Rightarrow> 'f" where
  "bloom_bonus contains blooms doc_id = foldl (+) 0 (map fst (filter (\<lambda>(_, b). contains b doc_id) blooms))"

text \<open>\<open>drain\<close> is the order in which the hash map gives up its entries, \<open>sort_desc\<close> the unstable sort by score.\<close>

definition finalize_base ::
  "('h, int \<times> 'f) binary_heap \<Rightarrow> ((int \<times> 'f) list \<Rightarrow> (int \<times> 'f) list) \<Rightarrow> ((int \<times> 'f) list \<Rightarrow> (int \<times> 'f) list) \<Rightarrow>
   ('b \<Rightarrow> int \<Rightarrow> bool) \<Rightarrow> ('f::{zero,plus,linorder}, 'b) BM25InternalState \<Rightarrow>
   ((int \<times> 'f) list \<times> ('f, 'b) BM25InternalState) result" where
  "finalize_base H drain sort_desc contains s =
    and_then_r (unwrap_r (bs_data s)) (\<lambda>data.
    let s' = s\<lparr>bs_data := None\<rparr> in
    case bs_limit s of
      Some limit \<Rightarrow>
        (let bloom_limit = limit * 10
         in and_then_r (keep_best H bloom_limit (drain data) (bh_empty H)) (\<lambda>heap.
            Inr (take limit (sort_desc
              (map (\<lambda>(doc_id, bm25). (doc_id, bm25 + bloom_bonus contains (bs_blooms s) doc_id)) (bh_into_iter_sorted H heap))), s')))
    | None \<Rightarrow> Inr (sort_desc (drain data), s'))"

section \<open>Adding up scores\<close>

text \<open>The scores a posting list gives, with their documents, and the sum of a list of scores from the left.\<close>

definition posting_scores :: "(int \<Rightarrow> int \<Rightarrow> 'f result) \<Rightarrow> (int \<times> int \<times> int) list \<Rightarrow> (int \<times> 'f) list result" where
  "posting_scores score ps =
    traverse_r (\<lambda>(doc_id, fq, doc_len). and_then_r (score doc_len fq) (\<lambda>bm25. Inr (doc_id, bm25))) ps"

fun left_sum :: "'f::plus list \<Rightarrow> 'f option" where
  "left_sum [] = None"
| "left_sum (x # xs) = Some (foldl (+) x xs)"

abbreviation scores_of :: "int \<Rightarrow> (int \<times> 'f) list \<Rightarrow> 'f list" where
  "scores_of d xs \<equiv> map snd (filter (\<lambda>(i, _). i = d) xs)"

lemma left_sum_snoc: "left_sum (xs @ [x]) = Some (case left_sum xs of None \<Rightarrow> x | Some s \<Rightarrow> s + x)"
  by (cases xs) auto

lemma add_score_distinct: "distinct (map fst data) \<Longrightarrow> distinct (map fst (add_score i x data))"
  by (auto simp: add_score_def distinct_update map_of_eq_None_iff split: option.split)

lemma map_of_add_score:
  "map_of (add_score i x data) d =
    (if d = i then Some (case map_of data d of None \<Rightarrow> x | Some s \<Rightarrow> s + x) else map_of data d)"
  by (auto simp: add_score_def update_conv' map_add_def split: option.split)

lemma add_postings_fold:
  "add_postings score ps data =
    and_then_r (posting_scores score ps) (\<lambda>xs. Inr (fold (\<lambda>(i, x). add_score i x) xs data))"
proof (induction ps arbitrary: data)
  case (Cons p ps)
  obtain i fq dl where p: "p = (i, fq, dl)" by (cases p)
  show ?case
    by (cases "score dl fq"; cases "posting_scores score ps")
      (auto simp: p Cons posting_scores_def)
qed (simp add: posting_scores_def)

text \<open>The map holds, for every document seen, the sum of its scores from left to right.\<close>

definition sums_up :: "(int \<times> 'f::plus) list \<Rightarrow> (int \<times> 'f) list \<Rightarrow> bool" where
  "sums_up xs data \<longleftrightarrow> distinct (map fst data) \<and> (\<forall>d. map_of data d = left_sum (scores_of d xs))"

lemma sums_up_add: "sums_up xs data \<Longrightarrow> sums_up (xs @ [(i, x)]) (add_score i x data)"
  by (auto simp: sums_up_def add_score_distinct map_of_add_score left_sum_snoc split: option.split)

lemma sums_up_fold: "sums_up xs data \<Longrightarrow> sums_up (xs @ ys) (fold (\<lambda>(i, x). add_score i x) ys data)"
proof (induction ys arbitrary: xs data)
  case (Cons y ys)
  then show ?case using sums_up_add[OF Cons.prems, of "fst y" "snd y"] Cons.IH[of "xs @ [y]"]
    by (cases y) simp
qed simp

fun aggregate :: "('r \<Rightarrow> 's \<Rightarrow> 's result) \<Rightarrow> 'r list \<Rightarrow> 's \<Rightarrow> 's result" where
  "aggregate step [] s = Inr s"
| "aggregate step (r # rs) s = and_then_r (step r s) (aggregate step rs)"

text \<open>The scores of a row as the state function computes them.\<close>

definition row_scores ::
  "'f f32_ops \<Rightarrow> nat \<Rightarrow> 'f \<Rightarrow> 'f \<Rightarrow> 'f \<Rightarrow> 'b term_row \<Rightarrow> (int \<times> 'f::{zero,one,plus,minus,times,inverse,linorder}) list result" where
  "row_scores fo corpus_size avg k1 b row =
    posting_scores (\<lambda>doc_len fq. calculate_bm25 fo (fo_of_int fo doc_len) (fo_of_int fo fq) (fo_of_int fo (tr_term_freq row))
        corpus_size avg k1 b)
      (zip (tr_doc_ids row) (zip (tr_fqs row) (tr_doc_lens row)))"

lemma state_base_exact:
  assumes "tr_bloom row = None" "bs_corpus_size s = Some c" "bs_avg_doc_len s = Some avg" "bs_data s = Some data"
  shows "state_base fo row s =
    and_then_r (row_scores fo c avg (bs_k1 s) (bs_b s) row) (\<lambda>xs. Inr (s\<lparr>bs_data := Some (fold (\<lambda>(i, x). add_score i x) xs data)\<rparr>))"
  by (cases "row_scores fo c avg (bs_k1 s) (bs_b s) row")
    (simp_all add: state_base_def assms unwrap_r_def Let_def maybe_use_bloom_filter_def add_postings_fold row_scores_def)

text \<open>
  C14. Without bloom filters the aggregate is the BM25 score of the query: after any number of term
  rows the state holds, for exactly the documents that occur in a posting list, the sum of the
  scores of its postings, in the order of the rows; a row that cannot be scored makes the aggregate
  fail. No algebraic law of floating point numbers is used.
\<close>

theorem bm25_aggregate_sums:
  assumes "\<forall>row \<in> set rows. tr_bloom row = None" "bs_corpus_size s = Some c" "bs_avg_doc_len s = Some avg" "bs_data s = Some []"
  shows "case traverse_r (row_scores fo c avg (bs_k1 s) (bs_b s)) rows of
      Inl e \<Rightarrow> aggregate (state_base fo) rows s = Inl e
    | Inr xss \<Rightarrow> \<exists>data. aggregate (state_base fo) rows s = Inr (s\<lparr>bs_data := Some data\<rparr>)
        \<and> distinct (map fst data) \<and> (\<forall>d. map_of data d = left_sum (scores_of d (concat xss)))"
proof -
  have agg: "bs_data s = Some data \<Longrightarrow> aggregate (state_base fo) rows s =
    and_then_r (traverse_r (row_scores fo c avg (bs_k1 s) (bs_b s)) rows)
      (\<lambda>xss. Inr (s\<lparr>bs_data := Some (fold (\<lambda>(i, x). add_score i x) (concat xss) data)\<rparr>))" for data
    using assms(1-3)
  proof (induction rows arbitrary: s data)
    case (Cons row rows)
    then show ?case
      by (cases "row_scores fo c avg (bs_k1 s) (bs_b s) row";
          cases "traverse_r (row_scores fo c avg (bs_k1 s) (bs_b s)) rows")
        (simp_all add: state_base_exact)
  qed simp
  show ?thesis
  proof (cases "traverse_r (row_scores fo c avg (bs_k1 s) (bs_b s)) rows")
    case (Inr xss)
    have "sums_up (concat xss) (fold (\<lambda>(i, x). add_score i x) (concat xss) [])"
      using sums_up_fold[of "[]" "[]" "concat xss"] by (simp add: sums_up_def)
    then show ?thesis using agg[OF assms(4)] Inr by (auto simp: sums_up_def)
  qed (simp add: agg[OF assms(4)])
qed

definition bm25_demo_ops :: "rat f32_ops" where
  "bm25_demo_ops = \<lparr>fo_of_int = of_int, fo_to_int = floor, fo_half = 1 / 2, fo_ln = (\<lambda>x. x), fo_is_nan = (\<lambda>x. False)\<rparr>"

definition bm25_demo_row :: "unit term_row" where
  "bm25_demo_row = \<lparr>tr_term_freq = 1, tr_bloom = None, tr_doc_ids = [7], tr_fqs = [1], tr_doc_lens = [2]\<rparr>"

definition bm25_demo_start :: "(rat, unit) BM25InternalState" where
  "bm25_demo_start =
    \<lparr>bs_data = Some [], bs_corpus_size = Some 1, bs_avg_doc_len = Some 2, bs_limit = None, bs_k1 = 1, bs_b = 1, bs_blooms = []\<rparr>"

theorem bm25_aggregate_sums_witness:
  "\<exists>data. aggregate (state_base bm25_demo_ops) [bm25_demo_row, bm25_demo_row] bm25_demo_start = Inr (bm25_demo_start\<lparr>bs_data := Some data\<rparr>)
    \<and> map_of data 7 = Some (4 / 3 + 4 / 3)"
proof -
  have "row_scores bm25_demo_ops 1 2 1 1 bm25_demo_row = Inr [(7, 4 / 3)]"
    by (simp add: row_scores_def posting_scores_def bm25_demo_row_def bm25_demo_ops_def calculate_bm25_def)
  then show ?thesis
    using bm25_aggregate_sums[of "[bm25_demo_row, bm25_demo_row]" bm25_demo_start 1 2 bm25_demo_ops]
    by (auto simp: bm25_demo_row_def bm25_demo_start_def)
qed

text \<open>
  The overload without a corpus size panics on its first row: nothing ever sets the corpus size
  and the average document length it reads.
\<close>

lemma bm25_agg_base_panics:
  "bm25_agg_base_state fo row (bm25_default st) = Inl (Panicked ''called `Option::unwrap()` on a `None` value'')"
  by (simp add: bm25_agg_base_state_def state_base_def bm25_default_def unwrap_r_def)

section \<open>Selecting the best\<close>

text \<open>What the heap promises: it holds what was pushed, and its top has the least score.\<close>

definition heap_laws :: "('h \<Rightarrow> (int \<times> 'f::linorder) multiset) \<Rightarrow> ('h, int \<times> 'f) binary_heap \<Rightarrow> bool" where
  "heap_laws contents H \<longleftrightarrow>
    contents (bh_empty H) = {#} \<and> (\<forall>h e. contents (bh_push H h e) = add_mset e (contents h))
    \<and> (\<forall>h. bh_len H h = size (contents h))
    \<and> (\<forall>h. contents h = {#} \<longrightarrow> bh_peek H h = None)
    \<and> (\<forall>h. contents h \<noteq> {#} \<longrightarrow> (\<exists>e. bh_peek H h = Some e \<and> e \<in># contents h
          \<and> (\<forall>x \<in># contents h. snd e \<le> snd x) \<and> contents (bh_pop H h) = contents h - {#e#}))
    \<and> (\<forall>h. mset (bh_into_iter_sorted H h) = contents h)"

definition sorts_desc :: "((int \<times> 'f::linorder) list \<Rightarrow> (int \<times> 'f) list) \<Rightarrow> bool" where
  "sorts_desc srt \<longleftrightarrow> (\<forall>xs. mset (srt xs) = mset xs \<and> sorted (rev (map snd (srt xs))))"

text \<open>\<open>sel\<close> is a choice of the \<open>n\<close> best of \<open>every\<close>.\<close>

definition best :: "nat \<Rightarrow> (int \<times> 'f::linorder) multiset \<Rightarrow> (int \<times> 'f) multiset \<Rightarrow> bool" where
  "best n every sel \<longleftrightarrow>
    (\<exists>rest. every = sel + rest \<and> size sel = min n (size every) \<and> (\<forall>x \<in># sel. \<forall>y \<in># rest. snd y \<le> snd x))"

lemma best_size: "best n every sel \<Longrightarrow> size sel = min n (size every)"
  unfolding best_def by blast

lemma best_grow:
  assumes "best n every sel" "size sel < n"
  shows "best n (add_mset e every) (add_mset e sel)"
proof -
  obtain rest where r: "every = sel + rest" "size sel = min n (size every)"
    using assms(1) unfolding best_def by blast
  then have "rest = {#}" using assms(2) by (auto simp: min_def split: if_splits)
  then show ?thesis using r assms(2) unfolding best_def by (intro exI[of _ "{#}"]) auto
qed

lemma best_pass:
  assumes "best n every sel" "size sel = n" "\<forall>x \<in># sel. snd e \<le> snd x"
  shows "best n (add_mset e every) sel"
proof -
  obtain rest where "every = sel + rest" "size sel = min n (size every)" "\<forall>x \<in># sel. \<forall>y \<in># rest. snd y \<le> snd x"
    using assms(1) unfolding best_def by blast
  then show ?thesis using assms(2,3) unfolding best_def by (intro exI[of _ "add_mset e rest"]) auto
qed

lemma best_replace:
  assumes "best n every sel" "size sel = n" "m \<in># sel" "\<forall>x \<in># sel. snd m \<le> snd x" "snd m < snd e"
  shows "best n (add_mset e every) (add_mset e (sel - {#m#}))"
proof -
  obtain rest where r: "every = sel + rest" "size sel = min n (size every)" "\<forall>x \<in># sel. \<forall>y \<in># rest. snd y \<le> snd x"
    using assms(1) unfolding best_def by blast
  obtain sel' where sel: "sel = add_mset m sel'" using assms(3) by (meson multi_member_split)
  have "snd y \<le> snd x" if "x \<in># add_mset e sel'" "y \<in># add_mset m rest" for x y
  proof -
    have "snd m \<le> snd x" using that(1) assms(4,5) sel by auto
    moreover have "snd y \<le> snd m" using that(2) r(3) sel by auto
    ultimately show ?thesis by (rule order.trans[rotated])
  qed
  then show ?thesis using r assms(2) sel unfolding best_def by (intro exI[of _ "add_mset m rest"]) auto
qed

lemma keep_best_best:
  assumes "heap_laws contents H" "0 < n"
  shows "best n (mset seen) (contents h) \<Longrightarrow>
    \<exists>h'. keep_best H n es h = Inr h' \<and> best n (mset (seen @ es)) (contents h')"
proof (induction es arbitrary: seen h)
  case (Cons e es)
  have push: "contents (bh_push H g x) = add_mset x (contents g)" and len: "bh_len H g = size (contents g)" for g x
    using assms(1) unfolding heap_laws_def by blast+
  have step: "\<exists>h'. keep_best H n es g = Inr h' \<and> best n (mset (seen @ e # es)) (contents h')"
    if "best n (add_mset e (mset seen)) (contents g)" for g
    using Cons.IH[of "seen @ [e]" g] that by simp
  show ?case
  proof (cases "size (contents h) < n")
    case True
    then show ?thesis using step[of "bh_push H h e"] best_grow[OF Cons.prems True, of e] push len by simp
  next
    case False
    then have sz: "size (contents h) = n" using best_size[OF Cons.prems] by simp
    then have "contents h \<noteq> {#}" using assms(2) by auto
    then obtain m where m: "bh_peek H h = Some m" "m \<in># contents h" "\<forall>x \<in># contents h. snd m \<le> snd x"
      "contents (bh_pop H h) = contents h - {#m#}"
      using assms(1) unfolding heap_laws_def by blast
    show ?thesis
    proof (cases "snd m < snd e")
      case True
      then show ?thesis
        using step[of "bh_push H (bh_pop H h) e"] best_replace[OF Cons.prems sz m(2,3) True] push len sz m
        by (simp add: unwrap_r_def)
    next
      case False
      then have "\<forall>x \<in># contents h. snd e \<le> snd x" using m(3) by (meson dual_order.trans leI)
      then show ?thesis
        using step[of h] best_pass[OF Cons.prems sz] len sz m(1) False by (simp add: unwrap_r_def)
    qed
  qed
qed simp

text \<open>The scores of any choice of the best are the first ones of the sorted list of all scores.\<close>

lemma best_scores:
  assumes "best n (mset xs) sel"
  shows "image_mset snd sel = mset (take n (rev (sort (map snd xs))))"
proof -
  obtain rest where r: "mset xs = sel + rest" "size sel = min n (size (mset xs))" "\<forall>x \<in># sel. \<forall>y \<in># rest. snd y \<le> snd x"
    using assms unfolding best_def by blast
  let ?a = "sorted_list_of_multiset (image_mset snd sel)" and ?b = "sorted_list_of_multiset (image_mset snd rest)"
  have perm: "mset (?b @ ?a) = mset (map snd xs)" by (simp add: r(1))
  have "x \<le> y" if "x \<in> set ?b" "y \<in> set ?a" for x y
    using that r(3) by auto
  then have "sorted (?b @ ?a)" by (simp add: sorted_append)
  with perm have srt: "sort (map snd xs) = ?b @ ?a" by (rule properties_for_sort)
  have "size (mset ?a) = size (image_mset snd sel)" by simp
  then have la: "length ?a = size sel" unfolding size_mset size_image_mset .
  have "take n (rev ?a @ rev ?b) = rev ?a"
  proof (cases "n \<le> size (mset xs)")
    case True
    then have "length ?a = n" using r(2) la by simp
    then show ?thesis by simp
  next
    case False
    then have "size sel = size (mset xs)" using r(2) by simp
    then have "rest = {#}" using arg_cong[OF r(1), of size] by simp
    then show ?thesis using False la \<open>size sel = size (mset xs)\<close> by simp
  qed
  then have "take n (rev (sort (map snd xs))) = rev ?a" by (simp add: srt)
  then show ?thesis by (simp only: mset_rev mset_sorted_list_of_multiset)
qed

lemma sorted_desc_unique: "mset xs = mset ys \<Longrightarrow> sorted (rev xs) \<Longrightarrow> sorted (rev ys) \<Longrightarrow> xs = (ys :: 'a::linorder list)"
proof -
  assume "mset xs = mset ys" "sorted (rev xs)" "sorted (rev ys)"
  then have "rev xs = sort ys" "rev ys = sort ys"
    using properties_for_sort[of "rev xs" ys] properties_for_sort[of "rev ys" ys] by (simp_all only: mset_rev)
  then have "rev xs = rev ys" by (simp only:)
  then show ?thesis by (simp only: rev_is_rev_conv)
qed

lemma sorts_desc_scores:
  assumes "sorts_desc srt"
  shows "map snd (srt xs) = rev (sort (map snd xs))"
proof (rule sorted_desc_unique)
  show "mset (map snd (srt xs)) = mset (rev (sort (map snd xs)))"
    using assms by (metis mset_map mset_rev mset_sort sorts_desc_def)
qed (use assms in \<open>simp_all add: sorts_desc_def\<close>)

lemma take_sorts_desc_best:
  assumes "sorts_desc srt"
  shows "best k (mset ys) (mset (take k (srt ys)))"
proof -
  have srt: "mset (srt ys) = mset ys" "sorted (rev (map snd (srt ys)))" using assms by (simp_all add: sorts_desc_def)
  have "mset ys = mset (take k (srt ys)) + mset (drop k (srt ys))"
    using srt(1) by (metis append_take_drop_id mset_append)
  moreover have "size (mset (take k (srt ys))) = min k (size (mset ys))"
    using arg_cong[OF srt(1), of size] by simp
  moreover have "snd y \<le> snd x" if "x \<in># mset (take k (srt ys))" "y \<in># mset (drop k (srt ys))" for x y
  proof -
    have "sorted (rev (map snd (drop k (srt ys))) @ rev (map snd (take k (srt ys))))"
      using srt(2) by (metis append_take_drop_id map_append rev_append)
    then show ?thesis using that by (auto simp: sorted_append)
  qed
  ultimately show ?thesis unfolding best_def by blast
qed

definition rescore :: "('b \<Rightarrow> int \<Rightarrow> bool) \<Rightarrow> ('f::{zero,plus} \<times> 'b) list \<Rightarrow> int \<times> 'f \<Rightarrow> int \<times> 'f" where
  "rescore contains blooms = (\<lambda>(doc_id, bm25). (doc_id, bm25 + bloom_bonus contains blooms doc_id))"

lemma best_trans:
  assumes "best m A B" "best k B C" "k \<le> m"
  shows "best k A C"
proof -
  obtain R1 where r1: "A = B + R1" "size B = min m (size A)" "\<forall>x \<in># B. \<forall>y \<in># R1. snd y \<le> snd x"
    using assms(1) unfolding best_def by blast
  obtain R2 where r2: "B = C + R2" "size C = min k (size B)" "\<forall>x \<in># C. \<forall>y \<in># R2. snd y \<le> snd x"
    using assms(2) unfolding best_def by blast
  have "A = C + (R2 + R1)" using r1(1) r2(1) by simp
  moreover have "size C = min k (size A)" using r1(2) r2(2) assms(3) by simp
  moreover have "\<forall>x \<in># C. \<forall>y \<in># R2 + R1. snd y \<le> snd x"
    using r1(3) r2(3) unfolding r2(1) by auto
  ultimately show ?thesis unfolding best_def by blast
qed

lemma best_subset: "best n every sel \<Longrightarrow> sel \<subseteq># every"
  unfolding best_def by auto

lemma rescore_nothing: "\<forall>x. x + 0 = (x :: 'f::{zero,plus}) \<Longrightarrow> rescore contains [] = (id :: int \<times> 'f \<Rightarrow> int \<times> 'f)"
  by (auto simp: rescore_def bloom_bonus_def)

lemma bm25_top_documents_aux:
  assumes "heap_laws contents H" "sorts_desc srt" "\<forall>xs. mset (drain xs) = mset xs"
    and "bs_data s = Some data" "bs_limit s = Some k" "0 < k"
  shows "\<exists>res cand. finalize_base H drain srt contains s = Inr (res, s\<lparr>bs_data := None\<rparr>)
    \<and> best (k * 10) (mset data) cand \<and> best k (image_mset (rescore contains (bs_blooms s)) cand) (mset res)
    \<and> sorted (rev (map snd res))"
proof -
  have "best (k * 10) (mset []) (contents (bh_empty H))"
    using assms(1) by (simp add: best_def heap_laws_def)
  from keep_best_best[OF assms(1) _ this, of "drain data"] assms(6)
  obtain h where h: "keep_best H (k * 10) (drain data) (bh_empty H) = Inr h" "best (k * 10) (mset (drain data)) (contents h)"
    by auto
  let ?ys = "map (rescore contains (bs_blooms s)) (bh_into_iter_sorted H h)"
  have "finalize_base H drain srt contains s = Inr (take k (srt ?ys), s\<lparr>bs_data := None\<rparr>)"
    using assms(4,5) h(1) by (simp add: finalize_base_def unwrap_r_def Let_def rescore_def)
  moreover have "mset (bh_into_iter_sorted H h) = contents h" using assms(1) unfolding heap_laws_def by blast
  moreover have "best k (mset ?ys) (mset (take k (srt ?ys)))" by (rule take_sorts_desc_best[OF assms(2)])
  moreover have "sorted (rev (map snd (take k (srt ?ys))))"
  proof -
    have "sorted (rev (map snd (drop k (srt ?ys))) @ rev (map snd (take k (srt ?ys))))"
      using assms(2) unfolding sorts_desc_def by (metis append_take_drop_id map_append rev_append)
    then show ?thesis by (simp add: sorted_append)
  qed
  ultimately show ?thesis using h(2) assms(3) by auto
qed

text \<open>
  C15. With a limit \<open>k\<close> the aggregate returns the \<open>k\<close> best of the candidates, best first: the candidates
  are the \<open>10 * k\<close> documents with the highest scores before bloom filters are consulted, whatever
  the order in which the map is drained, each with the bonus of the filters that claim to contain it.
\<close>

theorem bm25_top_documents:
  fixes H :: "('h, int \<times> 'f::{zero,plus,linorder}) binary_heap"
  assumes "heap_laws contents H" "sorts_desc srt" "\<forall>xs. mset (drain xs) = mset xs"
    and "bs_data s = Some data" "bs_limit s = Some k" "0 < k"
  shows "\<exists>res cand. finalize_base H drain srt contains s = Inr (res, s\<lparr>bs_data := None\<rparr>)
    \<and> best (k * 10) (mset data) cand \<and> best k (image_mset (rescore contains (bs_blooms s)) cand) (mset res)
    \<and> sorted (rev (map snd res))"
  using assms by (rule bm25_top_documents_aux)

text \<open>A heap that is a list: the top is found by searching.\<close>

definition list_heap :: "((int \<times> nat) list, int \<times> nat) binary_heap" where
  "list_heap =
    \<lparr>bh_empty = [], bh_push = (\<lambda>h e. e # h), bh_pop = (\<lambda>h. remove1 (arg_min_list snd h) h),
     bh_peek = (\<lambda>h. if h = [] then None else Some (arg_min_list snd h)), bh_len = length, bh_into_iter_sorted = id\<rparr>"

lemma list_heap_laws: "heap_laws mset list_heap"
  by (auto simp: heap_laws_def list_heap_def arg_min_list_in f_arg_min_list_f)

lemma sort_key_desc: "sorts_desc (\<lambda>xs. rev (sort_key snd xs))"
  by (simp add: sorts_desc_def flip: rev_map)

definition bm25_demo_state :: "(nat, unit) BM25InternalState" where
  "bm25_demo_state =
    \<lparr>bs_data = Some [(1, 5), (2, 9), (3, 7)], bs_corpus_size = Some 3, bs_avg_doc_len = Some 2, bs_limit = Some 2,
     bs_k1 = 1, bs_b = 1, bs_blooms = []\<rparr>"

theorem bm25_top_documents_witness:
  "\<exists>res cand. finalize_base list_heap id (\<lambda>xs. rev (sort_key snd xs)) (\<lambda>b d. False) bm25_demo_state = Inr (res, bm25_demo_state\<lparr>bs_data := None\<rparr>)
    \<and> best 20 {#(1, 5), (2, 9), (3, 7 :: nat)#} cand \<and> sorted (rev (map snd res))"
  using bm25_top_documents[OF list_heap_laws sort_key_desc, of id bm25_demo_state "[(1, 5), (2, 9), (3, 7)]" 2 "\<lambda>b d. False"]
  by (auto simp: bm25_demo_state_def)

text \<open>
  C16. Selecting with the bounded heap is the same as sorting everything and cutting: without bloom
  filters the scores returned with limit \<open>k\<close> are the first \<open>k\<close> of all the scores sorted in descending
  order, which is what the branch without a limit returns.
\<close>

theorem bm25_limit_equals_sort:
  fixes H :: "('h, int \<times> 'f::{zero,plus,linorder}) binary_heap"
  assumes "heap_laws contents H" "sorts_desc srt" "\<forall>xs. mset (drain xs) = mset xs" "\<forall>x :: 'f. x + 0 = x"
    and "bs_data s = Some data" "bs_blooms s = []" "0 < k"
  shows "\<exists>res full. finalize_base H drain srt contains (s\<lparr>bs_limit := Some k\<rparr>) = Inr (res, s\<lparr>bs_data := None, bs_limit := Some k\<rparr>)
    \<and> finalize_base H drain srt contains (s\<lparr>bs_limit := None\<rparr>) = Inr (full, s\<lparr>bs_data := None, bs_limit := None\<rparr>)
    \<and> map snd res = take k (map snd full) \<and> mset res \<subseteq># mset data"
proof -
  obtain res cand where res: "finalize_base H drain srt contains (s\<lparr>bs_limit := Some k\<rparr>) = Inr (res, s\<lparr>bs_data := None, bs_limit := Some k\<rparr>)"
    and cand: "best (k * 10) (mset data) cand" "best k (image_mset (rescore contains []) cand) (mset res)" "sorted (rev (map snd res))"
    using bm25_top_documents_aux[OF assms(1,2,3), of "s\<lparr>bs_limit := Some k\<rparr>" data k contains] assms(5-7) by auto
  have top: "best k (mset data) (mset res)"
    using best_trans[OF cand(1)] cand(2) by (simp add: rescore_nothing[OF assms(4)])
  have full: "finalize_base H drain srt contains (s\<lparr>bs_limit := None\<rparr>) = Inr (srt (drain data), s\<lparr>bs_data := None, bs_limit := None\<rparr>)"
    using assms(5) by (simp add: finalize_base_def unwrap_r_def)
  have "map snd (srt (drain data)) = rev (sort (map snd data))"
  proof (rule sorted_desc_unique)
    have "mset (srt (drain data)) = mset data" using assms(2,3) by (simp add: sorts_desc_def)
    then show "mset (map snd (srt (drain data))) = mset (rev (sort (map snd data)))" by simp
  qed (use assms(2) in \<open>simp_all add: sorts_desc_def\<close>)
  moreover have "map snd res = take k (rev (sort (map snd data)))"
  proof (rule sorted_desc_unique)
    show "mset (map snd res) = mset (take k (rev (sort (map snd data))))" using best_scores[OF top] by simp
    show "sorted (rev (take k (rev (sort (map snd data)))))" by (simp add: rev_take sorted_wrt_drop)
  qed (rule cand(3))
  ultimately show ?thesis using res full best_subset[OF top] by auto
qed

theorem bm25_limit_equals_sort_witness:
  "\<exists>res full. finalize_base list_heap id (\<lambda>xs. rev (sort_key snd xs)) (\<lambda>b d. False) (bm25_demo_state\<lparr>bs_limit := Some 2\<rparr>) =
      Inr (res, bm25_demo_state\<lparr>bs_data := None, bs_limit := Some 2\<rparr>)
    \<and> finalize_base list_heap id (\<lambda>xs. rev (sort_key snd xs)) (\<lambda>b d. False) (bm25_demo_state\<lparr>bs_limit := None\<rparr>) =
      Inr (full, bm25_demo_state\<lparr>bs_data := None, bs_limit := None\<rparr>)
    \<and> map snd res = take 2 (map snd full)"
  using bm25_limit_equals_sort[OF list_heap_laws sort_key_desc, where drain = id and s = bm25_demo_state and data = "[(1, 5), (2, 9), (3, 7)]" and k = 2 and contains = "\<lambda>b d. False"]
  by (auto simp: bm25_demo_state_def)

text \<open>
  A limit of zero, which the argument check admits, panics as soon as there is a document: the heap
  may hold nothing and its top is read.
\<close>

lemma bm25_limit_zero_panics:
  assumes "heap_laws contents H" "\<forall>xs. mset (drain xs) = mset xs" "bs_data s = Some data" "data \<noteq> []" "bs_limit s = Some 0"
  shows "finalize_base H drain srt contains s = Inl (Panicked ''called `Option::unwrap()` on a `None` value'')"
proof -
  obtain e es where "drain data = e # es" using assms(2,4) by (cases "drain data") (metis mset_zero_iff, blast)
  moreover have "bh_peek H (bh_empty H) = None" "bh_len H (bh_empty H) = 0"
    using assms(1) by (simp_all add: heap_laws_def)
  ultimately show ?thesis using assms(3,5) by (simp add: finalize_base_def unwrap_r_def)
qed

section \<open>Quoting\<close>

text \<open>
  The document is not escaped: the server reads the literal only up to the first quote of the
  document, and the rest of the document is read as SQL.
\<close>

lemma stem_sql_unquoted:
  assumes "squote \<notin> set a" "b \<noteq> []" "hd b \<noteq> squote"
  shows "\<exists>pre. stem_sql (a @ squote # b) = pre @ [squote] @ a @ [squote] @ b @ [squote] @ '')''
    \<and> scan_quoted squote ([squote] @ a @ [squote] @ b @ [squote] @ '')'') = Some (a, b @ [squote] @ '')'')"
proof -
  have "scan_body squote (a @ squote # hd b # r) = Some (a, hd b # r)" for r
    using assms by (induction a) auto
  from this[of "tl b @ [squote] @ '')''"] show ?thesis using assms(2) by (cases b) (auto simp: stem_sql_def)
qed

end
