(* ===== verification/Dotvecs.thy ===== *)
theory Dotvecs
  imports Postgres
begin

text \<open>
  \<^verbatim>\<open>lantern_extras/src/dotvecs.rs\<close>: reading vector files. A file is its bytes. The three element types
  differ in their size and in the decoding of an element; an \<^verbatim>\<open>f32\<close> or \<^verbatim>\<open>i32\<close> is its bit pattern.
\<close>

definition elem4_from_le_bytes :: "bytes \<Rightarrow> u32 result" where
  "elem4_from_le_bytes b =
    (if length b = 4 then Inr (u32_from_le_bytes b) else Inl (Panicked ''TryFromSliceError''))"

definition elem1_from_le_bytes :: "bytes \<Rightarrow> byte result" where
  "elem1_from_le_bytes b = (if length b = 1 then Inr (hd b) else Inl (Panicked ''TryFromSliceError''))"

text \<open>
  One chunk of the file: whether its dimension is the expected one, and its elements. The four bytes
  of the dimension are taken from the chunk, which leaves the rest in it; then four bytes are
  dropped from that rest.
\<close>

definition parse_chunk :: "nat \<Rightarrow> (bytes \<Rightarrow> 'a result) \<Rightarrow> nat \<Rightarrow> bytes \<Rightarrow> (bool \<times> 'a list) result" where
  "parse_chunk sz from_le vector_dim chunk =
    (let dimbuf = take 4 chunk; chunk = drop 4 chunk
     in if length dimbuf \<noteq> 4 then Inl (Panicked ''TryFromSliceError'')
        else
          let dim = unat (u32_from_le_bytes dimbuf);
              rest = drop 4 chunk
          in and_then_r (traverse_r from_le (chunks sz rest)) (\<lambda>v. Inr (dim = vector_dim, v)))"

definition parse_vecs :: "nat \<Rightarrow> (bytes \<Rightarrow> 'a result) \<Rightarrow> bytes \<Rightarrow> int \<Rightarrow> 'a list list result" where
  "parse_vecs sz from_le contents cnt =
    (if length contents < 4 then Inl (Panicked ''failed to fill whole buffer'')
     else
       let vector_dim = unat (u32_from_le_bytes (take 4 contents));
           bufs = take (as_usize cnt) (chunks ((vector_dim + 1) * 4) contents)
       in and_then_r (traverse_r (parse_chunk sz from_le vector_dim) bufs) (\<lambda>vectors.
          if \<not> list_all fst vectors
          then Inl (IoError ''fvecs file with varying vector dimensions is not supported'')
          else Inr (map snd vectors)))"

definition parse_fvecs :: "(string \<Rightarrow> bytes option) \<Rightarrow> string \<Rightarrow> int \<Rightarrow> u32 list list result" where
  "parse_fvecs open_file path cnt =
    (case open_file path of
       None \<Rightarrow> Inl (Panicked ''called `Result::unwrap()` on an `Err` value'')
     | Some f \<Rightarrow> parse_vecs 4 elem4_from_le_bytes f cnt)"

definition parse_ivecs :: "(string \<Rightarrow> bytes option) \<Rightarrow> string \<Rightarrow> int \<Rightarrow> u32 list list result" where
  "parse_ivecs open_file path cnt =
    (case open_file path of
       None \<Rightarrow> Inl (Panicked ''called `Result::unwrap()` on an `Err` value'')
     | Some f \<Rightarrow> parse_vecs 4 elem4_from_le_bytes f cnt)"

definition parse_bvecs :: "(string \<Rightarrow> bytes option) \<Rightarrow> string \<Rightarrow> int \<Rightarrow> nat list list result" where
  "parse_bvecs open_file path cnt =
    (case open_file path of
       None \<Rightarrow> Inl (Panicked ''called `Result::unwrap()` on an `Err` value'')
     | Some f \<Rightarrow> and_then_r (parse_vecs 1 elem1_from_le_bytes f cnt) (\<lambda>vectors. Inr (map (map unat) vectors)))"

section \<open>The file format\<close>

text \<open>A file holds, for every vector, its dimension as four bytes and its elements.\<close>

definition vecs_record :: "('a \<Rightarrow> bytes) \<Rightarrow> 'a list \<Rightarrow> bytes" where
  "vecs_record enc v = u32_to_le_bytes (word_of_nat (length v)) @ concat (map enc v)"

lemma traverse_chunks:
  assumes "\<And>x. length (enc x) = n \<and> dec (enc x) = Inr x" "0 < n"
  shows "traverse_r dec (chunks n (concat (map enc xs))) = Inr xs"
proof -
  have "chunks n (concat (map enc xs)) = map enc xs" by (rule chunks_blocks) (use assms in auto)
  moreover have "traverse_r dec (map enc xs) = Inr xs" by (induction xs) (simp_all add: assms)
  ultimately show ?thesis by simp
qed

lemma parse_chunk_record:
  assumes "length v = d" "0 < d" "d < 2 ^ 32"
  shows "parse_chunk 4 elem4_from_le_bytes d (vecs_record u32_to_le_bytes v) = Inr (True, tl v)"
proof -
  obtain x xs where v: "v = x # xs" using assms(1,2) by (cases v) auto
  have dim: "unat (word_of_nat d :: u32) = d" using assms(3) by (simp add: unat_of_nat)
  have "traverse_r elem4_from_le_bytes (chunks 4 (concat (map u32_to_le_bytes xs))) = Inr xs"
    by (rule traverse_chunks) (simp_all add: elem4_from_le_bytes_def)
  then show ?thesis
    using assms(1) dim by (simp add: parse_chunk_def vecs_record_def v)
qed

lemma length_vecs_record: "length (vecs_record u32_to_le_bytes v) = (length v + 1) * 4"
  using u32le.length_stream[of v] by (simp add: vecs_record_def)

text \<open>
  What \<^verbatim>\<open>parse_fvecs\<close> makes of a well-formed file of vectors of the same positive dimension: the
  first \<open>cnt\<close> vectors in order, each without its first component, because the bytes of the dimension
  are skipped twice. A negative cnt means all vectors.
\<close>

theorem parse_fvecs_loses_first_component:
  assumes "vs \<noteq> []" "\<forall>v \<in> set vs. length v = d" "0 < d" "d < 2 ^ 32" "open_file path = Some (concat (map (vecs_record u32_to_le_bytes) vs))"
  shows "parse_fvecs open_file path cnt = Inr (map tl (take (as_usize cnt) vs))"
proof -
  obtain w ws where vs: "vs = w # ws" using assms(1) by (cases vs) auto
  let ?file = "concat (map (vecs_record u32_to_le_bytes) vs)"
  have w: "length w = d" using assms(2) vs by simp
  have "take 4 ?file = u32_to_le_bytes (word_of_nat d)" by (simp add: vs vecs_record_def w)
  then have dim: "unat (u32_from_le_bytes (take 4 ?file)) = d" using assms(4) by (simp add: unat_of_nat)
  have "chunks ((d + 1) * 4) ?file = map (vecs_record u32_to_le_bytes) vs"
    by (rule chunks_blocks) (use assms(2) in \<open>auto simp: length_vecs_record\<close>)
  moreover have "traverse_r (parse_chunk 4 elem4_from_le_bytes d) (map (vecs_record u32_to_le_bytes) us) = Inr (map (\<lambda>v. (True, tl v)) us)"
    if "set us \<subseteq> set vs" for us
    using that assms(2-4) by (induction us) (auto simp: parse_chunk_record)
  moreover have "\<not> length ?file < 4" by (simp add: vs vecs_record_def)
  ultimately show ?thesis
    using assms(5) dim set_take_subset[of "as_usize cnt" vs]
    by (simp add: parse_fvecs_def parse_vecs_def take_map list_all_iff comp_def del: length_concat)
qed

theorem parse_fvecs_loses_first_component_witness:
  "parse_fvecs (\<lambda>p. Some (concat (map (vecs_record u32_to_le_bytes) [[1, 2], [3, 4]]))) ''f'' (-1) = Inr [[2], [4]]"
  using parse_fvecs_loses_first_component[of "[[1, 2], [3, 4]]" 2 "\<lambda>p. Some (concat (map (vecs_record u32_to_le_bytes) [[1, 2], [3, 4]]))" "''f''" "-1"]
  by (simp add: as_usize_def)

text \<open>
  The chunk size is that of four byte elements, so a file of byte vectors is cut in the wrong places:
  of a single vector the first four components are lost.
\<close>

lemma parse_bvecs_single:
  assumes "4 \<le> length v" "length v < 2 ^ 32" "open_file path = Some (vecs_record (\<lambda>x. [x]) v)" "0 < cnt" "cnt < 2 ^ 31"
  shows "parse_bvecs open_file path cnt = Inr [map unat (drop 4 v)]"
proof -
  have flat: "concat (map (\<lambda>x. [x]) xs) = xs" for xs :: bytes by (induction xs) auto
  have one: "chunks (Suc 0) xs = map (\<lambda>x. [x]) xs" for xs :: bytes
    by (induction xs) (simp_all add: chunks_step)
  have tr: "traverse_r elem1_from_le_bytes (map (\<lambda>x. [x]) xs) = Inr xs" for xs
    by (induction xs) (auto simp: elem1_from_le_bytes_def)
  have dim: "unat (word_of_nat (length v) :: u32) = length v" using assms(2) by (simp add: unat_of_nat)
  have "chunks ((length v + 1) * 4) (vecs_record (\<lambda>x. [x]) v) = [vecs_record (\<lambda>x. [x]) v]"
    by (subst chunks.simps) (use assms(1) in \<open>auto simp: vecs_record_def flat\<close>)
  moreover have "as_usize cnt = Suc (nat cnt - 1)" using assms(4,5) by (simp add: as_usize_def)
  ultimately show ?thesis
    using assms(3) by (simp add: parse_bvecs_def parse_vecs_def parse_chunk_def vecs_record_def flat one tr dim)
qed

end
