(* ===== verification/Stemmers.thy ===== *)
theory Stemmers
  imports Prelude
begin

text \<open>
  \<^verbatim>\<open>lantern_extras/src/stemmers.rs\<close>: the tokenizer of the BM25 functions and the file of user defined
  stop words. Characters are Unicode scalar values; the Unicode tables (\<^verbatim>\<open>to_lowercase\<close>,
  \<^verbatim>\<open>is_alphanumeric\<close>, white space) and the Snowball stemmer are arguments.
\<close>

definition stop_words :: "string list" where
  "stop_words =
    [''a'', ''an'', ''and'', ''are'', ''as'', ''at'', ''be'', ''but'', ''by'', ''for'', ''if'', ''in'', ''into'', ''is'',
     ''it'', ''no'', ''not'', ''of'', ''on'', ''or'', ''such'', ''that'', ''the'', ''their'', ''then'', ''there'',
     ''these'', ''they'', ''this'', ''to'', ''was'', ''will'', ''with'']"

text \<open>A text of scalar values; \<^verbatim>\<open>str\<close> constants are ASCII.\<close>

type_synonym scalars = "nat list"

definition ascii :: "string \<Rightarrow> scalars" where
  "ascii s = map of_char s"

text \<open>\<^verbatim>\<open>split_whitespace\<close>: the maximal runs of other characters.\<close>

fun split_runs :: "('c \<Rightarrow> bool) \<Rightarrow> 'c list \<Rightarrow> 'c list \<Rightarrow> 'c list list" where
  "split_runs sep [] run = (if run = [] then [] else [run])"
| "split_runs sep (c # cs) run =
    (if sep c then (if run = [] then split_runs sep cs [] else run # split_runs sep cs [])
     else split_runs sep cs (run @ [c]))"

definition split_whitespace :: "('c \<Rightarrow> bool) \<Rightarrow> 'c list \<Rightarrow> 'c list list" where
  "split_whitespace sep cs = split_runs sep cs []"

definition text_to_stem_array_rust ::
  "(scalars \<Rightarrow> scalars) \<Rightarrow> (nat \<Rightarrow> bool) \<Rightarrow> (nat \<Rightarrow> bool) \<Rightarrow> (scalars \<Rightarrow> scalars) \<Rightarrow> scalars \<Rightarrow> scalars list" where
  "text_to_stem_array_rust to_lowercase is_alphanumeric is_whitespace stem input =
    filter (\<lambda>word. word \<notin> set (map ascii stop_words))
      (map stem (split_whitespace is_whitespace
        (map (\<lambda>c. if \<not> is_alphanumeric c then 32 else c) (to_lowercase input))))"

section \<open>Stop words of the user\<close>

definition USER_DEFINED_STOPWORDS_FILE :: string where
  "USER_DEFINED_STOPWORDS_FILE = ''userdefined.stop''"

definition stopwords_file_path :: "string \<Rightarrow> string" where
  "stopwords_file_path base_dir = base_dir @ ''/tsearch_data/'' @ USER_DEFINED_STOPWORDS_FILE"

text \<open>A file system maps paths to contents; creating a file empties it. \<open>denied\<close> says why creation fails.\<close>

definition set_user_stopwords ::
  "(string \<Rightarrow> string option) \<Rightarrow> string \<Rightarrow> string list option \<Rightarrow> (string \<rightharpoonup> string) \<Rightarrow> string result \<times> (string \<rightharpoonup> string)" where
  "set_user_stopwords denied base_dir arr fs =
    (let file_path = stopwords_file_path base_dir
     in case denied file_path of
          Some e \<Rightarrow> (Inl (Bail e), fs)
        | None \<Rightarrow>
            (Inr file_path,
             fs(file_path \<mapsto> concat (map (\<lambda>s. s @ [CHR 0x0A]) (case arr of None \<Rightarrow> [] | Some ws \<Rightarrow> ws)))))"

text \<open>\<^verbatim>\<open>BufRead::lines\<close>: lines without their newline and without a carriage return before it.\<close>

definition strip_cr :: "string \<Rightarrow> string" where
  "strip_cr l = (if l \<noteq> [] \<and> last l = CHR 0x0D then butlast l else l)"

definition lines :: "string \<Rightarrow> string list" where
  "lines s =
    (let ls = split_char (CHR 0x0A) s
     in map strip_cr (butlast ls) @ (if last ls = [] then [] else [last ls]))"

definition get_user_stopwords :: "string \<Rightarrow> (string \<rightharpoonup> string) \<Rightarrow> string list" where
  "get_user_stopwords base_dir fs =
    (case fs (stopwords_file_path base_dir) of None \<Rightarrow> [] | Some s \<Rightarrow> lines s)"

section \<open>Lemmas\<close>

lemma split_runs_words: "w \<in> set (split_runs sep cs run) \<Longrightarrow> w \<noteq> []"
  by (induction cs arbitrary: run) (auto split: if_splits)

lemma concat_split_runs:
  "list_all (\<lambda>c. \<not> sep c) run \<Longrightarrow> concat (split_runs sep cs run) = run @ filter (\<lambda>c. \<not> sep c) cs"
  by (induction cs arbitrary: run) auto

lemma split_runs_all:
  assumes "list_all (\<lambda>c. \<not> sep c \<longrightarrow> P c) cs"
  shows "list_all (\<lambda>w. w \<noteq> [] \<and> list_all P w) (split_runs sep cs [])"
proof -
  have "set w \<subseteq> set (filter (\<lambda>c. \<not> sep c) cs)" if "w \<in> set (split_runs sep cs [])" for w
    using that concat_split_runs[of sep "[]" cs] by (metis append_Nil list.pred_inject(1) set_concat UN_upper)
  then show ?thesis using assms split_runs_words[of _ sep cs "[]"] by (fastforce simp: list_all_iff)
qed

text \<open>
  The tokenizer returns stems of words and never a stop word: with a white space test that holds
  of the space, every token is the stem of a non-empty run of alphanumeric characters of the lower-cased
  text, and the runs, put together, are all its alphanumeric characters in order.
\<close>

theorem stem_array_tokens:
  assumes "is_whitespace 32" "\<forall>c. is_alphanumeric c \<longrightarrow> \<not> is_whitespace c"
  shows "\<exists>ws. concat ws = filter is_alphanumeric (to_lowercase input)
    \<and> list_all (\<lambda>w. w \<noteq> [] \<and> list_all is_alphanumeric w) ws
    \<and> text_to_stem_array_rust to_lowercase is_alphanumeric is_whitespace stem input =
      filter (\<lambda>t. t \<notin> set (map ascii stop_words)) (map stem ws)"
proof -
  let ?cs = "map (\<lambda>c. if \<not> is_alphanumeric c then 32 else c) (to_lowercase input)"
  have "filter (\<lambda>c. \<not> is_whitespace c) (map (\<lambda>c. if \<not> is_alphanumeric c then 32 else c) cs) = filter is_alphanumeric cs" for cs
    using assms by (induction cs) auto
  then have "concat (split_whitespace is_whitespace ?cs) = filter is_alphanumeric (to_lowercase input)"
    unfolding split_whitespace_def by (simp only: concat_split_runs list.pred_inject append.simps)
  moreover have "list_all (\<lambda>w. w \<noteq> [] \<and> list_all is_alphanumeric w) (split_whitespace is_whitespace ?cs)"
    unfolding split_whitespace_def by (rule split_runs_all) (use assms in \<open>auto simp: list_all_iff\<close>)
  ultimately show ?thesis
    by (intro exI[of _ "split_whitespace is_whitespace ?cs"]) (simp only: text_to_stem_array_rust_def)
qed

theorem stem_array_tokens_witness:
  "\<exists>ws. concat ws = ascii ''thecats'' \<and> list_all (\<lambda>w. w \<noteq> []) ws
    \<and> text_to_stem_array_rust id (\<lambda>c. 97 \<le> c) (\<lambda>c. c = 32) id (ascii ''the cats'') =
      filter (\<lambda>t. t \<notin> set (map ascii stop_words)) ws"
  using stem_array_tokens[of "\<lambda>c. c = 32" "\<lambda>c. 97 \<le> c" id "ascii ''the cats''" id]
  by (auto simp: ascii_def list_all_iff)

lemma lines_of_words:
  assumes "\<forall>w \<in> set ws. CHR 0x0A \<notin> set w \<and> (w = [] \<or> last w \<noteq> CHR 0x0D)"
  shows "lines (concat (map (\<lambda>s. s @ [CHR 0x0A]) ws)) = ws"
proof -
  have "split_char (CHR 0x0A) (concat (map (\<lambda>s. s @ [CHR 0x0A]) ws)) = ws @ [[]]"
    using assms by (induction ws) (auto simp: split_char_append_sep)
  then show ?thesis using assms by (auto simp: lines_def strip_cr_def intro!: map_idI)
qed

text \<open>
  The stop words are read back as they were set, an absent list as no words, when no word
  contains a newline or ends with a carriage return; setting them replaces the earlier ones.
\<close>

theorem user_stopwords_roundtrip:
  assumes "\<forall>w \<in> set ws. CHR 0x0A \<notin> set w \<and> (w = [] \<or> last w \<noteq> CHR 0x0D)" "denied (stopwords_file_path dir) = None"
  shows "get_user_stopwords dir (snd (set_user_stopwords denied dir (Some ws) fs)) = ws
    \<and> get_user_stopwords dir (snd (set_user_stopwords denied dir None fs)) = []"
  using assms lines_of_words[OF assms(1)] lines_of_words[of "[]"]
  by (simp add: get_user_stopwords_def set_user_stopwords_def Let_def)

theorem user_stopwords_roundtrip_witness:
  "get_user_stopwords ''d'' (snd (set_user_stopwords (\<lambda>p. None) ''d'' (Some [''how'', ''what'']) Map.empty)) = [''how'', ''what'']"
  using user_stopwords_roundtrip[of "[''how'', ''what'']" "\<lambda>p. None" "''d''" Map.empty] by simp

end
