(* ===== verification/Llm_Functions.thy ===== *)
theory Llm_Functions
  imports Embedding_Runtime
begin

text \<open>
  The choice of the runtime in \<^verbatim>\<open>lantern_cli/src/embeddings/core/mod.rs\<close> and the SQL functions of
  \<^verbatim>\<open>lantern_extras/src/embeddings.rs\<close> that call it. Parameters are handed from the functions to the
  runtimes as records, where the source writes and reads them as JSON. The ONNX runtime and the
  network are the fields of \<open>services\<close>; a request is addressed by URL, endpoint and headers.
\<close>

section \<open>The runtimes behind one interface\<close>

datatype RuntimeParams = OrtParams string | OpenAiParams OpenAiRuntimeParams | CohereParams CohereRuntimeParams

datatype EmbeddingRuntime = CohereRt CohereRuntime | OpenAiRt OpenAiRuntime | OrtRt string

type_synonym target = "string \<times> string \<times> (string \<times> string) list"

record ('t, 'b, 'f) services =
  sv_ort_new :: "string \<Rightarrow> unit result"
  sv_ort_process :: "string \<Rightarrow> string \<Rightarrow> string list \<Rightarrow> 'f EmbeddingResult result"
  sv_tokenize :: "string \<Rightarrow> 't list"
  sv_http :: "target \<Rightarrow> 't request \<Rightarrow> nat \<Rightarrow> 'b reply"
  sv_chat :: "target \<Rightarrow> string \<times> string \<times> string \<Rightarrow> nat \<Rightarrow> 'b reply"
  sv_parse_openai :: "'b \<Rightarrow> 'f OpenAiResponse result"
  sv_parse_chat :: "'b \<Rightarrow> OpenAiChatResponse result"
  sv_parse_cohere :: "'b \<Rightarrow> 'f CohereResponse result"

text \<open>A runtime reads the parameters of its own kind; other JSON does not parse.\<close>

fun runtime_new :: "('t, 'b, 'f) services \<Rightarrow> Runtime \<Rightarrow> RuntimeParams \<Rightarrow> EmbeddingRuntime result" where
  "runtime_new sv Ort (OrtParams p) = and_then_r (sv_ort_new sv p) (\<lambda>_. Inr (OrtRt p))"
| "runtime_new sv OpenAi (OpenAiParams p) = and_then_r (openai_runtime_new (Inr p)) (\<lambda>r. Inr (OpenAiRt r))"
| "runtime_new sv Cohere (CohereParams p) = and_then_r (cohere_runtime_new (Inr p)) (\<lambda>r. Inr (CohereRt r))"
| "runtime_new sv _ _ = Inl (IoError ''invalid runtime parameters'')"

fun runtime_process :: "('t, 'b, 'f) services \<Rightarrow> EmbeddingRuntime \<Rightarrow> string \<Rightarrow> string list \<Rightarrow> 'f EmbeddingResult result" where
  "runtime_process sv (CohereRt rt) model_name inputs =
    post_request (sv_http sv (cr_base_url rt, ''/v1/embed'', cr_headers rt))
      (\<lambda>b. cohere_get_response (sv_parse_cohere sv b)) (cohere_chunk_inputs rt model_name inputs)"
| "runtime_process sv (OpenAiRt rt) model_name inputs =
    post_request (sv_http sv (or_base_url rt, ''/v1/embeddings'', or_headers rt))
      (\<lambda>b. openai_get_response (sv_parse_openai sv b)) (openai_chunk_inputs (sv_tokenize sv) rt model_name inputs)"
| "runtime_process sv (OrtRt p) model_name inputs = sv_ort_process sv p model_name inputs"

fun runtime_completion :: "('t, 'b, 'f) services \<Rightarrow> EmbeddingRuntime \<Rightarrow> string \<Rightarrow> string \<Rightarrow> CompletionResult result" where
  "runtime_completion sv (OpenAiRt rt) model_name qry =
    completion (sv_chat sv (or_base_url rt, ''/v1/chat/completions'', or_headers rt)) (sv_parse_chat sv) rt model_name qry (Some 1)"
| "runtime_completion sv _ model_name qry = Inl (Bail ''completion is not available for this runtime'')"

fun runtime_batch_completion :: "('t, 'b, 'f) services \<Rightarrow> EmbeddingRuntime \<Rightarrow> string \<Rightarrow> string list \<Rightarrow> BatchCompletionResult result" where
  "runtime_batch_completion sv (OpenAiRt rt) model_name queries =
    batch_completion (sv_chat sv (or_base_url rt, ''/v1/chat/completions'', or_headers rt)) (sv_parse_chat sv) rt model_name queries"
| "runtime_batch_completion sv _ model_name queries = Inl (Bail ''completion is not available for this runtime'')"

section \<open>The SQL functions\<close>

definition ORT_RUNTIME_PARAMS :: string where
  "ORT_RUNTIME_PARAMS = ''{ '' @ [CHR 0x22] @ ''cache'' @ [CHR 0x22] @ '': true }''"

text \<open>The settings of the extension.\<close>

record settings =
  LLM_TOKEN :: "string option"
  OPENAI_TOKEN :: "string option"
  LLM_DEPLOYMENT_URL :: "string option"
  OPENAI_AZURE_ENTRA_TOKEN :: "string option"

fun get_dummy_runtime_params :: "Runtime \<Rightarrow> RuntimeParams" where
  "get_dummy_runtime_params Ort = OrtParams ORT_RUNTIME_PARAMS"
| "get_dummy_runtime_params OpenAi =
    OpenAiParams \<lparr>op_base_url = None, op_api_token = Some ''xxx'', op_azure_entra_token = None, op_system_prompt = None, op_dimensions = None\<rparr>"
| "get_dummy_runtime_params Cohere = CohereParams \<lparr>cp_api_token = Some ''xxx'', cp_input_type = None\<rparr>"

definition non_empty :: "string \<Rightarrow> string option" where
  "non_empty s = (if s \<noteq> [] then Some s else None)"

definition get_openai_runtime_params ::
  "settings \<Rightarrow> string \<Rightarrow> string \<Rightarrow> string \<Rightarrow> string \<Rightarrow> int \<Rightarrow> OpenAiRuntimeParams result" where
  "get_openai_runtime_params st api_token azure_entra_token base_url system_prompt dimensions =
    (if api_token = [] \<and> OPENAI_TOKEN st = None \<and> LLM_TOKEN st = None \<and> OPENAI_AZURE_ENTRA_TOKEN st = None
     then Inl (Bail ''lantern_extras.llm_token or lantern_extras.openai_azure_entra_token is required for openai runtime'')
     else
       let dims = (if dimensions > 0 then Some (nat dimensions) else None);
           url = (if base_url = [] then LLM_DEPLOYMENT_URL st else Some base_url);
           token = non_empty api_token;
           token = (if token = None
                    then let token = OPENAI_TOKEN st
                         in if token = None \<and> LLM_TOKEN st \<noteq> None then LLM_TOKEN st else token
                    else token);
           entra = non_empty azure_entra_token;
           entra = (if entra = None then OPENAI_AZURE_ENTRA_TOKEN st else entra)
       in Inr \<lparr>op_base_url = url, op_api_token = token, op_azure_entra_token = entra,
               op_system_prompt = Some system_prompt, op_dimensions = dims\<rparr>)"

definition get_cohere_runtime_params :: "settings \<Rightarrow> string \<Rightarrow> string \<Rightarrow> CohereRuntimeParams result" where
  "get_cohere_runtime_params st api_token input_type =
    (if api_token = [] \<and> LLM_TOKEN st = None
     then Inl (Bail ''lantern_extras.llm_token is required for cohere runtime'')
     else
       let token = non_empty api_token;
           token = (if token = None then LLM_TOKEN st else token)
       in Inr \<lparr>cp_api_token = token, cp_input_type = Some input_type\<rparr>)"

definition llm_completion ::
  "('t, 'b, 'f) services \<Rightarrow> settings \<Rightarrow> string \<Rightarrow> string \<Rightarrow> string \<Rightarrow> string \<Rightarrow> string \<Rightarrow> string \<Rightarrow> string \<Rightarrow> string result" where
  "llm_completion sv st user_prompt model system_prompt base_url api_token azure_entra_token runtime =
    and_then_r (get_openai_runtime_params st api_token azure_entra_token base_url system_prompt 0) (\<lambda>params.
    and_then_r (runtime_from_str runtime) (\<lambda>runtime.
    and_then_r (runtime_new sv runtime (OpenAiParams params)) (\<lambda>embedding_runtime.
    and_then_r (runtime_completion sv embedding_runtime model user_prompt) (\<lambda>res. Inr (message res)))))"

definition llm_embedding ::
  "('t, 'b, 'f) services \<Rightarrow> settings \<Rightarrow> string \<Rightarrow> string \<Rightarrow> string \<Rightarrow> string \<Rightarrow> string \<Rightarrow> int \<Rightarrow> string \<Rightarrow> string \<Rightarrow> 'f list result" where
  "llm_embedding sv st input model base_url api_token azure_entra_token dimensions input_type runtime =
    and_then_r (runtime_from_str runtime) (\<lambda>runtime.
    and_then_r
      (case runtime of
         Ort \<Rightarrow> Inr (OrtParams ORT_RUNTIME_PARAMS)
       | OpenAi \<Rightarrow> and_then_r (get_openai_runtime_params st api_token azure_entra_token base_url [] dimensions) (\<lambda>p. Inr (OpenAiParams p))
       | Cohere \<Rightarrow> and_then_r (get_cohere_runtime_params st api_token input_type) (\<lambda>p. Inr (CohereParams p))) (\<lambda>params.
    and_then_r (runtime_new sv runtime params) (\<lambda>embedding_runtime.
    and_then_r (runtime_process sv embedding_runtime (get_clean_model_name model runtime) [input]) (\<lambda>res.
    if embeddings res = [] then Inl (Panicked ''called `Option::unwrap()` on a `None` value'') else Inr (last (embeddings res))))))"

definition text_embedding :: "('t, 'b, 'f) services \<Rightarrow> settings \<Rightarrow> string \<Rightarrow> string \<Rightarrow> 'f list result" where
  "text_embedding sv st model_name txt = llm_embedding sv st txt model_name [] [] [] 0 [] ''ort''"

definition openai_embedding :: "('t, 'b, 'f) services \<Rightarrow> settings \<Rightarrow> string \<Rightarrow> string \<Rightarrow> string \<Rightarrow> int \<Rightarrow> 'f list result" where
  "openai_embedding sv st model_name txt base_url dimensions =
    llm_embedding sv st txt model_name base_url [] [] dimensions [] ''openai''"

section \<open>Credentials\<close>

text \<open>The token that is used: the argument, then the deprecated setting, then the general one.\<close>

definition effective_token :: "settings \<Rightarrow> string \<Rightarrow> string option" where
  "effective_token st api_token =
    (if api_token \<noteq> [] then Some api_token else case OPENAI_TOKEN st of Some t \<Rightarrow> Some t | None \<Rightarrow> LLM_TOKEN st)"

lemma get_openai_runtime_params_token:
  "get_openai_runtime_params st api_token entra url prompt dims = Inr p \<Longrightarrow> op_api_token p = effective_token st api_token"
  by (auto simp: get_openai_runtime_params_def effective_token_def non_empty_def Let_def split: if_splits option.splits)

lemma get_openai_runtime_params_fields:
  "get_openai_runtime_params st api_token entra url prompt dims = Inr p \<Longrightarrow>
    op_base_url p = (if url = [] then LLM_DEPLOYMENT_URL st else Some url)
    \<and> op_azure_entra_token p = (if entra = [] then OPENAI_AZURE_ENTRA_TOKEN st else Some entra)
    \<and> op_dimensions p = (if dims > 0 then Some (nat dims) else None)"
  by (auto simp: get_openai_runtime_params_def non_empty_def Let_def split: if_splits)

text \<open>
  A SQL embedding call without a base URL sends the caller's credentials and nothing else: for
  every service and every setting without a deployment URL, if \<^verbatim>\<open>llm_embedding\<close> with the \<^verbatim>\<open>openai\<close> runtime
  returns a vector then a token was given as the argument or in a setting, in this order of
  precedence, and the vector is the one the runtime with exactly this bearer token returns for the
  single input.
\<close>

theorem llm_embedding_openai:
  assumes "LLM_DEPLOYMENT_URL st = None"
    and "llm_embedding sv st input model [] api_token entra dims input_type ''openai'' = Inr v"
  shows "\<exists>token rt res. effective_token st api_token = Some token
    \<and> or_base_url rt = ''https://api.openai.com'' \<and> or_headers rt = [(''Content-Type'', ''application/json''), (''Authorization'', ''Bearer '' @ token)]
    \<and> runtime_process sv (OpenAiRt rt) (get_clean_model_name model OpenAi) [input] = Inr res
    \<and> embeddings res \<noteq> [] \<and> v = last (embeddings res)"
proof -
  obtain p rt res where p: "get_openai_runtime_params st api_token entra [] [] dims = Inr p"
    and rt: "openai_runtime_new (Inr p) = Inr rt"
    and res: "runtime_process sv (OpenAiRt rt) (get_clean_model_name model OpenAi) [input] = Inr res"
    and v: "embeddings res \<noteq> []" "v = last (embeddings res)"
    using assms(2) by (auto simp: llm_embedding_def runtime_from_str_def and_then_r_eq_Inr split: if_splits)
  have url: "op_base_url p = None" using get_openai_runtime_params_fields[OF p] assms(1) by simp
  obtain token where token: "op_api_token p = Some token"
    using rt url by (auto simp: openai_runtime_new_def get_base_url_def openai_auth_header_def and_then_r_eq_Inr split: option.splits)
  have "or_base_url rt = ''https://api.openai.com''
    \<and> or_headers rt = [(''Content-Type'', ''application/json''), (''Authorization'', ''Bearer '' @ token)]"
    using rt url token by (auto simp: openai_runtime_new_def get_base_url_def openai_auth_header_def)
  then show ?thesis
    using get_openai_runtime_params_token[OF p] token res v
    by (intro exI[of _ token] exI[of _ rt] exI[of _ res]) (simp del: runtime_process.simps)
qed

text \<open>A service that returns, for every text, its tokens as a vector.\<close>

definition echo_services :: "(nat, nat request, nat) services" where
  "echo_services =
    \<lparr>sv_ort_new = (\<lambda>p. Inr ()), sv_ort_process = (\<lambda>p m inputs. Inl (Bail [])), sv_tokenize = map of_char,
     sv_http = (\<lambda>tgt q i. Body q), sv_chat = (\<lambda>tgt q i. SendError []),
     sv_parse_openai = (\<lambda>q. case q of TokenRequest g _ _ \<Rightarrow> Inr \<lparr>oa_data = g, oa_total_tokens = 1\<rparr> | _ \<Rightarrow> Inl (Bail [])),
     sv_parse_chat = (\<lambda>q. Inl (Bail [])), sv_parse_cohere = (\<lambda>q. Inl (Bail []))\<rparr>"

definition token_settings :: settings where
  "token_settings = \<lparr>LLM_TOKEN = Some ''k'', OPENAI_TOKEN = None, LLM_DEPLOYMENT_URL = None, OPENAI_AZURE_ENTRA_TOKEN = None\<rparr>"

lemma answered_at_once: "g b = Inr r \<Longrightarrow> fst (post_with_retries (\<lambda>i. Body b) g 5) = Inr r"
  using retry_loop.simps(2)[of "\<lambda>i. Body b" g 5 0 4] by (simp add: post_with_retries_def)

lemma echo_embedding:
  "llm_embedding echo_services token_settings ''ab'' ''text-embedding-3-small'' [] [] [] 0 [] ''openai'' = Inr [97, 98]"
  by (simp add: llm_embedding_def runtime_from_str_def get_openai_runtime_params_def token_settings_def non_empty_def
      openai_runtime_new_def get_base_url_def openai_auth_header_def echo_services_def post_request_def openai_chunk_inputs_def
      check_and_get_model_def OPENAI_MODEL_INFO_MAP_def openai_model_new_def last_path_part_def group_vectors_by_token_count_def
      openai_get_response_def remove_all.simps answered_at_once)

lemma token_settings_url: "LLM_DEPLOYMENT_URL token_settings = None"
  by (simp add: token_settings_def)

theorem llm_embedding_openai_witness:
  "\<exists>token (rt :: OpenAiRuntime) res. effective_token token_settings [] = Some token
    \<and> or_base_url rt = ''https://api.openai.com'' \<and> or_headers rt = [(''Content-Type'', ''application/json''), (''Authorization'', ''Bearer '' @ token)]
    \<and> runtime_process echo_services (OpenAiRt rt) (get_clean_model_name ''text-embedding-3-small'' OpenAi) [''ab''] = Inr res
    \<and> embeddings res \<noteq> [] \<and> [97, 98] = last (embeddings res)"
  by (rule llm_embedding_openai[OF token_settings_url echo_embedding])

end
