(* ===== verification/Spec2Isabelle.thy ===== *)
theory Spec2Isabelle
  imports Prelude Interfaces Utils Metric Index_Server Index_Build Postgres PQ_Quantization PQ_Codebook PQ PQ_Progress
    Embedding_Runtime Embedding_Export Embedding_Pipeline Float64 Autotune Daemon_Helpers Daemon_Main Embedding_Jobs Row_Batching
    Client_Jobs Autotune_Jobs Ort_Runtime Bloom_Filter BM25 Dotvecs Stemmers Llm_Functions
begin

text \<open>
  A verification library for Lantern: the external index server, product quantization and the
  embedding pipeline of \<^verbatim>\<open>lantern_cli\<close>.
\<close>

end
